(* ===== verification/Ocxl_Types.thy ===== *)
theory Ocxl_Types
  imports Ocxl_Prelude
begin

text \<open>
  The data of \<open>src/src/include/libocxl.h\<close> and \<open>src/src/libocxl_internal.h\<close>, the
  platform the library runs on, and the state its functions are run in.

  Pointers. A pointer to a heap object is the block the allocator returned, with an element
  index where the object is an array; \<open>NULL\<close> is \<open>None\<close> (or \<open>NullBuf\<close> for the
  two growable arrays). A device or mapped address is a 64 bit word, \<open>NULL\<close> being 0.
  A pointer kept across a \<open>realloc\<close> that moved its array names a block that is no
  longer the array's, so that dereferencing it is visible as undefined behaviour.

  Platform. The C library and kernel entry points the sources call, the constants of
  \<open>misc/ocxl.h\<close> (a kernel header that is not part of the repository) and the properties
  of the target (byte order, \<open>_ARCH_PPC64\<close>) are the fields of the record
  \<open>platform\<close>, a parameter of every definition that uses them. A call that may change the
  outside world threads a value of an arbitrary type \<open>'w\<close>.
\<close>

section \<open>Public types (libocxl.h)\<close>

datatype ocxl_endian =
    OCXL_MMIO_BIG_ENDIAN
  | OCXL_MMIO_LITTLE_ENDIAN
  | OCXL_MMIO_HOST_ENDIAN
  | OCXL_ENDIAN_OTHER int \<comment> \<open>any other value a caller can pass in the enum\<close>

datatype ocxl_mmio_type =
    OCXL_GLOBAL_MMIO
  | OCXL_PER_PASID_MMIO
  | OCXL_MMIO_TYPE_OTHER int \<comment> \<open>any other value a caller can pass in the enum\<close>

definition AFU_NAME_MAX :: nat where "AFU_NAME_MAX = 24"

record ocxl_identifier =
  afu_index :: u8
  afu_name :: string

type_synonym ocxl_irq_h = u16

datatype ocxl_err =
    OCXL_OK
  | OCXL_NO_MEM
  | OCXL_NO_DEV
  | OCXL_NO_CONTEXT
  | OCXL_NO_IRQ
  | OCXL_INTERNAL_ERROR
  | OCXL_ALREADY_DONE
  | OCXL_OUT_OF_BOUNDS
  | OCXL_NO_MORE_CONTEXTS
  | OCXL_INVALID_ARGS

fun err_code :: "ocxl_err \<Rightarrow> int" where
  "err_code OCXL_OK = 0"
| "err_code OCXL_NO_MEM = -1"
| "err_code OCXL_NO_DEV = -2"
| "err_code OCXL_NO_CONTEXT = -3"
| "err_code OCXL_NO_IRQ = -4"
| "err_code OCXL_INTERNAL_ERROR = -5"
| "err_code OCXL_ALREADY_DONE = -6"
| "err_code OCXL_OUT_OF_BOUNDS = -7"
| "err_code OCXL_NO_MORE_CONTEXTS = -8"
| "err_code OCXL_INVALID_ARGS = -9"

record ocxl_event_irq =
  ev_irq :: u16
  ev_handle :: u64
  ev_info :: u64
  ev_irq_count :: u64

record ocxl_event_translation_fault =
  tf_addr :: u64
  tf_dsisr :: u64
  tf_count :: u64

datatype ocxl_event =
    OCXL_EVENT_IRQ ocxl_event_irq
  | OCXL_EVENT_TRANSLATION_FAULT ocxl_event_translation_fault

definition OCXL_ERRORS :: u64 where "OCXL_ERRORS = 1"

definition OCXL_TRACING :: u64 where "OCXL_TRACING = 2"

section \<open>Internal types (libocxl\_internal.h)\<close>

type_synonym block = nat

datatype 'a cell =
    Obj 'a   \<comment> \<open>a struct the code has written\<close>
  | Zeroed   \<comment> \<open>every byte cleared by memset\<close>
  | Indet    \<comment> \<open>at least one byte never written: indeterminate\<close>

datatype 'a cbuf = NullBuf | Buf block "'a cell list"

record ocxl_mmio_area =
  mm_start :: u64
  mm_length :: u64
  mm_type :: ocxl_mmio_type
  mm_afu :: "block option"

datatype ocxl_event_action =
    OCXL_EVENT_ACTION_SUCCESS
  | OCXL_EVENT_ACTION_FAIL
  | OCXL_EVENT_ACTION_NONE
  | OCXL_EVENT_ACTION_IGNORE

datatype epoll_source_type = EPOLL_SOURCE_OCXL | EPOLL_SOURCE_IRQ

record epoll_fd_source =
  src_type :: epoll_source_type
  src_irq :: "(block \<times> nat) option" \<comment> \<open>which struct ocxl_irq, for an IRQ source\<close>

text \<open>What epoll's \<open>data.ptr\<close> points at: the \<open>fd_info\<close> of the AFU in the given
  block, or the \<open>fd_info\<close> of an element of the IRQ array in the given block.\<close>

datatype epoll_ptr = AfuInfo block | IrqInfo block nat

record ocxl_irq =
  irq_offset :: u64     \<comment> \<open>event.irq_offset\<close>
  irq_eventfd :: int    \<comment> \<open>event.eventfd\<close>
  irq_reserved :: u32   \<comment> \<open>event.reserved\<close>
  irq_number :: u16
  irq_addr :: u64
  irq_info :: u64
  irq_fd_info :: epoll_fd_source

text \<open>The error handlers a process can install: the library's own, or a callback of the
  application, named by a number.\<close>

datatype handler = DefaultHandler | UserHandler nat

record ocxl_afu =
  afu_block :: block  \<comment> \<open>the address of the struct itself\<close>
  afu_identifier :: ocxl_identifier
  device_path :: "(block \<times> string) option"
  sysfs_path :: "(block \<times> string) option"
  version_major :: u8
  version_minor :: u8
  afu_fd :: int
  afu_fd_info :: epoll_fd_source
  epoll_fd :: int
  epoll_events :: "block option"
  epoll_event_count :: u64
  global_mmio_fd :: int
  global_mmio :: ocxl_mmio_area
  per_pasid_mmio :: ocxl_mmio_area
  page_size :: u64
  irqs :: "ocxl_irq cbuf"
  irq_count :: u16
  irq_max_count :: u16
  mmios :: "ocxl_mmio_area cbuf"
  mmio_count :: u16
  mmio_max_count :: u16
  pasid :: u32
  afu_verbose_errors :: bool
  afu_error_handler :: handler
  afu_tracing :: bool
  attached :: bool
  ppc64_amr :: u64

definition INITIAL_IRQ_COUNT :: u64 where "INITIAL_IRQ_COUNT = 64"

definition INITIAL_MMIO_COUNT :: u64 where "INITIAL_MMIO_COUNT = 4"

text \<open>\<open>sizeof(ocxl_mmio_area)\<close> on the 64 bit targets: two 8 byte words, an enum padded to
  8 bytes, a pointer.\<close>

definition sizeof_mmio_area :: nat where "sizeof_mmio_area = 32"

text \<open>An MMIO handle: \<open>NULL\<close>, or a pointer to an element of an AFU's region array.\<close>

type_synonym ocxl_mmio_h = "(block \<times> nat) option"

section \<open>The platform\<close>

text \<open>\<open>struct ocxl_ioctl_metadata\<close>, as far as the library reads it.\<close>

record metadata =
  md_version_major :: u8
  md_version_minor :: u8
  md_pp_mmio_size :: u64
  md_global_mmio_size :: u64
  md_pasid :: u32

record 'w platform =
  \<comment> \<open>target and generated constants\<close>
  arch_ppc64 :: bool
  host_little_endian :: bool
  libocxl_info :: string
  \<comment> \<open>misc/ocxl.h\<close>
  sizeof_event_header :: nat
  sizeof_xsl_fault_error :: nat
  sizeof_ocxl_irq :: nat
  sizeof_ocxl_afu :: nat
  sizeof_epoll_event :: nat
  AFU_EVENT_XSL_FAULT_ERROR :: u16
  EVENT_FLAG_LAST :: u16
  FEATURES_FLAGS0_P9_WAIT :: u64
  header_type :: "u8 list \<Rightarrow> u16"
  header_flags :: "u8 list \<Rightarrow> u16"
  xsl_addr :: "u8 list \<Rightarrow> u64"
  xsl_dsisr :: "u8 list \<Rightarrow> u64"
  xsl_count :: "u8 list \<Rightarrow> u64"
  \<comment> \<open>C library\<close>
  os_errno :: "'w \<Rightarrow> int"
  os_strerror :: "int \<Rightarrow> string"
  os_getenv :: "string \<Rightarrow> 'w \<Rightarrow> string option"
  os_sysconf_pagesize :: "'w \<Rightarrow> u64"
  os_malloc :: "nat \<Rightarrow> 'w \<Rightarrow> block option \<times> 'w"
  os_realloc :: "block option \<Rightarrow> nat \<Rightarrow> 'w \<Rightarrow> block option \<times> 'w"
  os_free :: "block option \<Rightarrow> 'w \<Rightarrow> 'w"
  os_glob :: "string \<Rightarrow> 'w \<Rightarrow> (int \<times> string list) \<times> 'w"
  os_opendir :: "string \<Rightarrow> 'w \<Rightarrow> string list option \<times> 'w"
  os_fstatat :: "string \<Rightarrow> string \<Rightarrow> 'w \<Rightarrow> (int \<times> bool \<times> u64) \<times> 'w"
  os_stat :: "string \<Rightarrow> 'w \<Rightarrow> (int \<times> u64) \<times> 'w"
  \<comment> \<open>system calls\<close>
  os_open :: "string \<Rightarrow> int \<Rightarrow> 'w \<Rightarrow> int \<times> 'w"
  os_close :: "int \<Rightarrow> 'w \<Rightarrow> 'w"
  os_read :: "int \<Rightarrow> nat \<Rightarrow> 'w \<Rightarrow> (int \<times> u8 list) \<times> 'w"
  os_read_eventfd :: "int \<Rightarrow> 'w \<Rightarrow> (int \<times> u64) \<times> 'w"
  os_eventfd :: "'w \<Rightarrow> int \<times> 'w"
  os_mmap :: "u64 \<Rightarrow> int \<Rightarrow> int \<Rightarrow> u64 \<Rightarrow> 'w \<Rightarrow> u64 \<times> 'w"
  os_munmap :: "u64 \<Rightarrow> u64 \<Rightarrow> 'w \<Rightarrow> int \<times> 'w"
  os_epoll_create :: "'w \<Rightarrow> int \<times> 'w"
  os_epoll_add :: "int \<Rightarrow> int \<Rightarrow> epoll_ptr \<Rightarrow> 'w \<Rightarrow> int \<times> 'w"
  os_epoll_wait :: "int \<Rightarrow> u16 \<Rightarrow> int \<Rightarrow> 'w \<Rightarrow> (int \<times> epoll_ptr list) \<times> 'w"
  os_ioctl_get_metadata :: "int \<Rightarrow> 'w \<Rightarrow> (int \<times> metadata) \<times> 'w"
  os_ioctl_attach :: "int \<Rightarrow> u64 \<Rightarrow> 'w \<Rightarrow> int \<times> 'w"
  os_ioctl_irq_alloc :: "int \<Rightarrow> 'w \<Rightarrow> (int \<times> u64 option) \<times> 'w"
  os_ioctl_irq_set_fd :: "int \<Rightarrow> u64 \<Rightarrow> int \<Rightarrow> u32 \<Rightarrow> 'w \<Rightarrow> int \<times> 'w"
  os_ioctl_irq_free :: "int \<Rightarrow> u64 \<Rightarrow> 'w \<Rightarrow> int \<times> 'w"
  os_ioctl_get_features :: "int \<Rightarrow> 'w \<Rightarrow> (int \<times> u64) \<times> 'w"
  os_ioctl_enable_p9_wait :: "int \<Rightarrow> 'w \<Rightarrow> (int \<times> u16) \<times> 'w"
  \<comment> \<open>the mapped device memory\<close>
  os_load :: "u64 \<Rightarrow> nat \<Rightarrow> 'w \<Rightarrow> u8 list \<times> 'w"
  os_store :: "u64 \<Rightarrow> u8 list \<Rightarrow> 'w \<Rightarrow> 'w"

definition MAP_FAILED :: u64 where "MAP_FAILED = - 1"

definition ENOSPC :: int where "ENOSPC = 28"

definition EAGAIN :: int where "EAGAIN = 11"

definition EWOULDBLOCK :: int where "EWOULDBLOCK = 11"

definition GLOB_NOSPACE :: int where "GLOB_NOSPACE = 1"

definition GLOB_NOMATCH :: int where "GLOB_NOMATCH = 3"

definition PATH_MAX :: nat where "PATH_MAX = 4096"

definition O_RDWR :: int where "O_RDWR = 2"

definition O_NONBLOCK :: int where "O_NONBLOCK = 2048"

definition O_CLOEXEC :: int where "O_CLOEXEC = 524288"

definition PROT_READ :: int where "PROT_READ = 1"

definition PROT_WRITE :: int where "PROT_WRITE = 2"

section \<open>The state of the process\<close>

record globals =
  sys_path :: "string option"
  dev_path :: "string option"
  libocxl_inited :: bool
  verbose_errors :: bool
  verbose_errors_all :: bool
  tracing :: bool
  tracing_all :: bool
  error_handler :: handler

text \<open>Output: text on standard error or standard output (the library itself writes only to the
  former), or a call of an application's error callback with the AFU it was installed on
  (\<open>None\<close> for the global handler).\<close>

datatype out_event =
    Stderr string
  | Stdout string
  | Callback nat "block option" ocxl_err string

text \<open>The resource-changing calls made so far, with their results; the ghost record over
  which resource properties are stated.\<close>

datatype call =
    CMalloc nat "block option"
  | CRealloc "block option" nat "block option"
  | CFree "block option"
  | COpen string int int
  | CClose int
  | CEventfd int
  | CMmap u64 int int u64 u64
  | CMunmap u64 u64
  | CEpollCreate int
  | CEpollAdd int int epoll_ptr int
  | CEpollWait int u16 int int
  | CAttach int u64 int
  | CIrqAlloc int int "u64 option"
  | CIrqSetFd int u64 int u32 int
  | CIrqFree int u64 int
  | CLoad u64 nat
  | CStore u64 "u8 list"

text \<open>Undefined behaviour the sources can reach. The model records it and goes on with an
  arbitrary value, so a result is meaningful only while the record is empty.\<close>

datatype ub_kind =
    UB_dangling_pointer
  | UB_out_of_bounds
  | UB_indeterminate
  | UB_null_argument
  | UB_integer_overflow

record 'w st =
  glb :: globals
  outs :: "out_event list"
  calls :: "call list"
  ub :: "ub_kind list"
  fmt_ub :: "string list" \<comment> \<open>message formats used with arguments that do not match\<close>
  wld :: 'w
  cur_afu :: ocxl_afu  \<comment> \<open>the AFU the handle in use points to\<close>

type_synonym ('w, 'a) prog = "('w st, 'a) state"

definition undefined_behaviour :: "ub_kind \<Rightarrow> ('w, unit) prog" where
  "undefined_behaviour k = modify (\<lambda>s. s\<lparr>ub := ub s @ [k]\<rparr>)"

definition log_call :: "call \<Rightarrow> ('w, unit) prog" where
  "log_call c = modify (\<lambda>s. s\<lparr>calls := calls s @ [c]\<rparr>)"

definition afu_get :: "(ocxl_afu \<Rightarrow> 'a) \<Rightarrow> ('w, 'a) prog" where
  "afu_get f = gets (\<lambda>s. f (cur_afu s))"

definition afu_set :: "(ocxl_afu \<Rightarrow> ocxl_afu) \<Rightarrow> ('w, unit) prog" where
  "afu_set f = modify (\<lambda>s. s\<lparr>cur_afu := f (cur_afu s)\<rparr>)"

text \<open>A call into the platform.\<close>

definition sys :: "('w \<Rightarrow> 'a \<times> 'w) \<Rightarrow> ('w, 'a) prog" where
  "sys f = State (\<lambda>s. case f (wld s) of (r, w) \<Rightarrow> (r, s\<lparr>wld := w\<rparr>))"

lemma wp_undefined_behaviour [wp_simps]:
  "wp (undefined_behaviour k) Q s = Q () (s\<lparr>ub := ub s @ [k]\<rparr>)"
  by (simp add: undefined_behaviour_def wp_simps)

lemma wp_log_call [wp_simps]: "wp (log_call c) Q s = Q () (s\<lparr>calls := calls s @ [c]\<rparr>)"
  by (simp add: log_call_def wp_simps)

lemma wp_afu_get [wp_simps]: "wp (afu_get f) Q s = Q (f (cur_afu s)) s"
  by (simp add: afu_get_def wp_simps)

lemma wp_afu_set [wp_simps]: "wp (afu_set f) Q s = Q () (s\<lparr>cur_afu := f (cur_afu s)\<rparr>)"
  by (simp add: afu_set_def wp_simps)

lemma wp_sys [wp_simps]:
  "wp (sys f) Q s = (case f (wld s) of (r, w) \<Rightarrow> Q r (s\<lparr>wld := w\<rparr>))"
  by (simp add: sys_def wp_def split: prod.splits)

end
