(* ===== verification/Ocxl_Platform.thy ===== *)
theory Ocxl_Platform
  imports Ocxl_Types
begin

text \<open>
  The calls into the platform, each run on the world of the state and, where it acquires,
  changes or releases a resource, entered in the call record with its result. The rules
  \<open>wp_call\<close> give the weakest precondition of each of them.
\<close>

named_theorems wp_call \<open>weakest preconditions of the platform calls\<close>

definition errno :: "'w platform \<Rightarrow> ('w, int) prog" where
  "errno K = gets (\<lambda>s. os_errno K (wld s))"

definition do_malloc :: "'w platform \<Rightarrow> nat \<Rightarrow> ('w, block option) prog" where
  "do_malloc K n = do { r \<leftarrow> sys (os_malloc K n); log_call (CMalloc n r); State_Monad.return r }"

definition do_realloc :: "'w platform \<Rightarrow> block option \<Rightarrow> nat \<Rightarrow> ('w, block option) prog" where
  "do_realloc K b n =
     do { r \<leftarrow> sys (os_realloc K b n); log_call (CRealloc b n r); State_Monad.return r }"

definition do_free :: "'w platform \<Rightarrow> block option \<Rightarrow> ('w, unit) prog" where
  "do_free K b = do { sys (\<lambda>w. ((), os_free K b w)); log_call (CFree b) }"

definition do_open :: "'w platform \<Rightarrow> string \<Rightarrow> int \<Rightarrow> ('w, int) prog" where
  "do_open K p flags =
     do { r \<leftarrow> sys (os_open K p flags); log_call (COpen p flags r); State_Monad.return r }"

definition do_close :: "'w platform \<Rightarrow> int \<Rightarrow> ('w, unit) prog" where
  "do_close K d = do { sys (\<lambda>w. ((), os_close K d w)); log_call (CClose d) }"

definition do_eventfd :: "'w platform \<Rightarrow> ('w, int) prog" where
  "do_eventfd K = do { r \<leftarrow> sys (os_eventfd K); log_call (CEventfd r); State_Monad.return r }"

definition do_mmap :: "'w platform \<Rightarrow> u64 \<Rightarrow> int \<Rightarrow> int \<Rightarrow> u64 \<Rightarrow> ('w, u64) prog" where
  "do_mmap K len prot d off =
     do { r \<leftarrow> sys (os_mmap K len prot d off);
          log_call (CMmap len prot d off r); State_Monad.return r }"

definition do_munmap :: "'w platform \<Rightarrow> u64 \<Rightarrow> u64 \<Rightarrow> ('w, int) prog" where
  "do_munmap K a len =
     do { r \<leftarrow> sys (os_munmap K a len); log_call (CMunmap a len); State_Monad.return r }"

definition do_epoll_create :: "'w platform \<Rightarrow> ('w, int) prog" where
  "do_epoll_create K =
     do { r \<leftarrow> sys (os_epoll_create K); log_call (CEpollCreate r); State_Monad.return r }"

definition do_epoll_add :: "'w platform \<Rightarrow> int \<Rightarrow> int \<Rightarrow> epoll_ptr \<Rightarrow> ('w, int) prog" where
  "do_epoll_add K ep d p =
     do { r \<leftarrow> sys (os_epoll_add K ep d p); log_call (CEpollAdd ep d p r); State_Monad.return r }"

definition do_epoll_wait ::
  "'w platform \<Rightarrow> int \<Rightarrow> u16 \<Rightarrow> int \<Rightarrow> ('w, int \<times> epoll_ptr list) prog" where
  "do_epoll_wait K ep n timeout =
     do { r \<leftarrow> sys (os_epoll_wait K ep n timeout);
          log_call (CEpollWait ep n timeout (fst r)); State_Monad.return r }"

definition do_attach :: "'w platform \<Rightarrow> int \<Rightarrow> u64 \<Rightarrow> ('w, int) prog" where
  "do_attach K d amr =
     do { r \<leftarrow> sys (os_ioctl_attach K d amr); log_call (CAttach d amr r); State_Monad.return r }"

definition do_irq_alloc :: "'w platform \<Rightarrow> int \<Rightarrow> ('w, int \<times> u64 option) prog" where
  "do_irq_alloc K d =
     do { r \<leftarrow> sys (os_ioctl_irq_alloc K d);
          log_call (CIrqAlloc d (fst r) (snd r)); State_Monad.return r }"

definition do_irq_set_fd ::
  "'w platform \<Rightarrow> int \<Rightarrow> u64 \<Rightarrow> int \<Rightarrow> u32 \<Rightarrow> ('w, int) prog" where
  "do_irq_set_fd K d off e rsv =
     do { r \<leftarrow> sys (os_ioctl_irq_set_fd K d off e rsv);
          log_call (CIrqSetFd d off e rsv r); State_Monad.return r }"

definition do_irq_free :: "'w platform \<Rightarrow> int \<Rightarrow> u64 \<Rightarrow> ('w, int) prog" where
  "do_irq_free K d off =
     do { r \<leftarrow> sys (os_ioctl_irq_free K d off);
          log_call (CIrqFree d off r); State_Monad.return r }"

definition do_load :: "'w platform \<Rightarrow> u64 \<Rightarrow> nat \<Rightarrow> ('w, u8 list) prog" where
  "do_load K a n =
     do { r \<leftarrow> sys (os_load K a n); log_call (CLoad a n); State_Monad.return r }"

definition do_store :: "'w platform \<Rightarrow> u64 \<Rightarrow> u8 list \<Rightarrow> ('w, unit) prog" where
  "do_store K a bs = do { sys (\<lambda>w. ((), os_store K a bs w)); log_call (CStore a bs) }"

lemma wp_errno [wp_call]: "wp (errno K) Q s = Q (os_errno K (wld s)) s"
  by (simp add: errno_def wp_simps)

lemma wp_do_malloc [wp_call]:
  "wp (do_malloc K n) Q s = (case os_malloc K n (wld s) of (r, w) \<Rightarrow>
     Q r (s\<lparr>wld := w, calls := calls s @ [CMalloc n r]\<rparr>))"
  by (simp add: do_malloc_def wp_simps)

lemma wp_do_realloc [wp_call]:
  "wp (do_realloc K b n) Q s = (case os_realloc K b n (wld s) of (r, w) \<Rightarrow>
     Q r (s\<lparr>wld := w, calls := calls s @ [CRealloc b n r]\<rparr>))"
  by (simp add: do_realloc_def wp_simps)

lemma wp_do_free [wp_call]:
  "wp (do_free K b) Q s =
     Q () (s\<lparr>wld := os_free K b (wld s), calls := calls s @ [CFree b]\<rparr>)"
  by (simp add: do_free_def wp_simps)

lemma wp_do_open [wp_call]:
  "wp (do_open K p flags) Q s = (case os_open K p flags (wld s) of (r, w) \<Rightarrow>
     Q r (s\<lparr>wld := w, calls := calls s @ [COpen p flags r]\<rparr>))"
  by (simp add: do_open_def wp_simps)

lemma wp_do_close [wp_call]:
  "wp (do_close K d) Q s =
     Q () (s\<lparr>wld := os_close K d (wld s), calls := calls s @ [CClose d]\<rparr>)"
  by (simp add: do_close_def wp_simps)

lemma wp_do_eventfd [wp_call]:
  "wp (do_eventfd K) Q s = (case os_eventfd K (wld s) of (r, w) \<Rightarrow>
     Q r (s\<lparr>wld := w, calls := calls s @ [CEventfd r]\<rparr>))"
  by (simp add: do_eventfd_def wp_simps)

lemma wp_do_mmap [wp_call]:
  "wp (do_mmap K len prot d off) Q s = (case os_mmap K len prot d off (wld s) of (r, w) \<Rightarrow>
     Q r (s\<lparr>wld := w, calls := calls s @ [CMmap len prot d off r]\<rparr>))"
  by (simp add: do_mmap_def wp_simps)

lemma wp_do_munmap [wp_call]:
  "wp (do_munmap K a len) Q s = (case os_munmap K a len (wld s) of (r, w) \<Rightarrow>
     Q r (s\<lparr>wld := w, calls := calls s @ [CMunmap a len]\<rparr>))"
  by (simp add: do_munmap_def wp_simps)

lemma wp_do_epoll_create [wp_call]:
  "wp (do_epoll_create K) Q s = (case os_epoll_create K (wld s) of (r, w) \<Rightarrow>
     Q r (s\<lparr>wld := w, calls := calls s @ [CEpollCreate r]\<rparr>))"
  by (simp add: do_epoll_create_def wp_simps)

lemma wp_do_epoll_add [wp_call]:
  "wp (do_epoll_add K ep d p) Q s = (case os_epoll_add K ep d p (wld s) of (r, w) \<Rightarrow>
     Q r (s\<lparr>wld := w, calls := calls s @ [CEpollAdd ep d p r]\<rparr>))"
  by (simp add: do_epoll_add_def wp_simps)

lemma wp_do_epoll_wait [wp_call]:
  "wp (do_epoll_wait K ep n t) Q s = (case os_epoll_wait K ep n t (wld s) of (r, w) \<Rightarrow>
     Q r (s\<lparr>wld := w, calls := calls s @ [CEpollWait ep n t (fst r)]\<rparr>))"
  by (simp add: do_epoll_wait_def wp_simps)

lemma wp_do_attach [wp_call]:
  "wp (do_attach K d amr) Q s = (case os_ioctl_attach K d amr (wld s) of (r, w) \<Rightarrow>
     Q r (s\<lparr>wld := w, calls := calls s @ [CAttach d amr r]\<rparr>))"
  by (simp add: do_attach_def wp_simps)

lemma wp_do_irq_alloc [wp_call]:
  "wp (do_irq_alloc K d) Q s = (case os_ioctl_irq_alloc K d (wld s) of (r, w) \<Rightarrow>
     Q r (s\<lparr>wld := w, calls := calls s @ [CIrqAlloc d (fst r) (snd r)]\<rparr>))"
  by (simp add: do_irq_alloc_def wp_simps)

lemma wp_do_irq_set_fd [wp_call]:
  "wp (do_irq_set_fd K d off e rsv) Q s =
     (case os_ioctl_irq_set_fd K d off e rsv (wld s) of (r, w) \<Rightarrow>
        Q r (s\<lparr>wld := w, calls := calls s @ [CIrqSetFd d off e rsv r]\<rparr>))"
  by (simp add: do_irq_set_fd_def wp_simps)

lemma wp_do_irq_free [wp_call]:
  "wp (do_irq_free K d off) Q s = (case os_ioctl_irq_free K d off (wld s) of (r, w) \<Rightarrow>
     Q r (s\<lparr>wld := w, calls := calls s @ [CIrqFree d off r]\<rparr>))"
  by (simp add: do_irq_free_def wp_simps)

lemma wp_do_load [wp_call]:
  "wp (do_load K a n) Q s = (case os_load K a n (wld s) of (r, w) \<Rightarrow>
     Q r (s\<lparr>wld := w, calls := calls s @ [CLoad a n]\<rparr>))"
  by (simp add: do_load_def wp_simps)

lemma wp_do_store [wp_call]:
  "wp (do_store K a bs) Q s =
     Q () (s\<lparr>wld := os_store K a bs (wld s), calls := calls s @ [CStore a bs]\<rparr>)"
  by (simp add: do_store_def wp_simps)

end
