(* ===== verification/Ocxl_Setup.thy ===== *)
theory Ocxl_Setup
  imports Ocxl_Platform
begin

text \<open>
  \<open>src/src/setup.c\<close>: message control for the open calls, the override paths of the test
  build, and the text of an error value.
\<close>

definition ocxl_set_sys_path :: "string option \<Rightarrow> ('w, unit) prog" where
  "ocxl_set_sys_path path = modify (\<lambda>s. s\<lparr>glb := (glb s)\<lparr>sys_path := path\<rparr>\<rparr>)"

definition ocxl_set_dev_path :: "string option \<Rightarrow> ('w, unit) prog" where
  "ocxl_set_dev_path path = modify (\<lambda>s. s\<lparr>glb := (glb s)\<lparr>dev_path := path\<rparr>\<rparr>)"

definition ocxl_enable_messages :: "u64 \<Rightarrow> ('w, unit) prog" where
  "ocxl_enable_messages sources = modify (\<lambda>s. s\<lparr>glb := (glb s)\<lparr>
     verbose_errors := (sources AND OCXL_ERRORS \<noteq> 0),
     tracing := (sources AND OCXL_TRACING \<noteq> 0)\<rparr>\<rparr>)"

definition ocxl_set_error_message_handler :: "handler \<Rightarrow> ('w, unit) prog" where
  "ocxl_set_error_message_handler h = modify (\<lambda>s. s\<lparr>glb := (glb s)\<lparr>error_handler := h\<rparr>\<rparr>)"

fun ocxl_err_to_string :: "ocxl_err \<Rightarrow> string" where
  "ocxl_err_to_string OCXL_OK = ''OK''"
| "ocxl_err_to_string OCXL_NO_MEM = ''No memory''"
| "ocxl_err_to_string OCXL_NO_CONTEXT = ''AFU context not available''"
| "ocxl_err_to_string OCXL_NO_IRQ = ''AFU interrupt not available''"
| "ocxl_err_to_string OCXL_INTERNAL_ERROR = ''Internal error''"
| "ocxl_err_to_string OCXL_ALREADY_DONE = ''Already done''"
| "ocxl_err_to_string OCXL_OUT_OF_BOUNDS = ''Out of bounds''"
| "ocxl_err_to_string OCXL_NO_MORE_CONTEXTS = ''No more contexts''"
| "ocxl_err_to_string OCXL_INVALID_ARGS = ''Invalid arguments''"
| "ocxl_err_to_string _ = ''Unknown error''"

definition ocxl_info :: "'w platform \<Rightarrow> string" where
  "ocxl_info K = libocxl_info K"

lemma and_mask_bit_0: "(x AND 1 \<noteq> 0) = bit x 0" for x :: u64
  by (simp add: and_one_eq bit_0 odd_iff_mod_2_eq_one)

lemma and_mask_bit_1: "(x AND 2 \<noteq> 0) = bit x 1" for x :: u64
proof -
  have "(2::u64) = push_bit 1 1" by simp
  then show ?thesis
    by (metis and_exp_eq_0_iff_not_bit push_bit_of_1)
qed

section \<open>Properties\<close>

text \<open>Every error value has a text of its own, and the one that gets the text for values
  that are not known is \<open>OCXL_NO_DEV\<close>, an error the library does return.\<close>

lemma err_to_string_injective:
  "(ocxl_err_to_string e = ocxl_err_to_string e') = (e = e') \<and>
   (ocxl_err_to_string e = ''Unknown error'') = (e = OCXL_NO_DEV) \<and>
   (err_code e = err_code e') = (e = e') \<and> err_code e \<le> 0"
  by (cases e; cases e') simp_all

text \<open>Enabling messages sets the two switches of the open calls from bits 0 and 1 of the
  argument, whatever the other 62 bits are, and switches off what is not asked for.\<close>

lemma enable_messages_bits:
  "wp (ocxl_enable_messages sources) (\<lambda>_ s'. s' = s\<lparr>glb := (glb s)\<lparr>
     verbose_errors := bit sources 0, tracing := bit sources 1\<rparr>\<rparr>) s"
  by (simp add: ocxl_enable_messages_def OCXL_ERRORS_def OCXL_TRACING_def wp_simps
      and_mask_bit_0 and_mask_bit_1)

end
