(* ===== verification/Ocxl_CString.thy ===== *)
theory Ocxl_CString
  imports Ocxl_Prelude
begin

text \<open>
  The parts of the C string library the sources use: \<open>strchr\<close>, \<open>strcmp\<close>,
  \<open>strcasecmp\<close>, the \<open>printf\<close> conversions that occur in the messages, and the
  \<open>sscanf\<close> conversions \<open>%x\<close> and \<open>%hhu\<close>. A C string is the list of its
  characters without the terminating NUL.
\<close>

section \<open>Searching and comparing\<close>

fun strchr :: "string \<Rightarrow> char \<Rightarrow> nat option" where
  "strchr [] c = None"
| "strchr (x # xs) c = (if x = c then Some 0 else map_option Suc (strchr xs c))"

definition c_tolower :: "char \<Rightarrow> char" where
  "c_tolower c = (if 65 \<le> (of_char c :: nat) \<and> (of_char c :: nat) \<le> 90
                  then char_of (of_char c + 32 :: nat) else c)"

definition strcasecmp_eq :: "string \<Rightarrow> string \<Rightarrow> bool" where
  "strcasecmp_eq a b \<longleftrightarrow> map c_tolower a = map c_tolower b"

lemma strchr_Some: "strchr xs c = Some n \<Longrightarrow> n < length xs \<and> xs ! n = c \<and> c \<notin> set (take n xs)"
  by (induction xs arbitrary: n) (auto split: if_splits)

lemma strchr_append: "c \<notin> set xs \<Longrightarrow> strchr (xs @ c # ys) c = Some (length xs)"
  by (induction xs) auto

section \<open>Numbers as text\<close>

definition digit_char :: "nat \<Rightarrow> char" where
  "digit_char d = char_of (if d < 10 then 48 + d else 87 + d)"

definition digit_val :: "char \<Rightarrow> nat option" where
  "digit_val c = (let n = of_char c :: nat in
     if 48 \<le> n \<and> n \<le> 57 then Some (n - 48)
     else if 97 \<le> n \<and> n \<le> 102 then Some (n - 87)
     else if 65 \<le> n \<and> n \<le> 70 then Some (n - 55)
     else None)"

function digits_of :: "nat \<Rightarrow> nat \<Rightarrow> string" where
  "digits_of b n = (if b < 2 \<or> n < b then [digit_char n]
                    else digits_of b (n div b) @ [digit_char (n mod b)])"
  by pat_completeness auto
termination
  by (relation "measure snd") auto

declare digits_of.simps [simp del]

definition is_digit :: "nat \<Rightarrow> char \<Rightarrow> bool" where
  "is_digit b c = (case digit_val c of None \<Rightarrow> False | Some d \<Rightarrow> d < b)"

definition value_of :: "nat \<Rightarrow> string \<Rightarrow> nat" where
  "value_of b ds = foldl (\<lambda>n c. n * b + the (digit_val c)) 0 ds"

section \<open>sscanf\<close>

datatype scan_item = ScanHex nat | ScanDec nat | ScanLit char
  \<comment> \<open>\<open>%x\<close> and \<open>%hhu\<close> with the width in bits of the target, a literal character\<close>

definition c_isspace :: "char \<Rightarrow> bool" where
  "c_isspace c = (let n = of_char c :: nat in n = 32 \<or> (9 \<le> n \<and> n \<le> 13))"

definition ULONG_MAX :: nat where "ULONG_MAX = 18446744073709551615"

definition scan_unsigned :: "nat \<Rightarrow> nat \<Rightarrow> string \<Rightarrow> (nat \<times> string) option" where
  "scan_unsigned b bits s =
     (let s1 = dropWhile c_isspace s;
          neg = (s1 \<noteq> [] \<and> hd s1 = CHR ''-'');
          s2 = (if s1 \<noteq> [] \<and> (hd s1 = CHR ''-'' \<or> hd s1 = CHR ''+'') then tl s1 else s1);
          s3 = (if b = 16 \<and> 2 \<le> length s2 \<and> s2 ! 0 = CHR ''0'' \<and>
                   (s2 ! 1 = CHR ''x'' \<or> s2 ! 1 = CHR ''X'') then drop 2 s2 else s2);
          ds = takeWhile (is_digit b) s3
      in if ds = [] then None
         else let n = min (value_of b ds) ULONG_MAX;
                  m = (if neg then (Suc ULONG_MAX - n) mod Suc ULONG_MAX else n)
              in Some (m mod 2 ^ bits, dropWhile (is_digit b) s3))"

fun scan_items :: "scan_item list \<Rightarrow> string \<Rightarrow> nat list" where
  "scan_items [] s = []"
| "scan_items (ScanLit c # is) s = (if s \<noteq> [] \<and> hd s = c then scan_items is (tl s) else [])"
| "scan_items (ScanHex k # is) s =
     (case scan_unsigned 16 k s of None \<Rightarrow> [] | Some (v, r) \<Rightarrow> v # scan_items is r)"
| "scan_items (ScanDec k # is) s =
     (case scan_unsigned 10 k s of None \<Rightarrow> [] | Some (v, r) \<Rightarrow> v # scan_items is r)"

text \<open>The number of conversions, or -1 at the end of the input before the first one.\<close>

definition sscanf_count :: "scan_item list \<Rightarrow> string \<Rightarrow> int" where
  "sscanf_count is s = (if scan_items is s = [] \<and> dropWhile c_isspace s = [] then - 1
                        else int (length (scan_items is s)))"

lemma takeWhile_append_stop:
  "\<forall>c \<in> set xs. P c \<Longrightarrow> ys = [] \<or> \<not> P (hd ys) \<Longrightarrow> takeWhile P (xs @ ys) = xs"
  by (cases ys) (auto simp: takeWhile_append2)

lemma dropWhile_append_stop:
  "\<forall>c \<in> set xs. P c \<Longrightarrow> ys = [] \<or> \<not> P (hd ys) \<Longrightarrow> dropWhile P (xs @ ys) = ys"
  by (cases ys) (auto simp: dropWhile_append2)

lemma is_digit_plain:
  assumes "is_digit b c" "b \<le> 16"
  shows "\<not> c_isspace c" "c \<noteq> CHR ''-''" "c \<noteq> CHR ''+''" "c \<noteq> CHR ''x''" "c \<noteq> CHR ''X''"
  using assms by (auto simp: is_digit_def digit_val_def c_isspace_def Let_def split: if_splits)

text \<open>Scanning a number gives its value and stops behind it.\<close>

lemma scan_unsigned_plain:
  assumes d: "is_digit b d" "b \<le> 16"
    and px: "s = [] \<or> hd s \<noteq> CHR ''x'' \<and> hd s \<noteq> CHR ''X''"
  shows "scan_unsigned b k (d # s) =
    Some (min (value_of b (takeWhile (is_digit b) (d # s))) ULONG_MAX mod 2 ^ k,
          dropWhile (is_digit b) (d # s))"
  using px by (cases s) (simp_all add: scan_unsigned_def is_digit_plain [OF d] d(1))

text \<open>A number as the scanner takes it: digits, any number of leading zeros.\<close>

definition all_digits :: "nat \<Rightarrow> string \<Rightarrow> bool" where
  "all_digits b ds \<longleftrightarrow> ds \<noteq> [] \<and> list_all (is_digit b) ds"

lemma scan_unsigned_digits:
  assumes b: "b \<le> 16" and ds: "all_digits b ds"
    and stop: "ys = [] \<or> \<not> is_digit b (hd ys) \<and> hd ys \<noteq> CHR ''x'' \<and> hd ys \<noteq> CHR ''X''"
  shows "scan_unsigned b k (ds @ ys) = Some (min (value_of b ds) ULONG_MAX mod 2 ^ k, ys)"
proof -
  have all: "\<forall>c \<in> set ds. is_digit b c" using ds by (simp add: all_digits_def list_all_iff)
  obtain d ds' where d: "ds = d # ds'" using ds by (cases ds) (auto simp: all_digits_def)
  have stop': "ys = [] \<or> \<not> is_digit b (hd ys)" using stop by blast
  have px: "ds' @ ys = [] \<or> hd (ds' @ ys) \<noteq> CHR ''x'' \<and> hd (ds' @ ys) \<noteq> CHR ''X''"
    using stop all d is_digit_plain(4,5) [OF _ b] by (cases ds') auto
  from all d have "is_digit b d" by simp
  from scan_unsigned_plain [OF this b px, of k] show ?thesis
    unfolding append_Cons [symmetric] d [symmetric]
    by (simp only: takeWhile_append_stop [OF all stop'] dropWhile_append_stop [OF all stop'])
qed

section \<open>printf\<close>

datatype farg =
    FInt int
  | FStr string
  | FPtr u64
  | FReal string \<comment> \<open>a floating point number, by its text in the precision of the conversion\<close>

datatype ftok = Lit char | Conv string char | BadConv

text \<open>The format is cut into literal characters and conversions; the text between \<open>%\<close>
  and the conversion letter holds flags, width, precision and length modifiers.\<close>

fun lex_fmt :: "string \<Rightarrow> string option \<Rightarrow> ftok list" where
  "lex_fmt [] None = []"
| "lex_fmt [] (Some acc) = [BadConv]"
| "lex_fmt (c # cs) None = (if c = CHR ''%'' then lex_fmt cs (Some []) else Lit c # lex_fmt cs None)"
| "lex_fmt (c # cs) (Some acc) =
     (if c \<in> set ''diuxspcf%'' then Conv (rev acc) c # lex_fmt cs None
      else lex_fmt cs (Some (c # acc)))"

definition pad_text :: "bool \<Rightarrow> bool \<Rightarrow> nat \<Rightarrow> string \<Rightarrow> string" where
  "pad_text left zero w t =
     (let n = w - length t in
      if left then t @ replicate n CHR '' ''
      else if zero then replicate n CHR ''0'' @ t
      else replicate n CHR '' '' @ t)"

definition signed_text :: "int \<Rightarrow> string" where
  "signed_text i = (if i < 0 then CHR ''-'' # digits_of 10 (nat (- i)) else digits_of 10 (nat i))"

definition conv_text :: "string \<Rightarrow> nat option \<Rightarrow> char \<Rightarrow> farg \<Rightarrow> string option" where
  "conv_text flags prec c a =
     (case a of
        FInt i \<Rightarrow>
          if c = CHR ''d'' \<or> c = CHR ''i'' then Some (signed_text i)
          else if c = CHR ''u'' then Some (digits_of 10 (nat i))
          else if c = CHR ''x'' then
            Some ((if CHR ''#'' \<in> set flags \<and> i \<noteq> 0 then ''0x'' else []) @ digits_of 16 (nat i))
          else None
      | FStr t \<Rightarrow>
          if c = CHR ''s'' then Some (case prec of None \<Rightarrow> t | Some p \<Rightarrow> take p t) else None
      | FReal t \<Rightarrow> if c = CHR ''f'' then Some t else None
      | FPtr p \<Rightarrow>
          if c = CHR ''p'' then Some (if p = 0 then ''(nil)'' else ''0x'' @ digits_of 16 (unat p))
          else None)"

text \<open>A number of the width or precision: digits, or \<open>*\<close> for the next argument.\<close>

definition take_number :: "string \<Rightarrow> farg list \<Rightarrow> (nat option \<times> string \<times> farg list) option" where
  "take_number s as =
     (if s \<noteq> [] \<and> hd s = CHR ''*'' then
        (case as of FInt i # as' \<Rightarrow> Some (Some (nat i), tl s, as') | _ \<Rightarrow> None)
      else (let ds = takeWhile (is_digit 10) s
            in Some (if ds = [] then None else Some (value_of 10 ds),
                     dropWhile (is_digit 10) s, as)))"

fun render :: "ftok list \<Rightarrow> farg list \<Rightarrow> string option" where
  "render [] as = Some []"
| "render (BadConv # ts) as = None"
| "render (Lit c # ts) as = map_option ((#) c) (render ts as)"
| "render (Conv mods c # ts) as =
     (if c = CHR ''%'' then map_option ((#) c) (render ts as)
      else let flags = takeWhile (\<lambda>x. x \<in> set ''-#0'') mods;
               m1 = dropWhile (\<lambda>x. x \<in> set ''-#0'') mods
           in case take_number m1 as of
                None \<Rightarrow> None
              | Some (width, m2, as1) \<Rightarrow>
                  (case (if m2 \<noteq> [] \<and> hd m2 = CHR ''.''
                         then map_option (\<lambda>(p, m, r). (Some (case p of None \<Rightarrow> 0 | Some n \<Rightarrow> n), m, r))
                                (take_number (tl m2) as1)
                         else Some (None, m2, as1)) of
                     None \<Rightarrow> None
                   | Some (prec, m3, as2) \<Rightarrow>
                       (case as2 of
                          [] \<Rightarrow> None
                        | a # as3 \<Rightarrow>
                            (case conv_text flags prec c a of
                               None \<Rightarrow> None
                             | Some t \<Rightarrow>
                                 map_option ((@) (pad_text (CHR ''-'' \<in> set flags) (CHR ''0'' \<in> set flags)
                                                     (case width of None \<Rightarrow> 0 | Some n \<Rightarrow> n) t))
                                   (render ts as3)))))"

text \<open>The formatted text, or \<open>None\<close> when the arguments do not match the format, which is
  undefined behaviour in C.\<close>

definition c_format :: "string \<Rightarrow> farg list \<Rightarrow> string option" where
  "c_format fmt as = render (lex_fmt fmt None) as"

end
