(* ===== verification/Ocxl_Ledger.thy ===== *)
theory Ocxl_Ledger
  imports Ocxl_Platform
begin

text \<open>
  Accounting over the call record: which mappings, descriptors, heap blocks and kernel
  interrupts the calls made so far have acquired and released. The balance of a resource is
  the number of acquisitions minus the number of releases; 1 means held, 0 free, and a
  negative value that something was released that was not held.
\<close>

datatype resource =
    RMap u64 u64   \<comment> \<open>a mapping: address and length\<close>
  | RFd int
  | RMem block
  | RIrq int u64   \<comment> \<open>an interrupt of the kernel: device descriptor and offset\<close>

fun acquires :: "call \<Rightarrow> resource option" where
  "acquires (CMalloc n b) = map_option RMem b"
| "acquires (CRealloc old n b) = map_option RMem b"
| "acquires (COpen p f d) = (if 0 \<le> d then Some (RFd d) else None)"
| "acquires (CEventfd d) = (if 0 \<le> d then Some (RFd d) else None)"
| "acquires (CEpollCreate d) = (if 0 \<le> d then Some (RFd d) else None)"
| "acquires (CMmap len prot d off a) = (if a \<noteq> MAP_FAILED then Some (RMap a len) else None)"
| "acquires (CIrqAlloc d rc off) = (if rc = 0 then map_option (RIrq d) off else None)"
| "acquires c = None"

fun releases :: "call \<Rightarrow> resource option" where
  "releases (CRealloc old n b) = (if b = None then None else map_option RMem old)"
| "releases (CFree b) = map_option RMem b"
| "releases (CClose d) = Some (RFd d)"
| "releases (CMunmap a len) = Some (RMap a len)"
| "releases (CIrqFree d off rc) = Some (RIrq d off)"
| "releases c = None"

definition effect :: "call \<Rightarrow> resource \<Rightarrow> int" where
  "effect c r = of_bool (acquires c = Some r) - of_bool (releases c = Some r)"

definition balance :: "call list \<Rightarrow> resource \<Rightarrow> int" where
  "balance cs r = sum_list (map (\<lambda>c. effect c r) cs)"

lemma balance_Nil [simp]: "balance [] r = 0"
  by (simp add: balance_def)

lemma balance_Cons [simp]: "balance (c # cs) r = effect c r + balance cs r"
  by (simp add: balance_def)

lemma balance_append [simp]: "balance (cs @ ds) r = balance cs r + balance ds r"
  by (simp add: balance_def)

text \<open>Calls that touch no resource of a kind do not change its balance.\<close>

lemma balance_neutral:
  assumes "\<And>c. c \<in> set cs \<Longrightarrow> effect c r = 0"
  shows "balance cs r = 0"
  using assms by (induction cs) simp_all

lemma effect_realloc_map [simp]: "effect (CRealloc b n nb) (RMap a len) = 0"
  by (cases b; cases nb) (simp_all add: effect_def)

end
