(* ===== verification/Ocxl_Demo.thy ===== *)
theory Ocxl_Demo
  imports Ocxl_Types
begin

text \<open>
  A concrete platform, on which the hypotheses of the properties are shown to be satisfiable.
  Its world hands out blocks, descriptors and addresses in sequence, keeps a byte memory, and
  answers the remaining calls from scripted lists. \<open>realloc\<close> always moves the block.
\<close>

record demo_w =
  dw_block :: nat
  dw_fd :: int
  dw_addr :: u64
  dw_mem :: "u64 \<Rightarrow> u8"
  dw_no_memory :: bool
  dw_open_fails :: "string list"
  dw_devices :: "string list"
  dw_ready :: "epoll_ptr list"
  dw_reads :: "(int \<times> u8 list) list"
  dw_errno :: int
  dw_env :: "(string \<times> string) list"

definition demo_alloc :: "demo_w \<Rightarrow> block option \<times> demo_w" where
  "demo_alloc w = (if dw_no_memory w then (None, w)
     else (Some (dw_block w), w\<lparr>dw_block := dw_block w + 1\<rparr>))"

definition demo_new_fd :: "demo_w \<Rightarrow> int \<times> demo_w" where
  "demo_new_fd w = (dw_fd w, w\<lparr>dw_fd := dw_fd w + 1\<rparr>)"

text \<open>The next address is kept below \<open>2 ^ 56\<close> and above the null page.\<close>

definition demo_map_addr :: "demo_w \<Rightarrow> u64 \<times> demo_w" where
  "demo_map_addr w = ((dw_addr w AND 0x00FFFFFFFFFFFFFF) OR 0x10000,
     w\<lparr>dw_addr := dw_addr w + 0x100000\<rparr>)"

definition demo_load :: "u64 \<Rightarrow> nat \<Rightarrow> demo_w \<Rightarrow> u8 list \<times> demo_w" where
  "demo_load a n w = (map (\<lambda>i. dw_mem w (a + of_nat i)) [0..<n], w)"

definition demo_store :: "u64 \<Rightarrow> u8 list \<Rightarrow> demo_w \<Rightarrow> demo_w" where
  "demo_store a bs w = w\<lparr>dw_mem := (\<lambda>x.
     if unat (x - a) < length bs then bs ! unat (x - a) else dw_mem w x)\<rparr>"

definition demo_read :: "demo_w \<Rightarrow> (int \<times> u8 list) \<times> demo_w" where
  "demo_read w = (case dw_reads w of [] \<Rightarrow> ((-1, []), w) | r # rs \<Rightarrow> (r, w\<lparr>dw_reads := rs\<rparr>))"

definition demo :: "demo_w platform" where
  "demo = \<lparr>
     arch_ppc64 = False, host_little_endian = True, libocxl_info = ''libocxl'',
     sizeof_event_header = 8, sizeof_xsl_fault_error = 24, sizeof_ocxl_irq = 64,
     sizeof_ocxl_afu = 288, sizeof_epoll_event = 12,
     AFU_EVENT_XSL_FAULT_ERROR = 0, EVENT_FLAG_LAST = 1, FEATURES_FLAGS0_P9_WAIT = 1,
     header_type = (\<lambda>bs. ucast (bs ! 0)), header_flags = (\<lambda>bs. ucast (bs ! 2)),
     xsl_addr = (\<lambda>bs. ucast (bs ! 0)), xsl_dsisr = (\<lambda>bs. ucast (bs ! 8)),
     xsl_count = (\<lambda>bs. ucast (bs ! 16)),
     os_errno = dw_errno, os_strerror = (\<lambda>e. ''error''),
     os_getenv = (\<lambda>v w. map_of (dw_env w) v), os_sysconf_pagesize = (\<lambda>w. 65536),
     os_malloc = (\<lambda>n. demo_alloc), os_realloc = (\<lambda>b n. demo_alloc), os_free = (\<lambda>b w. w),
     os_glob = (\<lambda>p w. ((if dw_devices w = [] then GLOB_NOMATCH else 0,
        map (\<lambda>d. ''/dev/ocxl/'' @ d) (dw_devices w)), w)),
     os_opendir = (\<lambda>p w. (Some (dw_devices w), w)),
     os_fstatat = (\<lambda>d f w. ((0, True, of_nat (length f)), w)),
     os_stat = (\<lambda>p w. ((0, of_nat (length p) - 10), w)),
     os_open = (\<lambda>p f w. if p \<in> set (dw_open_fails w) then (-1, w) else demo_new_fd w),
     os_close = (\<lambda>d w. w), os_read = (\<lambda>d n. demo_read),
     os_read_eventfd = (\<lambda>d w. ((8, 1), w)), os_eventfd = demo_new_fd,
     os_mmap = (\<lambda>len prot d off. demo_map_addr), os_munmap = (\<lambda>a len w. (0, w)),
     os_epoll_create = demo_new_fd, os_epoll_add = (\<lambda>ep d p w. (0, w)),
     os_epoll_wait = (\<lambda>ep n t w. ((int (length (take (unat n) (dw_ready w))),
        take (unat n) (dw_ready w)), w\<lparr>dw_ready := drop (unat n) (dw_ready w)\<rparr>)),
     os_ioctl_get_metadata = (\<lambda>d w. ((0, \<lparr>md_version_major = 1, md_version_minor = 2,
        md_pp_mmio_size = 4096, md_global_mmio_size = 8192, md_pasid = 7\<rparr>), w)),
     os_ioctl_attach = (\<lambda>d amr w. (0, w)),
     os_ioctl_irq_alloc = (\<lambda>d w. ((0, Some (dw_addr w + 4096)), w)),
     os_ioctl_irq_set_fd = (\<lambda>d off e r w. (0, w)),
     os_ioctl_irq_free = (\<lambda>d off w. (0, w)),
     os_ioctl_get_features = (\<lambda>d w. ((0, 1), w)),
     os_ioctl_enable_p9_wait = (\<lambda>d w. ((0, 42), w)),
     os_load = demo_load, os_store = demo_store\<rparr>"

lemma demo_fields [simp]:
  "arch_ppc64 demo = False" "host_little_endian demo = True" "libocxl_info demo = ''libocxl''"
  "sizeof_event_header demo = 8" "sizeof_xsl_fault_error demo = 24" "sizeof_ocxl_irq demo = 64"
  "sizeof_ocxl_afu demo = 288" "sizeof_epoll_event demo = 12"
  "AFU_EVENT_XSL_FAULT_ERROR demo = 0" "EVENT_FLAG_LAST demo = 1" "FEATURES_FLAGS0_P9_WAIT demo = 1"
  "header_type demo = (\<lambda>bs. ucast (bs ! 0))" "header_flags demo = (\<lambda>bs. ucast (bs ! 2))"
  "xsl_addr demo = (\<lambda>bs. ucast (bs ! 0))" "xsl_dsisr demo = (\<lambda>bs. ucast (bs ! 8))"
  "xsl_count demo = (\<lambda>bs. ucast (bs ! 16))"
  "os_errno demo = dw_errno" "os_strerror demo = (\<lambda>e. ''error'')"
  "os_getenv demo = (\<lambda>v w. map_of (dw_env w) v)" "os_sysconf_pagesize demo = (\<lambda>w. 65536)"
  "os_malloc demo = (\<lambda>n. demo_alloc)" "os_realloc demo = (\<lambda>b n. demo_alloc)"
  "os_free demo = (\<lambda>b w. w)" "os_opendir demo = (\<lambda>p w. (Some (dw_devices w), w))"
  "os_glob demo = (\<lambda>p w. ((if dw_devices w = [] then GLOB_NOMATCH else 0,
     map (\<lambda>d. ''/dev/ocxl/'' @ d) (dw_devices w)), w))"
  "os_fstatat demo = (\<lambda>d f w. ((0, True, of_nat (length f)), w))"
  "os_stat demo = (\<lambda>p w. ((0, of_nat (length p) - 10), w))"
  "os_open demo = (\<lambda>p f w. if p \<in> set (dw_open_fails w) then (-1, w) else demo_new_fd w)"
  "os_close demo = (\<lambda>d w. w)" "os_read demo = (\<lambda>d n. demo_read)"
  "os_read_eventfd demo = (\<lambda>d w. ((8, 1), w))" "os_eventfd demo = demo_new_fd"
  "os_mmap demo = (\<lambda>len prot d off. demo_map_addr)" "os_munmap demo = (\<lambda>a len w. (0, w))"
  "os_epoll_create demo = demo_new_fd" "os_epoll_add demo = (\<lambda>ep d p w. (0, w))"
  "os_epoll_wait demo = (\<lambda>ep n t w. ((int (length (take (unat n) (dw_ready w))),
     take (unat n) (dw_ready w)), w\<lparr>dw_ready := drop (unat n) (dw_ready w)\<rparr>))"
  "os_ioctl_get_metadata demo = (\<lambda>d w. ((0, \<lparr>md_version_major = 1, md_version_minor = 2,
     md_pp_mmio_size = 4096, md_global_mmio_size = 8192, md_pasid = 7\<rparr>), w))"
  "os_ioctl_attach demo = (\<lambda>d amr w. (0, w))"
  "os_ioctl_irq_alloc demo = (\<lambda>d w. ((0, Some (dw_addr w + 4096)), w))"
  "os_ioctl_irq_set_fd demo = (\<lambda>d off e r w. (0, w))"
  "os_ioctl_irq_free demo = (\<lambda>d off w. (0, w))"
  "os_ioctl_get_features demo = (\<lambda>d w. ((0, 1), w))"
  "os_ioctl_enable_p9_wait demo = (\<lambda>d w. ((0, 42), w))"
  "os_load demo = demo_load" "os_store demo = demo_store"
  by (simp_all add: demo_def)

definition demo_world :: demo_w where
  "demo_world = \<lparr>dw_block = 100, dw_fd = 10, dw_addr = 0x200000, dw_mem = (\<lambda>_. 0),
     dw_no_memory = False, dw_open_fails = [], dw_devices = [], dw_ready = [], dw_reads = [],
     dw_errno = 0, dw_env = []\<rparr>"

definition demo_area :: ocxl_mmio_area where
  "demo_area = \<lparr>mm_start = 0, mm_length = 4096, mm_type = OCXL_PER_PASID_MMIO, mm_afu = None\<rparr>"

text \<open>An AFU that has been opened and attached, with no region and no interrupt yet.\<close>

definition demo_afu :: ocxl_afu where
  "demo_afu = \<lparr>afu_block = 1, afu_identifier = \<lparr>afu_index = 0, afu_name = ''AFU''\<rparr>,
     device_path = Some (2, ''/dev/ocxl/AFU.0001:00:00.1.0''),
     sysfs_path = Some (3, ''/sys/class/ocxl/AFU.0001:00:00.1.0''),
     version_major = 1, version_minor = 0, afu_fd = 5,
     afu_fd_info = \<lparr>src_type = EPOLL_SOURCE_OCXL, src_irq = None\<rparr>,
     epoll_fd = 7, epoll_events = None, epoll_event_count = 0, global_mmio_fd = 6,
     global_mmio = demo_area\<lparr>mm_type := OCXL_GLOBAL_MMIO, mm_length := 8192\<rparr>,
     per_pasid_mmio = demo_area,
     page_size = 65536, irqs = NullBuf, irq_count = 0, irq_max_count = 0,
     mmios = NullBuf, mmio_count = 0, mmio_max_count = 0, pasid = 7,
     afu_verbose_errors = False, afu_error_handler = DefaultHandler, afu_tracing = False,
     attached = True, ppc64_amr = 0\<rparr>"

definition demo_globals :: globals where
  "demo_globals = \<lparr>sys_path = None, dev_path = None, libocxl_inited = False,
     verbose_errors = False, verbose_errors_all = False, tracing = False, tracing_all = False,
     error_handler = DefaultHandler\<rparr>"

definition demo_state :: "demo_w st" where
  "demo_state = \<lparr>glb = demo_globals, outs = [], calls = [], ub = [], fmt_ub = [],
     wld = demo_world, cur_afu = demo_afu\<rparr>"

text \<open>The same with one live region, element 0 of block 50.\<close>

definition demo_region :: ocxl_mmio_area where
  "demo_region = \<lparr>mm_start = 0x300000, mm_length = 4096, mm_type = OCXL_PER_PASID_MMIO,
     mm_afu = Some 1\<rparr>"

definition demo_mapped :: "demo_w st" where
  "demo_mapped = demo_state\<lparr>cur_afu := demo_afu\<lparr>
     mmios := Buf 50 [Obj demo_region, Indet, Indet, Indet], mmio_count := 1,
     mmio_max_count := 4\<rparr>\<rparr>"

lemma demo_load_store:
  assumes "length bs = n" "n < 2 ^ 64"
  shows "fst (demo_load a n (demo_store a bs w)) = bs"
proof (rule nth_equalityI)
  show "length (fst (demo_load a n (demo_store a bs w))) = length bs"
    using assms by (simp add: demo_load_def)
  fix i assume "i < length (fst (demo_load a n (demo_store a bs w)))"
  then have i: "i < n" by (simp add: demo_load_def)
  then have "unat (of_nat i :: u64) = i" using assms(2) by (simp add: unat_of_nat)
  then show "fst (demo_load a n (demo_store a bs w)) ! i = bs ! i"
    using i assms(1) by (simp add: demo_load_def demo_store_def)
qed

end
