(* ===== verification/Ocxl_Internal.thy ===== *)
theory Ocxl_Internal
  imports Ocxl_Setup Ocxl_CString Ocxl_Ledger Ocxl_Demo
begin

text \<open>
  \<open>src/src/internal.c\<close>: one-time initialisation from the environment, trace and error
  messages, the default error handlers, and \<open>grow_buffer\<close>, through which the IRQ and
  MMIO arrays grow.

  \<open>errmsg\<close> takes the AFU it reports for as an origin: the AFU of the state, or none.
  The mutexes of the file protect one statement sequence each; the model runs every
  function in one piece, which \<open>Ocxl_Threads\<close> justifies for any number of threads.
\<close>

section \<open>Initialisation\<close>

definition env_yes :: "string option \<Rightarrow> bool" where
  "env_yes v = (case v of None \<Rightarrow> False | Some x \<Rightarrow> strcasecmp_eq x ''yes'' \<or> x = ''1'')"

definition libocxl_init :: "'w platform \<Rightarrow> ('w, unit) prog" where
  "libocxl_init K = do {
     inited \<leftarrow> gets (\<lambda>s. libocxl_inited (glb s));
     if inited then skip
     else do {
       val \<leftarrow> gets (\<lambda>s. os_getenv K ''LIBOCXL_INFO'' (wld s));
       whenM (env_yes val)
         (modify (\<lambda>s. s\<lparr>outs := outs s @ [Stderr (libocxl_info K @ [CHR 0x0A])]\<rparr>));
       val \<leftarrow> gets (\<lambda>s. os_getenv K ''LIBOCXL_TRACE_ALL'' (wld s));
       whenM (env_yes val)
         (modify (\<lambda>s. s\<lparr>glb := (glb s)\<lparr>tracing_all := True, tracing := True\<rparr>\<rparr>));
       val \<leftarrow> gets (\<lambda>s. os_getenv K ''LIBOCXL_VERBOSE_ERRORS_ALL'' (wld s));
       whenM (env_yes val)
         (modify (\<lambda>s. s\<lparr>glb := (glb s)\<lparr>verbose_errors_all := True, verbose_errors := True\<rparr>\<rparr>));
       val \<leftarrow> gets (\<lambda>s. os_getenv K ''LIBOCXL_SYSPATH'' (wld s));
       whenM (val \<noteq> None) (modify (\<lambda>s. s\<lparr>glb := (glb s)\<lparr>sys_path := val\<rparr>\<rparr>));
       modify (\<lambda>s. s\<lparr>glb := (glb s)\<lparr>libocxl_inited := True\<rparr>\<rparr>)
     }
   }"

definition SYS_PATH :: "globals \<Rightarrow> string" where
  "SYS_PATH g = (case sys_path g of None \<Rightarrow> ''/sys/class/ocxl'' | Some p \<Rightarrow> p)"

definition DEVICE_PATH :: "globals \<Rightarrow> string" where
  "DEVICE_PATH g = (case dev_path g of None \<Rightarrow> ''/dev/ocxl'' | Some p \<Rightarrow> p)"

section \<open>Messages\<close>

abbreviation squote :: string where "squote \<equiv> [CHR 0x27]"

datatype origin = NoAFU | ThisAFU

definition MAX_MESSAGE_LENGTH :: nat where "MAX_MESSAGE_LENGTH = 255"

definition trace_message ::
  "string \<Rightarrow> string \<Rightarrow> nat \<Rightarrow> string \<Rightarrow> string \<Rightarrow> farg list \<Rightarrow> 'w st \<Rightarrow> 'w st" where
  "trace_message label file line func fmt args s =
     (case c_format fmt args of
        None \<Rightarrow> s\<lparr>fmt_ub := fmt_ub s @ [fmt]\<rparr>
      | Some t \<Rightarrow> s\<lparr>outs := outs s @ [Stderr
          (label @ '': '' @ file @ '':'' @ digits_of 10 line @ [CHR 0x09] @ func @ ''():''
           @ [CHR 0x09, CHR 0x09] @ t @ [CHR 0x0A])]\<rparr>)"

definition TRACE ::
  "string \<Rightarrow> nat \<Rightarrow> string \<Rightarrow> string \<Rightarrow> farg list \<Rightarrow> ('w, unit) prog" where
  "TRACE file line func fmt args = modify (\<lambda>s.
     if afu_tracing (cur_afu s) then trace_message ''Trace'' file line func fmt args s else s)"

definition TRACE_OPEN ::
  "string \<Rightarrow> nat \<Rightarrow> string \<Rightarrow> string \<Rightarrow> farg list \<Rightarrow> ('w, unit) prog" where
  "TRACE_OPEN file line func fmt args = modify (\<lambda>s.
     if tracing (glb s) then trace_message ''Trace'' file line func fmt args s else s)"

definition ocxl_default_error_handler :: "ocxl_err \<Rightarrow> string \<Rightarrow> out_event" where
  "ocxl_default_error_handler err message =
     Stderr (''ERROR: '' @ ocxl_err_to_string err @ '': '' @ message @ [CHR 0x0A])"

definition ocxl_default_afu_error_handler :: "ocxl_afu \<Rightarrow> ocxl_err \<Rightarrow> string \<Rightarrow> out_event" where
  "ocxl_default_afu_error_handler a err message =
     Stderr (''ERROR: '' @ (case device_path a of None \<Rightarrow> ''No AFU'' | Some (_, p) \<Rightarrow> p)
       @ [CHR 0x09] @ ocxl_err_to_string err @ '': '' @ message @ [CHR 0x0A])"

definition errmsg_event :: "origin \<Rightarrow> ocxl_err \<Rightarrow> string \<Rightarrow> 'w st \<Rightarrow> out_event" where
  "errmsg_event org err buf s =
     (case org of
        ThisAFU \<Rightarrow> (case afu_error_handler (cur_afu s) of
            DefaultHandler \<Rightarrow> ocxl_default_afu_error_handler (cur_afu s) err buf
          | UserHandler h \<Rightarrow> Callback h (Some (afu_block (cur_afu s))) err buf)
      | NoAFU \<Rightarrow> (case error_handler (glb s) of
            DefaultHandler \<Rightarrow> ocxl_default_error_handler err buf
          | UserHandler h \<Rightarrow> Callback h None err buf))"

definition errmsg_on :: "origin \<Rightarrow> 'w st \<Rightarrow> bool" where
  "errmsg_on org s = (case org of ThisAFU \<Rightarrow> afu_verbose_errors (cur_afu s)
                                | NoAFU \<Rightarrow> verbose_errors (glb s))"

definition errmsg_state :: "origin \<Rightarrow> ocxl_err \<Rightarrow> string \<Rightarrow> farg list \<Rightarrow> 'w st \<Rightarrow> 'w st" where
  "errmsg_state org err fmt args s =
     (if errmsg_on org s then
        (case c_format fmt args of
           None \<Rightarrow> s\<lparr>fmt_ub := fmt_ub s @ [fmt]\<rparr>
         | Some t \<Rightarrow> s\<lparr>outs := outs s @
             [errmsg_event org err (take (MAX_MESSAGE_LENGTH - 1) t) s]\<rparr>)
      else s)"

definition errmsg :: "origin \<Rightarrow> ocxl_err \<Rightarrow> string \<Rightarrow> farg list \<Rightarrow> ('w, unit) prog" where
  "errmsg org err fmt args = modify (errmsg_state org err fmt args)"

text \<open>Messages touch only the output and, for a wrong format, the format record. The
  congruence rules keep the simplifier out of the message texts.\<close>

lemma errmsg_cong [cong]: "err = err' \<Longrightarrow> errmsg org err fmt args = errmsg org err' fmt args"
  by simp

lemma errmsg_state_cong [cong]:
  "err = err' \<Longrightarrow> s = s' \<Longrightarrow> errmsg_state org err fmt args s = errmsg_state org err' fmt args s'"
  by simp

lemma errmsg_state_frame [simp]:
  "glb (errmsg_state org err fmt args s) = glb s"
  "calls (errmsg_state org err fmt args s) = calls s"
  "wld (errmsg_state org err fmt args s) = wld s"
  "cur_afu (errmsg_state org err fmt args s) = cur_afu s"
  "ub (errmsg_state org err fmt args s) = ub s"
  by (simp_all add: errmsg_state_def split: option.splits)

lemma errmsg_state_fmt_ub:
  "c_format fmt args \<noteq> None \<Longrightarrow> fmt_ub (errmsg_state org err fmt args s) = fmt_ub s"
  by (auto simp: errmsg_state_def split: option.splits)

lemma wp_errmsg [wp_call]:
  "wp (errmsg org err fmt args) Q s = Q () (errmsg_state org err fmt args s)"
  by (simp add: errmsg_def wp_simps)

definition trace_state ::
  "bool \<Rightarrow> string \<Rightarrow> nat \<Rightarrow> string \<Rightarrow> string \<Rightarrow> farg list \<Rightarrow> 'w st \<Rightarrow> 'w st" where
  "trace_state b file line func fmt args s =
     (if b then trace_message ''Trace'' file line func fmt args s else s)"

lemma trace_state_frame [simp]:
  "glb (trace_state b file line func fmt args s) = glb s"
  "calls (trace_state b file line func fmt args s) = calls s"
  "wld (trace_state b file line func fmt args s) = wld s"
  "cur_afu (trace_state b file line func fmt args s) = cur_afu s"
  "ub (trace_state b file line func fmt args s) = ub s"
  by (simp_all add: trace_state_def trace_message_def split: option.splits)

lemma trace_state_cong [cong]:
  "b = b' \<Longrightarrow> s = s' \<Longrightarrow>
   trace_state b file line func fmt args s = trace_state b' file line func fmt args s'"
  by simp

lemma TRACE_cong [cong]: "TRACE file line func fmt args = TRACE file line func fmt args"
  by (rule refl)

lemma TRACE_OPEN_cong [cong]:
  "TRACE_OPEN file line func fmt args = TRACE_OPEN file line func fmt args"
  by (rule refl)

lemma wp_TRACE [wp_call]:
  "wp (TRACE file line func fmt args) Q s =
     Q () (trace_state (afu_tracing (cur_afu s)) file line func fmt args s)"
  by (simp add: TRACE_def trace_state_def wp_simps)

lemma wp_TRACE_OPEN [wp_call]:
  "wp (TRACE_OPEN file line func fmt args) Q s =
     Q () (trace_state (tracing (glb s)) file line func fmt args s)"
  by (simp add: TRACE_OPEN_def trace_state_def wp_simps)

section \<open>Growing an array\<close>

definition resize_cells :: "nat \<Rightarrow> 'a cell list \<Rightarrow> 'a cell list" where
  "resize_cells n cs = take n cs @ replicate (n - length cs) Indet"

definition memset_cells :: "nat \<Rightarrow> nat \<Rightarrow> nat \<Rightarrow> 'a cell list \<Rightarrow> 'a cell list" where
  "memset_cells sz first n cs =
     map (\<lambda>i. if i < first then cs ! i
              else if (i - first + 1) * sz \<le> n then Zeroed
              else if (i - first) * sz < n then Indet
              else cs ! i) [0..<length cs]"

fun buf_block :: "'a cbuf \<Rightarrow> block option" where
  "buf_block NullBuf = None"
| "buf_block (Buf b cs) = Some b"

fun buf_cells :: "'a cbuf \<Rightarrow> 'a cell list" where
  "buf_cells NullBuf = []"
| "buf_cells (Buf b cs) = cs"

fun buf_update :: "nat \<Rightarrow> 'a \<Rightarrow> 'a cbuf \<Rightarrow> 'a cbuf" where
  "buf_update i x NullBuf = NullBuf"
| "buf_update i x (Buf b cs) = Buf b (cs[i := Obj x])"

definition new_count_of :: "u16 \<Rightarrow> u64 \<Rightarrow> u64" where
  "new_count_of count initial_count = (if count > 0 then 2 * ucast count else initial_count)"

definition grow_buffer ::
  "'w platform \<Rightarrow> 'a cbuf \<Rightarrow> u16 \<Rightarrow> nat \<Rightarrow> u64 \<Rightarrow> ('w, ocxl_err \<times> 'a cbuf \<times> u16) prog" where
  "grow_buffer K buffer count sz initial_count = do {
     let new_count = new_count_of count initial_count;
     let bytes = unat (new_count * of_nat sz);
     temp \<leftarrow> do_realloc K (buf_block buffer) bytes;
     (case temp of
        None \<Rightarrow> do {
          e \<leftarrow> errno K;
          errmsg ThisAFU OCXL_NO_MEM
            (''Could not realloc buffer to %lu elements of %lu bytes (%lu bytes total): %d '%s'' @ squote)
            [FInt (uint new_count), FInt (int sz), FInt (int bytes), FInt e,
             FStr (os_strerror K e)];
          State_Monad.return (OCXL_NO_MEM, buffer, count)
        }
      | Some b \<Rightarrow>
          State_Monad.return (OCXL_OK,
            Buf b (memset_cells sz (unat count) (unat (new_count - ucast count))
                     (resize_cells (unat new_count) (buf_cells buffer))),
            ucast new_count))
   }"


text \<open>
  The invariant of an array with its two counters: the allocation holds exactly
  \<open>max_count\<close> elements, the first \<open>count\<close> of them have been written.
\<close>

definition table_ok :: "'a cbuf \<Rightarrow> u16 \<Rightarrow> u16 \<Rightarrow> bool" where
  "table_ok b count max_count \<longleftrightarrow>
     length (buf_cells b) = unat max_count \<and> count \<le> max_count \<and>
     (\<forall>i < unat count. \<exists>x. buf_cells b ! i = Obj x)"

definition grow_count :: "u16 \<Rightarrow> u64 \<Rightarrow> nat" where
  "grow_count count initial_count = (if count = 0 then unat initial_count else 2 * unat count)"

lemma length_memset_cells [simp]: "length (memset_cells sz first n cs) = length cs"
  by (simp add: memset_cells_def)

lemma length_resize_cells [simp]: "length (resize_cells n cs) = n"
  by (simp add: resize_cells_def)

lemma memset_cells_below:
  "i < first \<Longrightarrow> i < length cs \<Longrightarrow> memset_cells sz first n cs ! i = cs ! i"
  by (simp add: memset_cells_def)

lemma resize_cells_below:
  "i < length cs \<Longrightarrow> i < n \<Longrightarrow> resize_cells n cs ! i = cs ! i"
  by (simp add: resize_cells_def nth_append)

lemma unat_double_u16: "unat (2 * ucast (c :: u16) :: u64) = 2 * unat c"
proof -
  have "2 * unat c < 2 ^ 64" using unat_u16_less [of c] by simp
  then show ?thesis by (simp add: unat_word_ariths)
qed

lemma new_count_unat: "unat (new_count_of count initial_count) = grow_count count initial_count"
  by (simp add: grow_count_def new_count_of_def unat_double_u16 word_neq_0_conv)

lemma new_count_u16:
  "unat (ucast (new_count_of count initial_count) :: u16) = grow_count count initial_count mod 65536"
  by (simp add: unat_ucast_mod new_count_unat)

text \<open>The contract of \<open>grow_buffer\<close>: without memory nothing changes; with memory the
  array has the grown capacity, the old elements, and the block \<open>realloc\<close> returned.\<close>

definition grow_post ::
  "'w platform \<Rightarrow> 'a cbuf \<Rightarrow> u16 \<Rightarrow> nat \<Rightarrow> u64 \<Rightarrow> 'w st \<Rightarrow>
   ocxl_err \<times> 'a cbuf \<times> u16 \<Rightarrow> 'w st \<Rightarrow> bool" where
  "grow_post K b count sz initial s r s' \<longleftrightarrow>
     glb s' = glb s \<and> cur_afu s' = cur_afu s \<and> ub s' = ub s \<and>
     (case r of (rc, b', count') \<Rightarrow>
        (\<exists>nb. calls s' = calls s @ [CRealloc (buf_block b)
             (unat (new_count_of count initial * of_nat sz)) nb] \<and>
          (case nb of
             None \<Rightarrow> rc = OCXL_NO_MEM \<and> b' = b \<and> count' = count
           | Some k \<Rightarrow> rc = OCXL_OK \<and> buf_block b' = Some k \<and> outs s' = outs s \<and>
               length (buf_cells b') = grow_count count initial \<and>
               (\<forall>i < min (unat count) (length (buf_cells b)).
                  i < grow_count count initial \<longrightarrow> buf_cells b' ! i = buf_cells b ! i) \<and>
               unat count' = grow_count count initial mod 65536)))"

lemma grow_cells_below:
  "i < unat count \<Longrightarrow> i < length cs \<Longrightarrow> i < grow_count count initial \<Longrightarrow>
   memset_cells sz (unat count) k (resize_cells (grow_count count initial) cs) ! i = cs ! i"
  by (simp add: memset_cells_below resize_cells_below)

lemma grow_buffer_spec:
  "wp (grow_buffer K b count sz initial) (grow_post K b count sz initial s) s"
  by (auto simp: grow_buffer_def grow_post_def Let_def wp_simps wp_call new_count_unat new_count_u16
      grow_cells_below split: prod.splits option.splits)

section \<open>Lemmas on growing arrays\<close>

lemma buf_cells_update [simp]: "buf_cells (buf_update i x b) = (buf_cells b)[i := Obj x]"
  by (cases b) simp_all

lemma buf_block_update [simp]: "buf_block (buf_update i x b) = buf_block b"
  by (cases b) simp_all

lemma table_ok_cell:
  assumes "table_ok b c m" "i < unat c"
  shows "i < length (buf_cells b) \<and> (\<exists>x. buf_cells b ! i = Obj x)"
  using assms by (auto simp: table_ok_def word_le_nat_alt)

lemma table_ok_block:
  assumes "table_ok b c m" "i < unat m"
  shows "\<exists>k. buf_block b = Some k"
  using assms by (cases b) (auto simp: table_ok_def)

lemma table_ok_update:
  assumes "table_ok b c m" "i < unat c"
  shows "table_ok (buf_update i x b) c m"
  using assms table_ok_cell [OF assms] by (auto simp: table_ok_def nth_list_update)

lemma table_ok_space:
  assumes "table_ok b c m" "c \<noteq> m"
  shows "unat c < unat m" "unat c < length (buf_cells b)" "unat (c + 1) = Suc (unat c)"
proof -
  from assms show less: "unat c < unat m"
    by (metis table_ok_def order_le_imp_less_or_eq word_less_nat_alt)
  with assms(1) show "unat c < length (buf_cells b)" by (simp add: table_ok_def)
  from less show "unat (c + 1) = Suc (unat c)"
    using unat_u16_less [of m] by (intro unat_Suc_u16) simp
qed

lemma table_ok_push:
  assumes "table_ok b c m" "c \<noteq> m"
  shows "table_ok (buf_update (unat c) x b) (c + 1) m"
  using assms table_ok_space [OF assms]
  by (auto simp: table_ok_def nth_list_update word_le_nat_alt less_Suc_eq)

text \<open>A full array that \<open>grow_buffer\<close> has enlarged is still well formed and has room.\<close>

lemma table_ok_grow:
  assumes t: "table_ok b m m" and less: "unat m < 32768" and init: "0 < unat initial" "unat initial < 65536"
    and g: "grow_post K b m sz initial s (OCXL_OK, b', m') s'"
  shows "table_ok b' m m' \<and> m \<noteq> m' \<and> (\<forall>i < unat m. buf_cells b' ! i = buf_cells b ! i) \<and>
    (\<exists>k. buf_block b' = Some k)"
proof -
  have gc: "grow_count m initial < 65536" "unat m < grow_count m initial"
    using less init by (auto simp: grow_count_def unat_gt_0)
  from g obtain k where k: "buf_block b' = Some k" "length (buf_cells b') = grow_count m initial"
    "unat m' = grow_count m initial mod 65536"
    "\<forall>i < min (unat m) (length (buf_cells b)). i < grow_count m initial \<longrightarrow>
       buf_cells b' ! i = buf_cells b ! i"
    by (auto simp: grow_post_def split: option.splits)
  from t have "length (buf_cells b) = unat m" by (simp add: table_ok_def)
  with k(4) gc have keep: "\<forall>i < unat m. buf_cells b' ! i = buf_cells b ! i" by simp
  from k(3) gc have m': "unat m' = grow_count m initial" by simp
  with gc have "m \<noteq> m'" "m \<le> m'" by (auto simp: word_le_nat_alt)
  with k keep m' t show ?thesis by (auto simp: table_ok_def)
qed

text \<open>The heap block of an array, as a resource: growing exchanges the old block for the new.\<close>

definition block_owned :: "'a cbuf \<Rightarrow> resource \<Rightarrow> int" where
  "block_owned b r = of_bool (map_option RMem (buf_block b) = Some r)"

lemma block_owned_update [simp]: "block_owned (buf_update i x b) = block_owned b"
  by (simp add: block_owned_def fun_eq_iff)

lemma grow_balance:
  assumes "grow_post K b count sz initial s (rc, b', m') s'"
  shows "balance (calls s') r - block_owned b' r = balance (calls s) r - block_owned b r"
  using assms
  by (auto simp: grow_post_def block_owned_def effect_def split: option.splits)

text \<open>Where \<open>realloc\<close> succeeds and moves the block, the array has a new address.\<close>

lemma grow_buffer_moves:
  assumes "buf_block buf = Some b" "\<And>n w. fst (os_realloc K (Some b) n w) \<notin> {None, Some b}"
  shows "wp (grow_buffer K buf count sz initial)
    (\<lambda>(rc, buf', c) s'. rc = OCXL_OK \<and> buf_block buf' \<noteq> Some b) s"
proof -
  let ?n = "unat (new_count_of count initial * of_nat sz)"
  obtain r w where rw: "os_realloc K (Some b) ?n (wld s) = (r, w)" by fastforce
  with assms(2) [of ?n "wld s"] obtain nb where "r = Some nb" "nb \<noteq> b" by auto
  with rw show ?thesis by (simp add: grow_buffer_def wp_simps wp_call Let_def assms(1))
qed

section \<open>Properties\<close>

text \<open>Initialisation reads the environment once. The first call turns the information
  banner, tracing, verbose errors and the sysfs path on as the four variables say and leaves
  everything else alone; every later call changes nothing, even when the environment has
  changed.\<close>

lemma init_contract:
  "wp (do { libocxl_init K; modify (\<lambda>s. s\<lparr>wld := w\<rparr>); libocxl_init K }) (\<lambda>_ s'.
     s' = (if libocxl_inited (glb s) then s\<lparr>wld := w\<rparr> else
       (let yes = (\<lambda>v. env_yes (os_getenv K v (wld s))); path = os_getenv K ''LIBOCXL_SYSPATH'' (wld s) in
        s\<lparr>wld := w,
          outs := outs s @ (if yes ''LIBOCXL_INFO'' then [Stderr (libocxl_info K @ [CHR 0x0A])] else []),
          glb := (glb s)\<lparr>libocxl_inited := True,
            tracing := tracing (glb s) \<or> yes ''LIBOCXL_TRACE_ALL'',
            tracing_all := tracing_all (glb s) \<or> yes ''LIBOCXL_TRACE_ALL'',
            verbose_errors := verbose_errors (glb s) \<or> yes ''LIBOCXL_VERBOSE_ERRORS_ALL'',
            verbose_errors_all := verbose_errors_all (glb s) \<or> yes ''LIBOCXL_VERBOSE_ERRORS_ALL'',
            sys_path := (if path = None then sys_path (glb s) else path)\<rparr>\<rparr>))) s"
  by (auto simp: libocxl_init_def wp_simps Let_def)

text \<open>An error report, when reports are enabled for its origin, makes exactly one output:
  the handler installed for that origin gets the error value and the formatted text, cut to
  the 254 characters that fit the 255 byte buffer; when they are disabled, nothing happens.\<close>

lemma errmsg_contract:
  assumes "c_format fmt args = Some t"
  shows "wp (errmsg org err fmt args) (\<lambda>_ s'.
    if errmsg_on org s then \<exists>m rest. t = m @ rest \<and> length m = min (length t) 254 \<and>
      s' = s\<lparr>outs := outs s @ [errmsg_event org err m s]\<rparr>
    else s' = s) s"
proof (cases "errmsg_on org s")
  case True
  then have "errmsg_state org err fmt args s = s\<lparr>outs := outs s @ [errmsg_event org err (take 254 t) s]\<rparr>"
    by (simp add: errmsg_state_def assms MAX_MESSAGE_LENGTH_def)
  with True show ?thesis
    by (simp only: wp_errmsg if_True, intro exI [of _ "take 254 t"] exI [of _ "drop 254 t"]) simp
next
  case False
  then show ?thesis by (simp add: wp_errmsg errmsg_state_def)
qed

lemma errmsg_contract_witness:
  "wp (errmsg ThisAFU OCXL_NO_MEM ''lost %d'' [FInt 7]) (\<lambda>_ s'.
     outs s' = [Callback 3 (Some 1) OCXL_NO_MEM ''lost 7''])
     (demo_state\<lparr>cur_afu := demo_afu\<lparr>afu_verbose_errors := True, afu_error_handler := UserHandler 3\<rparr>\<rparr>)"
proof -
  have "c_format ''lost %d'' [FInt 7] = Some ''lost 7''" by code_simp
  note e = errmsg_contract [OF this]
  show ?thesis
    by (rule wp_mono [OF e]) (auto simp: errmsg_on_def errmsg_event_def demo_state_def demo_afu_def
        append_eq_Cons_conv Cons_eq_append_conv)
qed

text \<open>C35: growing an array that is below half of the counter's range either fails and leaves the
  array, its count and every other part of the state but the messages as they were, or gives
  an array of twice the capacity (the initial capacity for an empty array) that starts with
  the old elements.\<close>

theorem grow_buffer_contract:
  assumes "length (buf_cells b) = unat count" "unat count < 32768"
    and "0 < unat initial" "unat initial < 65536"
  shows "wp (grow_buffer K b count sz initial) (\<lambda>(rc, b', count') s'. cur_afu s' = cur_afu s \<and> ub s' = ub s \<and>
     (rc = OCXL_NO_MEM \<and> b' = b \<and> count' = count \<or>
      rc = OCXL_OK \<and> buf_block b' \<noteq> None \<and> length (buf_cells b') = unat count' \<and>
        unat count' = (if count = 0 then unat initial else 2 * unat count) \<and>
        take (unat count) (buf_cells b') = buf_cells b)) s"
proof -
  have gc: "grow_count count initial < 65536" "unat count \<le> grow_count count initial"
    using assms by (auto simp: grow_count_def)
  have tk: "take (unat count) xs = buf_cells b"
    if "length xs = grow_count count initial" "\<forall>i < unat count. xs ! i = buf_cells b ! i" for xs
    using that gc assms(1) by (intro nth_equalityI) auto
  show ?thesis
    by (rule wp_mono [OF grow_buffer_spec])
      (use gc assms in \<open>auto simp: grow_post_def grow_count_def intro!: tk split: option.splits\<close>)
qed

theorem grow_buffer_contract_witness:
  "wp (grow_buffer demo (Buf 50 [Obj 1, Obj 2]) 2 32 4) (\<lambda>(rc, b', count') s'.
     rc = OCXL_NO_MEM \<and> count' = 2 \<or>
     rc = OCXL_OK \<and> unat count' = 4 \<and> take 2 (buf_cells b') = [Obj 1, Obj (2 :: nat)]) demo_state"
  by (rule wp_mono [OF grow_buffer_contract]) auto

text \<open>At 32768 elements the doubled count does not fit the 16 bit counter: the array now has
  room for 65536 elements, and the capacity that is recorded for it is 0.\<close>

lemma grow_buffer_wraps:
  assumes "fst (os_realloc K (buf_block b) (unat (65536 * of_nat sz :: u64)) (wld s)) \<noteq> None"
  shows "wp (grow_buffer K b 0x8000 sz initial) (\<lambda>(rc, b', count') s'.
     rc = OCXL_OK \<and> count' = 0 \<and> length (buf_cells b') = 65536) s"
proof -
  have n: "new_count_of 0x8000 initial = 65536" by (simp add: new_count_of_def)
  show ?thesis
    using assms by (auto simp: grow_buffer_def Let_def n wp_simps wp_call split: prod.splits option.splits)
qed

lemma grow_buffer_wraps_witness:
  "wp (grow_buffer demo (Buf 50 []) 0x8000 32 64) (\<lambda>(rc, b', count') s'.
     rc = OCXL_OK \<and> count' = 0 \<and> length (buf_cells (b' :: nat cbuf)) = 65536) demo_state"
  by (rule wp_mono [OF grow_buffer_wraps]) (auto simp: demo_alloc_def demo_state_def demo_world_def)

text \<open>The new elements of a grown array are not all cleared: \<open>memset\<close> is given the number
  of new elements as its number of bytes, so that the last new element of any array of
  structs larger than a byte is left indeterminate.\<close>

lemma grow_buffer_leaves_indeterminate:
  assumes "0 < count" "2 \<le> sz" "length (buf_cells b) = unat count"
  shows "wp (grow_buffer K b count sz initial) (\<lambda>(rc, b', count') s'.
     rc = OCXL_NO_MEM \<and> b' = b \<or> rc = OCXL_OK \<and> buf_cells b' ! (2 * unat count - 1) = Indet) s"
proof -
  let ?c = "unat count"
  have c: "0 < ?c" using assms(1) by (simp add: word_less_nat_alt)
  have n: "unat (new_count_of count initial) = 2 * ?c"
    using c by (auto simp: new_count_unat grow_count_def)
  have d: "unat (new_count_of count initial - ucast count) = ?c"
    using n by (subst unat_sub) (simp_all add: word_le_nat_alt)
  have "?c < ?c * sz" using c assms(2) by simp
  then have "\<not> (2 * ?c - 1 - ?c + 1) * sz \<le> ?c" using c by (simp add: mult_2)
  moreover have "\<not> 2 * ?c - 1 < ?c" using c by linarith
  ultimately have "memset_cells sz ?c ?c (resize_cells (2 * ?c) (buf_cells b)) ! (2 * ?c - 1) = Indet"
    using c assms(3) by (simp add: memset_cells_def resize_cells_def nth_append)
  then show ?thesis
    by (auto simp: grow_buffer_def Let_def n d wp_simps wp_call split: prod.splits option.splits)
qed

lemma grow_buffer_leaves_indeterminate_witness:
  "wp (grow_buffer demo (Buf 50 [Obj 1, Obj 2]) 2 32 4) (\<lambda>(rc, b', count') s'.
     rc = OCXL_NO_MEM \<and> b' = Buf 50 [Obj 1, Obj (2 :: nat)] \<or>
     rc = OCXL_OK \<and> buf_cells b' ! 3 = Indet) demo_state"
  by (rule wp_mono [OF grow_buffer_leaves_indeterminate]) auto

end
