(* ===== verification/Ocxl_Endian.thy ===== *)
theory Ocxl_Endian
  imports Ocxl_Types
begin

text \<open>
  Byte order: how a 32 or 64 bit value of the host lies in memory, and the conversions of
  \<open>endian.h\<close> (\<open>be32toh\<close>, \<open>le32toh\<close>, \<open>htobe32\<close>, \<open>htole32\<close> and
  their 64 bit versions) that the MMIO accessors apply. The locale \<open>byte_codec\<close> states what
  a fixed-width encoding promises; it is interpreted on both widths, and the reversed codec is
  derived once, in the locale.
\<close>

definition bytes_le :: "nat \<Rightarrow> 'a::len word \<Rightarrow> u8 list" where
  "bytes_le n w = map (\<lambda>i. ucast (drop_bit (8 * i) w)) [0..<n]"

fun word_of_le :: "u8 list \<Rightarrow> 'a::len word" where
  "word_of_le [] = 0"
| "word_of_le (b # bs) = ucast b OR push_bit 8 (word_of_le bs)"

definition native_bytes :: "'w platform \<Rightarrow> nat \<Rightarrow> 'a::len word \<Rightarrow> u8 list" where
  "native_bytes K n w = (if host_little_endian K then bytes_le n w else rev (bytes_le n w))"

definition native_word :: "'w platform \<Rightarrow> u8 list \<Rightarrow> 'a::len word" where
  "native_word K bs = word_of_le (if host_little_endian K then bs else rev bs)"

definition bswap32 :: "u32 \<Rightarrow> u32" where
  "bswap32 x = push_bit 24 (x AND 0xFF) OR push_bit 8 (x AND 0xFF00)
     OR drop_bit 8 (x AND 0xFF0000) OR drop_bit 24 (x AND 0xFF000000)"

definition bswap64 :: "u64 \<Rightarrow> u64" where
  "bswap64 x = push_bit 32 (ucast (bswap32 (ucast x))) OR ucast (bswap32 (ucast (drop_bit 32 x)))"

definition be32toh :: "'w platform \<Rightarrow> u32 \<Rightarrow> u32" where
  "be32toh K v = (if host_little_endian K then bswap32 v else v)"

definition le32toh :: "'w platform \<Rightarrow> u32 \<Rightarrow> u32" where
  "le32toh K v = (if host_little_endian K then v else bswap32 v)"

definition htobe32 :: "'w platform \<Rightarrow> u32 \<Rightarrow> u32" where
  "htobe32 K v = (if host_little_endian K then bswap32 v else v)"

definition htole32 :: "'w platform \<Rightarrow> u32 \<Rightarrow> u32" where
  "htole32 K v = (if host_little_endian K then v else bswap32 v)"

definition be64toh :: "'w platform \<Rightarrow> u64 \<Rightarrow> u64" where
  "be64toh K v = (if host_little_endian K then bswap64 v else v)"

definition le64toh :: "'w platform \<Rightarrow> u64 \<Rightarrow> u64" where
  "le64toh K v = (if host_little_endian K then v else bswap64 v)"

definition htobe64 :: "'w platform \<Rightarrow> u64 \<Rightarrow> u64" where
  "htobe64 K v = (if host_little_endian K then bswap64 v else v)"

definition htole64 :: "'w platform \<Rightarrow> u64 \<Rightarrow> u64" where
  "htole64 K v = (if host_little_endian K then v else bswap64 v)"

section \<open>Bits of encodings\<close>

lemma length_bytes_le [simp]: "length (bytes_le n w) = n"
  by (simp add: bytes_le_def)

lemma nth_bytes_le: "i < n \<Longrightarrow> bytes_le n w ! i = ucast (drop_bit (8 * i) w)"
  by (simp add: bytes_le_def)

lemma bit_word_of_le:
  "bit (word_of_le bs :: 'a::len word) k \<longleftrightarrow>
     k < LENGTH('a) \<and> k div 8 < length bs \<and> bit (bs ! (k div 8)) (k mod 8)"
proof (induction bs arbitrary: k)
  case Nil
  then show ?case by simp
next
  case (Cons b bs)
  show ?case
  proof (cases "k < 8")
    case True
    then show ?thesis by (auto simp: bit_simps)
  next
    case False
    then obtain j where k: "k = j + 8" by (metis add.commute le_iff_add not_less)
    have "\<not> bit b (j + 8)" using bit_imp_le_length [of b "j + 8"] by auto
    moreover have "(j + 8) div 8 = Suc (j div 8)" by simp
    ultimately show ?thesis by (auto simp: k bit_simps Cons)
  qed
qed

lemma word_of_le_bytes_le:
  assumes "LENGTH('a) = 8 * n"
  shows "word_of_le (bytes_le n w) = (w :: 'a::len word)"
proof (rule bit_word_eqI)
  fix k
  assume k: "k < LENGTH('a)"
  with assms have "k div 8 < n" by auto
  with k show "bit (word_of_le (bytes_le n w) :: 'a word) k = bit w k"
    by (simp add: bit_word_of_le nth_bytes_le bit_simps)
qed

lemma bytes_le_word_of_le:
  assumes "LENGTH('a) = 8 * n" "length bs = n"
  shows "bytes_le n (word_of_le bs :: 'a::len word) = bs"
proof (rule nth_equalityI)
  show "length (bytes_le n (word_of_le bs :: 'a word)) = length bs" using assms by simp
next
  fix i
  assume "i < length (bytes_le n (word_of_le bs :: 'a word))"
  then have i: "i < n" by simp
  show "bytes_le n (word_of_le bs :: 'a word) ! i = bs ! i"
  proof (rule bit_word_eqI)
    fix j
    assume "j < LENGTH(8)"
    then have j: "j < 8" by simp
    with i assms have "8 * i + j < LENGTH('a)" by simp
    with i j assms show "bit (bytes_le n (word_of_le bs :: 'a word) ! i) j = bit (bs ! i) j"
      by (simp add: nth_bytes_le bit_simps bit_word_of_le)
  qed
qed

section \<open>The interface of a fixed-width encoding\<close>

locale byte_codec =
  fixes width :: nat
    and enc :: "'a \<Rightarrow> u8 list"
    and dec :: "u8 list \<Rightarrow> 'a"
  assumes length_enc: "length (enc v) = width"
    and dec_enc: "dec (enc v) = v"
    and enc_dec: "length bs = width \<Longrightarrow> enc (dec bs) = bs"
begin

lemma enc_inject: "enc v = enc v' \<longleftrightarrow> v = v'"
  using dec_enc by metis

lemma dec_inject: "length bs = width \<Longrightarrow> length bs' = width \<Longrightarrow> dec bs = dec bs' \<longleftrightarrow> bs = bs'"
  using enc_dec by metis

text \<open>Re-reading the bytes of a value in the opposite order, twice, is the identity.\<close>

lemma swap_swap: "dec (rev (enc (dec (rev (enc v))))) = v"
  by (simp add: enc_dec length_enc dec_enc)

text \<open>The codec that lays the bytes out in the opposite order promises the same.\<close>

lemma reversed: "byte_codec width (\<lambda>v. rev (enc v)) (\<lambda>bs. dec (rev bs))"
  by unfold_locales (simp_all add: length_enc dec_enc enc_dec)

end

interpretation le32: byte_codec 4 "bytes_le 4 :: u32 \<Rightarrow> u8 list" word_of_le
  by unfold_locales (simp_all add: word_of_le_bytes_le bytes_le_word_of_le)

interpretation le64: byte_codec 8 "bytes_le 8 :: u64 \<Rightarrow> u8 list" word_of_le
  by unfold_locales (simp_all add: word_of_le_bytes_le bytes_le_word_of_le)

interpretation be32: byte_codec 4 "\<lambda>v :: u32. rev (bytes_le 4 v)" "\<lambda>bs. word_of_le (rev bs)"
  by (rule le32.reversed)

interpretation be64: byte_codec 8 "\<lambda>v :: u64. rev (bytes_le 8 v)" "\<lambda>bs. word_of_le (rev bs)"
  by (rule le64.reversed)

section \<open>The swaps reverse the bytes\<close>

lemma bit_bswap32:
  "k < 32 \<Longrightarrow> bit (bswap32 x) k = bit x (8 * (3 - k div 8) + k mod 8)"
proof -
  have masks: "(0xFF :: u32) = push_bit 0 (mask 8)" "(0xFF00 :: u32) = push_bit 8 (mask 8)" 
   "(0xFF0000 :: u32) = push_bit 16 (mask 8)" "(0xFF000000 :: u32) = push_bit 24 (mask 8)"
    by (simp_all add: mask_eq_exp_minus_1)
  assume k: "k < 32"
  then consider "k < 8" | "8 \<le> k" "k < 16" | "16 \<le> k" "k < 24" | "24 \<le> k" by linarith
  then show ?thesis
  proof cases
    case 1 then show ?thesis unfolding bswap32_def masks by (auto simp: bit_simps add.commute)
  next
    case 2
    then have "k div 8 = 1" "k mod 8 = k - 8" by presburger+
    with 2 show ?thesis unfolding bswap32_def masks by (auto simp: bit_simps)
  next
    case 3
    then have "k div 8 = 2" "k mod 8 = k - 16" by presburger+
    with 3 show ?thesis unfolding bswap32_def masks by (auto simp: bit_simps)
  next
    case 4
    then have "k div 8 = 3" "k mod 8 = k - 24" using k by presburger+
    with 4 k show ?thesis unfolding bswap32_def masks by (auto simp: bit_simps)
  qed
qed

lemma bswap32_rev: "bswap32 x = word_of_le (rev (bytes_le 4 x))"
proof (rule bit_word_eqI)
  fix k assume "k < LENGTH(32)"
  then have k: "k < 32" by simp
  then have "k div 8 < 4" by auto
  with k show "bit (bswap32 x) k = bit (word_of_le (rev (bytes_le 4 x)) :: u32) k"
    by (auto simp: bit_word_of_le bit_bswap32 rev_nth nth_bytes_le bit_simps)
qed

lemma bswap64_rev: "bswap64 x = word_of_le (rev (bytes_le 8 x))"
proof (rule bit_word_eqI)
  fix k assume "k < LENGTH(64)"
  then have k: "k < 64" by simp
  show "bit (bswap64 x) k = bit (word_of_le (rev (bytes_le 8 x)) :: u64) k"
  proof (cases "k < 32")
    case True
    then have "k div 8 < 4" by auto
    moreover from this have "32 + (8 * (3 - k div 8) + k mod 8) = 8 * (7 - k div 8) + k mod 8"
      by auto
    then have "bit x (32 + (8 * (3 - k div 8) + k mod 8)) = bit x (8 * (7 - k div 8) + k mod 8)"
      by (rule arg_cong)
    ultimately show ?thesis using True
      by (auto simp: bswap64_def bit_word_of_le bit_bswap32 rev_nth nth_bytes_le bit_simps)
  next
    case False
    then obtain j where j: "k = j + 32" by (metis add.commute le_iff_add not_less)
    then have "(j + 32) div 8 = j div 8 + 4" "(j + 32) mod 8 = j mod 8" by presburger+
    moreover have "j < 32" using k j by simp
    moreover have "j div 8 < 4" using \<open>j < 32\<close> by auto
    ultimately show ?thesis using j bit_imp_le_length[of "bswap32 (ucast (drop_bit 32 x))" "j+32"]
      by (auto simp: bswap64_def bit_word_of_le bit_bswap32 rev_nth nth_bytes_le bit_simps)
  qed
qed

section \<open>Conversions in terms of the bytes in memory\<close>

text \<open>Whatever the byte order of the host, a value converted from big (little) endian is the
  big (little) endian reading of the bytes, and a value converted to it is stored as its big
  (little) endian bytes.\<close>

lemma toh32_native_word:
  assumes "length bs = 4"
  shows "be32toh K (native_word K bs) = word_of_le (rev bs)"
    and "le32toh K (native_word K bs) = word_of_le bs"
  using assms
  by (simp_all add: be32toh_def le32toh_def native_word_def bswap32_rev le32.enc_dec)

lemma toh64_native_word:
  assumes "length bs = 8"
  shows "be64toh K (native_word K bs) = word_of_le (rev bs)"
    and "le64toh K (native_word K bs) = word_of_le bs"
  using assms
  by (simp_all add: be64toh_def le64toh_def native_word_def bswap64_rev le64.enc_dec)

lemma native_bytes_hto32:
  "native_bytes K 4 (htobe32 K v) = rev (bytes_le 4 v)"
  "native_bytes K 4 (htole32 K v) = bytes_le 4 v"
  by (simp_all add: htobe32_def htole32_def native_bytes_def bswap32_rev le32.enc_dec)

lemma native_bytes_hto64:
  "native_bytes K 8 (htobe64 K v) = rev (bytes_le 8 v)"
  "native_bytes K 8 (htole64 K v) = bytes_le 8 v"
  by (simp_all add: htobe64_def htole64_def native_bytes_def bswap64_rev le64.enc_dec)

lemma length_native_bytes [simp]: "length (native_bytes K n w) = n"
  by (simp add: native_bytes_def)

lemma native_word_native_bytes:
  "native_word K (native_bytes K 4 v) = (v :: u32)"
  "native_word K (native_bytes K 8 v') = (v' :: u64)"
  by (simp_all add: native_word_def native_bytes_def le32.dec_enc le64.dec_enc)

lemmas endian_simps = toh32_native_word toh64_native_word native_bytes_hto32 native_bytes_hto64
  native_word_native_bytes le32.dec_enc le64.dec_enc be32.dec_enc be64.dec_enc

end
