(* ===== verification/Ocxl_Table.thy ===== *)
theory Ocxl_Table
  imports Main
begin

text \<open>
  The contract of the library's handle tables, as two interfaces. A slot table gives out an
  index for each entry it stores and refuses without changing anything when it has no memory;
  a removable table can also give an entry up again. Both arrays of an AFU are such tables:
  the mapped MMIO regions (removable) and the interrupts (never removed before the AFU is
  closed). What a caller relies on - that handles are never handed out twice and that one
  caller's handle is not disturbed by another's calls - is proved here once.

  \<open>used\<close> counts the array elements in use, \<open>limit\<close> is the number of them up to which
  the growth of the array stays inside its 16 bit counter.
\<close>

locale slot_table =
  fixes inv :: "'s \<Rightarrow> bool"
    and used :: "'s \<Rightarrow> nat"
    and limit :: nat
    and live :: "'s \<Rightarrow> nat \<Rightarrow> 'v option"
    and add :: "'x \<Rightarrow> 's \<Rightarrow> nat option \<times> 's"
    and stores :: "'x \<Rightarrow> 'v \<Rightarrow> bool"
  assumes add_inv: "inv s \<Longrightarrow> used s < limit \<Longrightarrow> inv (snd (add x s))"
    and add_used: "inv s \<Longrightarrow> used s < limit \<Longrightarrow> used (snd (add x s)) \<le> Suc (used s)"
    and add_Some: "inv s \<Longrightarrow> used s < limit \<Longrightarrow> add x s = (Some i, s') \<Longrightarrow>
      live s i = None \<and> (\<exists>v. stores x v \<and> live s' = (live s)(i \<mapsto> v))"
    and add_None: "inv s \<Longrightarrow> used s < limit \<Longrightarrow> add x s = (None, s') \<Longrightarrow> live s' = live s"
begin

text \<open>A sequence of additions, with the handles it returned, newest last.\<close>

primrec adds :: "'x list \<Rightarrow> 's \<Rightarrow> nat option list \<times> 's" where
  "adds [] s = ([], s)"
| "adds (x # xs) s = (let (h, s1) = add x s; (hs, s2) = adds xs s1 in (h # hs, s2))"

definition given :: "nat option list \<Rightarrow> nat list" where
  "given hs = concat (map (\<lambda>h. case h of None \<Rightarrow> [] | Some i \<Rightarrow> [i]) hs)"

lemma add_keeps:
  assumes "inv s" "used s < limit" "add x s = (h, s')" "live s i = Some v"
  shows "live s' i = Some v"
  using assms add_Some [OF assms(1,2), of x] add_None [OF assms(1,2), of x]
  by (cases h) fastforce+

lemma add_given_live:
  assumes "inv s" "used s < limit" "add x s = (Some i, s')"
  shows "\<exists>v. live s' i = Some v \<and> stores x v"
  using add_Some [OF assms] by auto

lemma add_step:
  assumes "inv s" "used s + length (x # xs) \<le> limit" "add x s = (h, s1)"
  shows "inv s1" "used s1 + length xs \<le> limit"
  using assms add_inv [of s x] add_used [of s x] by auto

lemma adds_spec:
  assumes "inv s" "used s + length xs \<le> limit" "adds xs s = (hs, s')"
  shows "inv s' \<and> used s' \<le> used s + length xs \<and> distinct (given hs) \<and>
    (\<forall>i \<in> set (given hs). live s i = None \<and> live s' i \<noteq> None) \<and>
    (\<forall>i v. live s i = Some v \<longrightarrow> live s' i = Some v)"
  using assms
proof (induction xs arbitrary: s hs)
  case Nil
  then show ?case by (simp add: given_def)
next
  case (Cons x xs)
  obtain h s1 where a: "add x s = (h, s1)" by (cases "add x s")
  obtain hs1 where r: "adds xs s1 = (hs1, s')" "hs = h # hs1"
    using Cons.prems(3) a by (auto split: prod.splits)
  have lim: "used s < limit" using Cons.prems(2) by simp
  note st = add_step [OF Cons.prems(1,2) a]
  note IH = Cons.IH [OF st r(1)]
  have u: "used s1 \<le> Suc (used s)" using add_used [OF Cons.prems(1) lim, of x] a by simp
  have keep: "live s1 i = Some v" if "live s i = Some v" for i v
    using add_keeps [OF Cons.prems(1) lim a that] .
  then have old: "live s i = None" if "live s1 i = None" for i
    using that by (cases "live s i") auto
  show ?case
  proof (cases h)
    case None
    with IH r u keep old show ?thesis by (auto simp: given_def)
  next
    case (Some i)
    from add_Some [OF Cons.prems(1) lim a [unfolded Some]]
    obtain v where v: "live s i = None" "live s1 = (live s)(i \<mapsto> v)" by blast
    then have "i \<notin> set (given hs1)" and "live s' i = Some v" using IH by auto
    with IH r u keep old v Some show ?thesis by (auto simp: given_def)
  qed
qed

end

locale removable_table = slot_table inv used limit live add stores
  for inv :: "'s \<Rightarrow> bool"
    and used :: "'s \<Rightarrow> nat"
    and limit :: nat
    and live :: "'s \<Rightarrow> nat \<Rightarrow> 'v option"
    and add :: "'x \<Rightarrow> 's \<Rightarrow> nat option \<times> 's"
    and stores :: "'x \<Rightarrow> 'v \<Rightarrow> bool" +
  fixes remove :: "nat \<Rightarrow> 's \<Rightarrow> 's"
  assumes remove_inv: "inv s \<Longrightarrow> live s i \<noteq> None \<Longrightarrow> inv (remove i s)"
    and remove_used: "inv s \<Longrightarrow> live s i \<noteq> None \<Longrightarrow> used (remove i s) = used s"
    and remove_live: "inv s \<Longrightarrow> live s i \<noteq> None \<Longrightarrow> live (remove i s) = (live s)(i := None)"
begin

text \<open>Giving a new handle up at once leaves the entries of everybody else as they were.\<close>

lemma add_remove:
  assumes "inv s" "used s < limit" "add x s = (Some i, s')"
  shows "inv (remove i s') \<and> live (remove i s') = live s"
proof -
  from add_Some [OF assms] obtain v where v: "live s i = None" "live s' = (live s)(i \<mapsto> v)" by blast
  have "inv s'" using add_inv [OF assms(1,2), of x] assms(3) by simp
  with remove_inv remove_live v show ?thesis by (simp add: fun_upd_idem)
qed

text \<open>Removing two handles in either order leaves the same entries.\<close>

lemma remove_commute:
  assumes "inv s" "live s i \<noteq> None" "live s j \<noteq> None" "i \<noteq> j"
  shows "live (remove i (remove j s)) = live (remove j (remove i s))"
  using assms by (simp add: remove_live remove_inv fun_upd_twist)

text \<open>Removing every live entry, in any order, empties the table.\<close>

primrec removes :: "nat list \<Rightarrow> 's \<Rightarrow> 's" where
  "removes [] s = s"
| "removes (i # is) s = removes is (remove i s)"

lemma removes_all:
  assumes "inv s" "distinct is" "set is = dom (live s)"
  shows "inv (removes is s) \<and> live (removes is s) = Map.empty"
  using assms
proof (induction "is" arbitrary: s)
  case Nil
  then have "dom (live s) = {}" by simp
  with Nil show ?case by simp
next
  case (Cons i "is")
  then have l: "live s i \<noteq> None" by auto
  with Cons.prems(1) have "inv (remove i s)" "live (remove i s) = (live s)(i := None)"
    by (simp_all add: remove_inv remove_live)
  moreover have "set is = dom ((live s)(i := None))" using Cons.prems(2,3) by auto
  ultimately show ?case using Cons.IH Cons.prems(2) by simp
qed

end

end
