(* ===== verification/Ocxl_Mmio.thy ===== *)
theory Ocxl_Mmio
  imports Ocxl_Internal Ocxl_Endian Ocxl_Ledger Ocxl_Table Ocxl_Demo
begin

text \<open>
  \<open>src/src/mmio.c\<close>: the table of mapped MMIO regions of an AFU, mapping and unmapping,
  and the 32 and 64 bit accessors with their bounds check and byte order conversion.
  Offsets are \<open>off_t\<close> values: 64 bit words, read as signed where the code compares them
  signed.
\<close>

section \<open>The region array\<close>

definition zero_area :: ocxl_mmio_area where
  "zero_area = \<lparr>mm_start = 0, mm_length = 0, mm_type = OCXL_GLOBAL_MMIO, mm_afu = None\<rparr>"

text \<open>Reading and writing \<open>afu->mmios[i]\<close>.\<close>

definition mmios_at :: "nat \<Rightarrow> ('w, ocxl_mmio_area) prog" where
  "mmios_at i = do {
     cs \<leftarrow> afu_get (\<lambda>a. buf_cells (mmios a));
     if i < length cs then
       (case cs ! i of
          Obj m \<Rightarrow> State_Monad.return m
        | Zeroed \<Rightarrow> State_Monad.return zero_area
        | Indet \<Rightarrow> do { undefined_behaviour UB_indeterminate; State_Monad.return zero_area })
     else do { undefined_behaviour UB_out_of_bounds; State_Monad.return zero_area }
   }"

definition mmios_put :: "nat \<Rightarrow> ocxl_mmio_area \<Rightarrow> ('w, unit) prog" where
  "mmios_put i m = do {
     cs \<leftarrow> afu_get (\<lambda>a. buf_cells (mmios a));
     if i < length cs then afu_set (\<lambda>a. a\<lparr>mmios := buf_update i m (mmios a)\<rparr>)
     else undefined_behaviour UB_out_of_bounds
   }"

text \<open>The struct a region handle points to.\<close>

definition mmio_deref :: "ocxl_afu \<Rightarrow> block \<times> nat \<Rightarrow> ocxl_mmio_area option" where
  "mmio_deref a h =
     (case mmios a of
        NullBuf \<Rightarrow> None
      | Buf b cs \<Rightarrow>
          if fst h = b \<and> snd h < length cs
          then (case cs ! snd h of Obj m \<Rightarrow> Some m | _ \<Rightarrow> None) else None)"

definition region_at :: "block \<times> nat \<Rightarrow> ('w, ocxl_mmio_area) prog" where
  "region_at h = do {
     r \<leftarrow> afu_get (\<lambda>a. mmio_deref a h);
     (case r of
        Some m \<Rightarrow> State_Monad.return m
      | None \<Rightarrow> do { undefined_behaviour UB_dangling_pointer; State_Monad.return zero_area })
   }"

definition type_name :: "ocxl_mmio_type \<Rightarrow> string" where
  "type_name ty = (if ty = OCXL_GLOBAL_MMIO then ''Global'' else ''Per-PASID'')"

section \<open>Registering a mapping\<close>

fun find_available :: "nat list \<Rightarrow> ('w, nat option) prog" where
  "find_available [] = State_Monad.return None"
| "find_available (i # is) = do {
     m \<leftarrow> mmios_at i;
     if mm_start m = 0 then State_Monad.return (Some i) else find_available is
   }"

text \<open>The element a new mapping goes to (lines 53 to 76): a free one, or the next one, the array
  being grown when it is full.\<close>

definition mmio_slot :: "'w platform \<Rightarrow> ('w, ocxl_err + nat) prog" where
  "mmio_slot K = do {
     count \<leftarrow> afu_get mmio_count;
     found \<leftarrow> find_available [0..<unat count];
     (case found of
        Some i \<Rightarrow> State_Monad.return (Inr i)
      | None \<Rightarrow> do {
          max_count \<leftarrow> afu_get mmio_max_count;
          buf \<leftarrow> afu_get mmios;
          rc \<leftarrow> (if count = max_count then do {
                  (rc, buf', max') \<leftarrow>
                    grow_buffer K buf max_count sizeof_mmio_area INITIAL_MMIO_COUNT;
                  afu_set (\<lambda>a. a\<lparr>mmios := buf', mmio_max_count := max'\<rparr>);
                  State_Monad.return rc
                } else State_Monad.return OCXL_OK);
          if rc \<noteq> OCXL_OK then do {
            errmsg ThisAFU rc ''Could not grow MMIO buffer'' [];
            State_Monad.return (Inl rc)
          } else do {
            afu_set (\<lambda>a. a\<lparr>mmio_count := mmio_count a + 1\<rparr>);
            State_Monad.return (Inr (unat count))
          }
        })
   }"

definition register_mmio ::
  "'w platform \<Rightarrow> u64 \<Rightarrow> u64 \<Rightarrow> ocxl_mmio_type \<Rightarrow> ('w, ocxl_err \<times> ocxl_mmio_h) prog" where
  "register_mmio K addr sz ty = do {
     slot \<leftarrow> mmio_slot K;
     (case slot of
        Inl rc \<Rightarrow> State_Monad.return (rc, None)
      | Inr i \<Rightarrow> do {
          self \<leftarrow> afu_get afu_block;
          mmios_put i \<lparr>mm_start = addr, mm_length = sz, mm_type = ty, mm_afu = Some self\<rparr>;
          blk \<leftarrow> afu_get (\<lambda>a. buf_block (mmios a));
          TRACE ''src/mmio.c'' 86 ''register_mmio'' ''Mapped %ld bytes of %s MMIO at %p''
            [FInt (sint sz), FStr (type_name ty), FPtr addr];
          State_Monad.return (OCXL_OK, map_option (\<lambda>b. (b, i)) blk)
        })
   }"

section \<open>Opening and mapping\<close>

definition global_mmio_open :: "'w platform \<Rightarrow> ('w, ocxl_err) prog" where
  "global_mmio_open K = do {
     sp \<leftarrow> afu_get sysfs_path;
     whenM (sp = None) (undefined_behaviour UB_null_argument);
     let path = (case sp of None \<Rightarrow> ''(null)'' | Some (_, p) \<Rightarrow> p) @ ''/global_mmio_area'';
     if PATH_MAX + 1 \<le> length path then do {
       errmsg ThisAFU OCXL_NO_DEV ''global MMIO path truncated'' [];
       State_Monad.return OCXL_NO_DEV
     } else do {
       d \<leftarrow> do_open K path (O_RDWR + O_CLOEXEC);
       if d < 0 then do {
         e \<leftarrow> errno K;
         errmsg ThisAFU OCXL_NO_DEV ''Could not open global MMIO '%s': Error %d: %s''
           [FStr path, FInt e, FStr (os_strerror K e)];
         State_Monad.return OCXL_NO_DEV
       } else do {
         afu_set (\<lambda>a. a\<lparr>global_mmio_fd := d\<rparr>);
         State_Monad.return OCXL_OK
       }
     }
   }"

definition global_mmio_map ::
  "'w platform \<Rightarrow> u64 \<Rightarrow> int \<Rightarrow> u64 \<Rightarrow> u64 \<Rightarrow> ('w, ocxl_err \<times> ocxl_mmio_h) prog" where
  "global_mmio_map K sz prot flags offset = do {
     len \<leftarrow> afu_get (\<lambda>a. mm_length (global_mmio a));
     if len = 0 then do {
       errmsg ThisAFU OCXL_NO_MEM
         ''Cannot map Global MMIO as there is 0 bytes allocated by the AFU'' [];
       State_Monad.return (OCXL_NO_MEM, None)
     } else if flags \<noteq> 0 then do {
       errmsg ThisAFU OCXL_INVALID_ARGS
         ''MMIO flags of 0x%llx is not supported by this version of libocxl'' [FInt (uint flags)];
       State_Monad.return (OCXL_INVALID_ARGS, None)
     } else do {
       d \<leftarrow> afu_get global_mmio_fd;
       addr \<leftarrow> do_mmap K sz prot d offset;
       if addr = MAP_FAILED then do {
         e \<leftarrow> errno K;
         errmsg ThisAFU OCXL_NO_MEM ''Could not map global MMIO, %d: %s''
           [FInt e, FStr (os_strerror K e)];
         State_Monad.return (OCXL_NO_MEM, None)
       } else do {
         (rc, mmio_region) \<leftarrow> register_mmio K addr sz OCXL_GLOBAL_MMIO;
         if rc \<noteq> OCXL_OK then do {
           errmsg ThisAFU rc ''Could not register global MMIO region'' [];
           do_munmap K addr sz;
           State_Monad.return (rc, None)
         } else State_Monad.return (OCXL_OK, mmio_region)
       }
     }
   }"

definition mmio_map ::
  "'w platform \<Rightarrow> u64 \<Rightarrow> int \<Rightarrow> u64 \<Rightarrow> u64 \<Rightarrow> ('w, ocxl_err \<times> ocxl_mmio_h) prog" where
  "mmio_map K sz prot flags offset = do {
     d \<leftarrow> afu_get afu_fd;
     att \<leftarrow> afu_get attached;
     if flags \<noteq> 0 then do {
       errmsg ThisAFU OCXL_INVALID_ARGS
         ''MMIO flags of 0x%llx is not supported by this version of libocxl'' [FInt (uint flags)];
       State_Monad.return (OCXL_INVALID_ARGS, None)
     } else if d < 0 then do {
       errmsg ThisAFU OCXL_NO_CONTEXT
         ''Could not map per-PASID MMIO as the AFU has not been opened'' [];
       State_Monad.return (OCXL_NO_CONTEXT, None)
     } else if \<not> att then do {
       errmsg ThisAFU OCXL_NO_CONTEXT
         ''Could not map per-PASID MMIO as the AFU has not been attached'' [];
       State_Monad.return (OCXL_NO_CONTEXT, None)
     } else do {
       addr \<leftarrow> do_mmap K sz prot d offset;
       if addr = MAP_FAILED then do {
         e \<leftarrow> errno K;
         errmsg ThisAFU OCXL_NO_MEM ''Could not map per-PASID MMIO: %d: %s''
           [FInt e, FStr (os_strerror K e)];
         State_Monad.return (OCXL_NO_MEM, None)
       } else do {
         (rc, mmio_region) \<leftarrow> register_mmio K addr sz OCXL_PER_PASID_MMIO;
         if rc \<noteq> OCXL_OK then do {
           nm \<leftarrow> afu_get (\<lambda>a. afu_name (afu_identifier a));
           errmsg ThisAFU rc ''Could not register global MMIO region'' [FStr nm];
           do_munmap K addr sz;
           State_Monad.return (rc, None)
         } else State_Monad.return (OCXL_OK, mmio_region)
       }
     }
   }"

definition mmio_length :: "ocxl_afu \<Rightarrow> ocxl_mmio_type \<Rightarrow> u64" where
  "mmio_length a ty = (case ty of
      OCXL_PER_PASID_MMIO \<Rightarrow> mm_length (per_pasid_mmio a)
    | OCXL_GLOBAL_MMIO \<Rightarrow> mm_length (global_mmio a)
    | _ \<Rightarrow> 0)"

definition ocxl_mmio_map_advanced ::
  "'w platform \<Rightarrow> ocxl_mmio_type \<Rightarrow> u64 \<Rightarrow> int \<Rightarrow> u64 \<Rightarrow> u64 \<Rightarrow>
   ('w, ocxl_err \<times> ocxl_mmio_h) prog" where
  "ocxl_mmio_map_advanced K ty size0 prot flags offset = do {
     len \<leftarrow> afu_get (\<lambda>a. mmio_length a ty);
     glen \<leftarrow> afu_get (\<lambda>a. mm_length (global_mmio a));
     let sz = (if size0 = 0 then len - offset else size0);
     (case ty of
        OCXL_GLOBAL_MMIO \<Rightarrow>
          if offset + sz > len then do {
            errmsg ThisAFU OCXL_NO_MEM
              ''Offset(%#x) + size(%#x) of global MMIO map request exceeds available size of %#x''
              [FInt (uint offset), FInt (uint sz), FInt (uint glen)];
            State_Monad.return (OCXL_NO_MEM, None)
          } else global_mmio_map K sz prot flags offset
      | OCXL_PER_PASID_MMIO \<Rightarrow>
          if offset + sz > len then do {
            errmsg ThisAFU OCXL_NO_MEM
              ''Offset(%#x) + size(%#x) of per-pasid MMIO map request exceeds available size of %#x''
              [FInt (uint offset), FInt (uint sz), FInt (uint glen)];
            State_Monad.return (OCXL_NO_MEM, None)
          } else mmio_map K sz prot flags offset
      | OCXL_MMIO_TYPE_OTHER n \<Rightarrow> do {
          errmsg ThisAFU OCXL_INVALID_ARGS ''Unknown MMIO type %d'' [FInt n];
          State_Monad.return (OCXL_INVALID_ARGS, None)
        })
   }"

definition ocxl_mmio_map ::
  "'w platform \<Rightarrow> ocxl_mmio_type \<Rightarrow> ('w, ocxl_err \<times> ocxl_mmio_h) prog" where
  "ocxl_mmio_map K ty = ocxl_mmio_map_advanced K ty 0 (PROT_READ + PROT_WRITE) 0 0"

definition ocxl_mmio_unmap :: "'w platform \<Rightarrow> block \<times> nat \<Rightarrow> ('w, unit) prog" where
  "ocxl_mmio_unmap K region = do {
     m \<leftarrow> region_at region;
     if mm_start m = 0 then skip
     else do {
       do_munmap K (mm_start m) (mm_length m);
       mmios_put (snd region) (m\<lparr>mm_start := 0\<rparr>)
     }
   }"

section \<open>Queries\<close>

definition ocxl_mmio_get_fd :: "ocxl_mmio_type \<Rightarrow> ('w, int) prog" where
  "ocxl_mmio_get_fd ty = (case ty of
      OCXL_GLOBAL_MMIO \<Rightarrow> afu_get global_mmio_fd
    | OCXL_PER_PASID_MMIO \<Rightarrow> afu_get afu_fd
    | OCXL_MMIO_TYPE_OTHER n \<Rightarrow> do {
        errmsg ThisAFU OCXL_INVALID_ARGS ''Unknown MMIO type %d'' [FInt n];
        State_Monad.return (- 1)
      })"

definition ocxl_mmio_size :: "ocxl_mmio_type \<Rightarrow> ('w, u64) prog" where
  "ocxl_mmio_size ty = (case ty of
      OCXL_GLOBAL_MMIO \<Rightarrow> afu_get (\<lambda>a. mm_length (global_mmio a))
    | OCXL_PER_PASID_MMIO \<Rightarrow> afu_get (\<lambda>a. mm_length (per_pasid_mmio a))
    | OCXL_MMIO_TYPE_OTHER n \<Rightarrow> do {
        errmsg ThisAFU OCXL_INVALID_ARGS (''Invalid MMIO area requested '%d'' @ squote) [FInt n];
        State_Monad.return 0
      })"

definition ocxl_mmio_get_info ::
  "block \<times> nat \<Rightarrow> ('w, ocxl_err \<times> (u64 \<times> u64) option) prog" where
  "ocxl_mmio_get_info region = do {
     m \<leftarrow> region_at region;
     if mm_start m = 0 then do {
       errmsg ThisAFU OCXL_INVALID_ARGS ''MMIO region has already been unmapped'' [];
       State_Monad.return (OCXL_INVALID_ARGS, None)
     } else State_Monad.return (OCXL_OK, Some (mm_start m, mm_length m))
   }"

section \<open>Accessors\<close>

definition mmio_check :: "ocxl_mmio_h \<Rightarrow> u64 \<Rightarrow> u64 \<Rightarrow> ('w, ocxl_err) prog" where
  "mmio_check region offset sz =
     (case region of
        None \<Rightarrow> do {
          errmsg NoAFU OCXL_INVALID_ARGS ''MMIO region is invalid'' [];
          State_Monad.return OCXL_INVALID_ARGS
        }
      | Some h \<Rightarrow> do {
          m \<leftarrow> region_at h;
          if mm_start m = 0 then do {
            errmsg ThisAFU OCXL_INVALID_ARGS ''MMIO region has already been unmapped'' [];
            State_Monad.return OCXL_INVALID_ARGS
          } else if sint offset \<ge> sint (mm_length m - (sz - 1)) then do {
            errmsg ThisAFU OCXL_OUT_OF_BOUNDS
              ''%s MMIO access of 0x%016lx exceeds limit of 0x%016lx''
              [FStr (type_name (mm_type m)), FInt (uint offset), FInt (uint (mm_length m))];
            State_Monad.return OCXL_OUT_OF_BOUNDS
          } else State_Monad.return OCXL_OK
        })"

definition region_ptr :: "ocxl_mmio_h \<Rightarrow> ('w, ocxl_mmio_area) prog" where
  "region_ptr region = (case region of
      None \<Rightarrow> do { undefined_behaviour UB_null_argument; State_Monad.return zero_area }
    | Some h \<Rightarrow> region_at h)"

definition mmio_read32_native ::
  "'w platform \<Rightarrow> ocxl_mmio_h \<Rightarrow> u64 \<Rightarrow> ('w, ocxl_err \<times> u32) prog" where
  "mmio_read32_native K region offset = do {
     ret \<leftarrow> mmio_check region offset 4;
     if ret \<noteq> OCXL_OK then State_Monad.return (ret, 0)
     else do {
       m \<leftarrow> region_ptr region;
       bs \<leftarrow> do_load K (mm_start m + offset) 4;
       let out = native_word K bs;
       TRACE ''src/mmio.c'' 491 ''mmio_read32_native'' ''%s MMIO Read32@0x%04lx=0x%08x''
         [FStr (type_name (mm_type m)), FInt (uint offset), FInt (uint out)];
       State_Monad.return (OCXL_OK, out)
     }
   }"

definition mmio_read64_native ::
  "'w platform \<Rightarrow> ocxl_mmio_h \<Rightarrow> u64 \<Rightarrow> ('w, ocxl_err \<times> u64) prog" where
  "mmio_read64_native K region offset = do {
     ret \<leftarrow> mmio_check region offset 8;
     if ret \<noteq> OCXL_OK then State_Monad.return (ret, 0)
     else do {
       m \<leftarrow> region_ptr region;
       bs \<leftarrow> do_load K (mm_start m + offset) 8;
       let out = native_word K bs;
       TRACE ''src/mmio.c'' 527 ''mmio_read64_native'' ''%s MMIO Read64@0x%04lx=0x%016lx''
         [FStr (type_name (mm_type m)), FInt (uint offset), FInt (uint out)];
       State_Monad.return (OCXL_OK, out)
     }
   }"

definition mmio_write32_native ::
  "'w platform \<Rightarrow> ocxl_mmio_h \<Rightarrow> u64 \<Rightarrow> u32 \<Rightarrow> ('w, ocxl_err) prog" where
  "mmio_write32_native K region offset value = do {
     ret \<leftarrow> mmio_check region offset 4;
     if ret \<noteq> OCXL_OK then State_Monad.return ret
     else do {
       m \<leftarrow> region_ptr region;
       TRACE ''src/mmio.c'' 561 ''mmio_write32_native'' ''%s MMIO Write32@0x%04lx=0x%08x''
         [FStr (type_name (mm_type m)), FInt (uint offset), FInt (uint value)];
       do_store K (mm_start m + offset) (native_bytes K 4 value);
       State_Monad.return OCXL_OK
     }
   }"

definition mmio_write64_native ::
  "'w platform \<Rightarrow> ocxl_mmio_h \<Rightarrow> u64 \<Rightarrow> u64 \<Rightarrow> ('w, ocxl_err) prog" where
  "mmio_write64_native K region offset value = do {
     ret \<leftarrow> mmio_check region offset 8;
     if ret \<noteq> OCXL_OK then State_Monad.return ret
     else do {
       m \<leftarrow> region_ptr region;
       TRACE ''src/mmio.c'' 599 ''mmio_write64_native'' ''%s MMIO Write64@0x%04lx=0x%016lx''
         [FStr (type_name (mm_type m)), FInt (uint offset), FInt (uint value)];
       do_store K (mm_start m + offset) (native_bytes K 8 value);
       State_Monad.return OCXL_OK
     }
   }"

text \<open>The value is \<open>None\<close> where the code leaves \<open>*out\<close> as it was.\<close>

definition ocxl_mmio_read32 ::
  "'w platform \<Rightarrow> ocxl_mmio_h \<Rightarrow> u64 \<Rightarrow> ocxl_endian \<Rightarrow> ('w, ocxl_err \<times> u32 option) prog" where
  "ocxl_mmio_read32 K mmio offset endian = do {
     (ret, val) \<leftarrow> mmio_read32_native K mmio offset;
     if ret \<noteq> OCXL_OK then State_Monad.return (ret, None)
     else State_Monad.return (OCXL_OK, Some (case endian of
        OCXL_MMIO_BIG_ENDIAN \<Rightarrow> be32toh K val
      | OCXL_MMIO_LITTLE_ENDIAN \<Rightarrow> le32toh K val
      | _ \<Rightarrow> val))
   }"

definition ocxl_mmio_read64 ::
  "'w platform \<Rightarrow> ocxl_mmio_h \<Rightarrow> u64 \<Rightarrow> ocxl_endian \<Rightarrow> ('w, ocxl_err \<times> u64 option) prog" where
  "ocxl_mmio_read64 K mmio offset endian = do {
     (ret, val) \<leftarrow> mmio_read64_native K mmio offset;
     if ret \<noteq> OCXL_OK then State_Monad.return (ret, None)
     else State_Monad.return (OCXL_OK, Some (case endian of
        OCXL_MMIO_BIG_ENDIAN \<Rightarrow> be64toh K val
      | OCXL_MMIO_LITTLE_ENDIAN \<Rightarrow> le64toh K val
      | _ \<Rightarrow> val))
   }"

definition ocxl_mmio_write32 ::
  "'w platform \<Rightarrow> ocxl_mmio_h \<Rightarrow> u64 \<Rightarrow> ocxl_endian \<Rightarrow> u32 \<Rightarrow> ('w, ocxl_err) prog" where
  "ocxl_mmio_write32 K mmio offset endian value =
     mmio_write32_native K mmio offset (case endian of
        OCXL_MMIO_BIG_ENDIAN \<Rightarrow> htobe32 K value
      | OCXL_MMIO_LITTLE_ENDIAN \<Rightarrow> htole32 K value
      | _ \<Rightarrow> value)"

definition ocxl_mmio_write64 ::
  "'w platform \<Rightarrow> ocxl_mmio_h \<Rightarrow> u64 \<Rightarrow> ocxl_endian \<Rightarrow> u64 \<Rightarrow> ('w, ocxl_err) prog" where
  "ocxl_mmio_write64 K mmio offset endian value =
     mmio_write64_native K mmio offset (case endian of
        OCXL_MMIO_BIG_ENDIAN \<Rightarrow> htobe64 K value
      | OCXL_MMIO_LITTLE_ENDIAN \<Rightarrow> htole64 K value
      | _ \<Rightarrow> value)"

section \<open>The bounds check\<close>

lemma sint_nonneg_uint: "uint (w :: u64) < 2 ^ 63 \<Longrightarrow> sint w = uint w"
proof -
  assume "uint w < 2 ^ 63"
  then have "signed_take_bit 63 (uint w) = uint w"
    by (intro signed_take_bit_int_eq_self) (auto intro: order_trans [of _ 0])
  then show ?thesis by (simp add: sint_uint)
qed

lemma sint_nonneg_uint': "0 \<le> sint (w :: u64) \<Longrightarrow> sint w = uint w"
proof -
  assume "0 \<le> sint w"
  moreover have "sint w < 2 ^ 64" using sint_lt [of w] by simp
  ultimately show ?thesis by (simp add: uint_sint take_bit_int_eq_self)
qed

lemma sint_limit:
  assumes "uint (len :: u64) < 2 ^ 63" "1 \<le> uint sz" "uint sz \<le> 2 ^ 62"
  shows "sint (len - (sz - 1)) = uint len - uint sz + 1"
proof -
  have "uint (sz - 1) = uint sz - 1" using assms(2) by (simp add: uint_sub_if')
  then have "sint (sz - 1) = uint sz - 1" using assms(3) by (simp add: sint_nonneg_uint)
  moreover have "sint len = uint len" using assms(1) by (rule sint_nonneg_uint)
  ultimately have "sint (len - (sz - 1)) = signed_take_bit 63 (uint len - (uint sz - 1))"
    by (simp add: sint_word_ariths)
  also have "\<dots> = uint len - (uint sz - 1)"
  proof (rule signed_take_bit_int_eq_self)
    have p: "(2::int) ^ 63 = 2 * 2 ^ 62" by simp
    show "- (2 ^ 63) \<le> uint len - (uint sz - 1)" "uint len - (uint sz - 1) < 2 ^ 63"
      using assms uint_ge_0 [of len] unfolding p by linarith+
  qed
  finally show ?thesis by simp
qed

definition access_ok :: "ocxl_mmio_area \<Rightarrow> u64 \<Rightarrow> u64 \<Rightarrow> bool" where
  "access_ok m offset sz \<longleftrightarrow> sint offset < sint (mm_length m - (sz - 1))"

text \<open>For a non-negative offset and an area below \<open>2 ^ 63\<close> bytes the check is exactly the
  containment of the access in the area.\<close>

lemma access_ok_iff:
  assumes "uint (mm_length m) < 2 ^ 63" "1 \<le> uint sz" "uint sz \<le> 2 ^ 62" "0 \<le> sint offset"
  shows "access_ok m offset sz \<longleftrightarrow> unat offset + unat sz \<le> unat (mm_length m)"
proof -
  have "sint offset = uint offset"
    using assms(4) by (rule sint_nonneg_uint')
  with sint_limit [OF assms(1-3)] show ?thesis
    unfolding access_ok_def using uint_nat [of offset] uint_nat [of sz] uint_nat [of "mm_length m"]
    by linarith
qed

lemma wp_region_at:
  "mmio_deref (cur_afu s) h = Some m \<Longrightarrow> wp (region_at h) Q s = Q m s"
  by (simp add: region_at_def wp_simps)

lemma wp_mmio_check_ok:
  assumes "mmio_deref (cur_afu s) h = Some m" "mm_start m \<noteq> 0" "access_ok m offset sz"
  shows "wp (mmio_check (Some h) offset sz) Q s = Q OCXL_OK s"
  using assms by (simp add: mmio_check_def wp_simps wp_region_at access_ok_def)


lemma wp_mmio_check_cases:
  assumes "mmio_deref (cur_afu s) h = Some m" "mm_start m \<noteq> 0"
  shows "wp (mmio_check (Some h) offset sz) (\<lambda>rc s'.
     rc = (if access_ok m offset sz then OCXL_OK else OCXL_OUT_OF_BOUNDS) \<and>
     cur_afu s' = cur_afu s \<and> calls s' = calls s \<and> wld s' = wld s \<and> glb s' = glb s \<and>
     ub s' = ub s \<and> (access_ok m offset sz \<longrightarrow> s' = s)) s"
  using assms by (auto simp: mmio_check_def wp_simps wp_call wp_region_at access_ok_def)

section \<open>What the accessors do\<close>

definition decode32 :: "'w platform \<Rightarrow> ocxl_endian \<Rightarrow> u8 list \<Rightarrow> u32" where
  "decode32 K e bs = (case e of OCXL_MMIO_BIG_ENDIAN \<Rightarrow> word_of_le (rev bs)
     | OCXL_MMIO_LITTLE_ENDIAN \<Rightarrow> word_of_le bs | _ \<Rightarrow> native_word K bs)"

definition decode64 :: "'w platform \<Rightarrow> ocxl_endian \<Rightarrow> u8 list \<Rightarrow> u64" where
  "decode64 K e bs = (case e of OCXL_MMIO_BIG_ENDIAN \<Rightarrow> word_of_le (rev bs)
     | OCXL_MMIO_LITTLE_ENDIAN \<Rightarrow> word_of_le bs | _ \<Rightarrow> native_word K bs)"

definition encode32 :: "'w platform \<Rightarrow> ocxl_endian \<Rightarrow> u32 \<Rightarrow> u8 list" where
  "encode32 K e v = (case e of OCXL_MMIO_BIG_ENDIAN \<Rightarrow> rev (bytes_le 4 v)
     | OCXL_MMIO_LITTLE_ENDIAN \<Rightarrow> bytes_le 4 v | _ \<Rightarrow> native_bytes K 4 v)"

definition encode64 :: "'w platform \<Rightarrow> ocxl_endian \<Rightarrow> u64 \<Rightarrow> u8 list" where
  "encode64 K e v = (case e of OCXL_MMIO_BIG_ENDIAN \<Rightarrow> rev (bytes_le 8 v)
     | OCXL_MMIO_LITTLE_ENDIAN \<Rightarrow> bytes_le 8 v | _ \<Rightarrow> native_bytes K 8 v)"

lemma decode_encode: "decode32 K e (encode32 K e v) = v" "decode64 K e (encode64 K e v') = v'"
  by (simp_all add: decode32_def encode32_def decode64_def encode64_def endian_simps
      split: ocxl_endian.split)

lemma length_encode [simp]: "length (encode32 K e v) = 4" "length (encode64 K e v') = 8"
  by (simp_all add: encode32_def encode64_def split: ocxl_endian.split)

lemma wp_region_ptr:
  "mmio_deref (cur_afu s) h = Some m \<Longrightarrow> wp (region_ptr (Some h)) Q s = Q m s"
  by (simp add: region_ptr_def wp_region_at)

definition access_pre :: "'w st \<Rightarrow> block \<times> nat \<Rightarrow> ocxl_mmio_area \<Rightarrow> u64 \<Rightarrow> u64 \<Rightarrow> bool" where
  "access_pre s h m offset sz \<longleftrightarrow>
     mmio_deref (cur_afu s) h = Some m \<and> mm_start m \<noteq> 0 \<and> access_ok m offset sz"

text \<open>The state after an access: the world after the load or store, one more entry in the call
  record, possibly a trace line.\<close>

definition accessed :: "'w st \<Rightarrow> 'w \<Rightarrow> call \<Rightarrow> 'w st \<Rightarrow> bool" where
  "accessed s w c s' \<longleftrightarrow> wld s' = w \<and> calls s' = calls s @ [c] \<and> glb s' = glb s \<and>
     cur_afu s' = cur_afu s \<and> ub s' = ub s"

lemma read64_wp:
  assumes "access_pre s h m offset 8" "os_load K (mm_start m + offset) 8 (wld s) = (bs, w)"
    and "length bs = 8"
  shows "wp (ocxl_mmio_read64 K (Some h) offset e) (\<lambda>r s'.
    r = (OCXL_OK, Some (decode64 K e bs)) \<and> accessed s w (CLoad (mm_start m + offset) 8) s') s"
  using assms
  by (auto simp: ocxl_mmio_read64_def mmio_read64_native_def access_pre_def accessed_def
      decode64_def wp_simps wp_call wp_mmio_check_ok wp_region_ptr Let_def endian_simps
      split: ocxl_endian.split)

lemma read32_wp:
  assumes "access_pre s h m offset 4" "os_load K (mm_start m + offset) 4 (wld s) = (bs, w)"
    and "length bs = 4"
  shows "wp (ocxl_mmio_read32 K (Some h) offset e) (\<lambda>r s'.
    r = (OCXL_OK, Some (decode32 K e bs)) \<and> accessed s w (CLoad (mm_start m + offset) 4) s') s"
  using assms
  by (auto simp: ocxl_mmio_read32_def mmio_read32_native_def access_pre_def accessed_def
      decode32_def wp_simps wp_call wp_mmio_check_ok wp_region_ptr Let_def endian_simps
      split: ocxl_endian.split)

lemma write32_wp:
  assumes "access_pre s h m offset 4"
  shows "wp (ocxl_mmio_write32 K (Some h) offset e v) (\<lambda>r s'.
    r = OCXL_OK \<and> accessed s (os_store K (mm_start m + offset) (encode32 K e v) (wld s))
      (CStore (mm_start m + offset) (encode32 K e v)) s') s"
  using assms
  by (auto simp: ocxl_mmio_write32_def mmio_write32_native_def access_pre_def accessed_def
      encode32_def wp_simps wp_call wp_mmio_check_ok wp_region_ptr endian_simps
      split: ocxl_endian.split)

lemma write64_wp:
  assumes "access_pre s h m offset 8"
  shows "wp (ocxl_mmio_write64 K (Some h) offset e v) (\<lambda>r s'.
    r = OCXL_OK \<and> accessed s (os_store K (mm_start m + offset) (encode64 K e v) (wld s))
      (CStore (mm_start m + offset) (encode64 K e v)) s') s"
  using assms
  by (auto simp: ocxl_mmio_write64_def mmio_write64_native_def access_pre_def accessed_def
      encode64_def wp_simps wp_call wp_mmio_check_ok wp_region_ptr endian_simps
      split: ocxl_endian.split)

section \<open>The table of mapped regions\<close>

definition mmio_ok :: "ocxl_afu \<Rightarrow> bool" where
  "mmio_ok a \<longleftrightarrow> table_ok (mmios a) (mmio_count a) (mmio_max_count a)"

text \<open>The next growth must not pass the range of the 16 bit counter.\<close>

definition mmio_room :: "ocxl_afu \<Rightarrow> bool" where
  "mmio_room a \<longleftrightarrow> (mmio_count a = mmio_max_count a \<longrightarrow> unat (mmio_max_count a) < 32768)"

definition live_regions :: "ocxl_afu \<Rightarrow> nat \<rightharpoonup> ocxl_mmio_area" where
  "live_regions a i =
     (if i < unat (mmio_count a) then
        (case buf_cells (mmios a) ! i of
           Obj m \<Rightarrow> if mm_start m = 0 then None else Some m
         | _ \<Rightarrow> None)
      else None)"

definition free_slot :: "ocxl_afu \<Rightarrow> nat option" where
  "free_slot a = List.find (\<lambda>i. live_regions a i = None) [0..<unat (mmio_count a)]"

lemma wp_mmios_at:
  "i < length (buf_cells (mmios (cur_afu s))) \<Longrightarrow> buf_cells (mmios (cur_afu s)) ! i = Obj m \<Longrightarrow>
   wp (mmios_at i) Q s = Q m s"
  by (simp add: mmios_at_def wp_simps)

lemma wp_mmios_put:
  "i < length (buf_cells (mmios (cur_afu s))) \<Longrightarrow>
   wp (mmios_put i m) Q s =
     Q () (s\<lparr>cur_afu := (cur_afu s)\<lparr>mmios := buf_update i m (mmios (cur_afu s))\<rparr>\<rparr>)"
  by (simp add: mmios_put_def wp_simps)

lemma wp_find_available:
  assumes ok: "mmio_ok (cur_afu s)" and "set is \<subseteq> {..<unat (mmio_count (cur_afu s))}"
  shows "wp (find_available is) Q s =
    Q (List.find (\<lambda>i. live_regions (cur_afu s) i = None) is) s"
  using assms(2)
proof (induction "is")
  case Nil
  then show ?case by (simp add: wp_simps)
next
  case (Cons i "is")
  then have i: "i < unat (mmio_count (cur_afu s))" by simp
  with table_ok_cell ok obtain m where
    m: "i < length (buf_cells (mmios (cur_afu s)))" "buf_cells (mmios (cur_afu s)) ! i = Obj m"
    unfolding mmio_ok_def by blast
  with i have "live_regions (cur_afu s) i = None \<longleftrightarrow> mm_start m = 0"
    by (simp add: live_regions_def)
  with Cons show ?case by (simp add: wp_simps wp_mmios_at [OF m])
qed

text \<open>Two AFUs that differ at most in the region array and its counters.\<close>

definition no_mmios :: "ocxl_afu \<Rightarrow> ocxl_afu" where
  "no_mmios a = a\<lparr>mmios := NullBuf, mmio_count := 0, mmio_max_count := 0\<rparr>"

lemma no_mmios_upd [simp]:
  "no_mmios (a\<lparr>mmios := b\<rparr>) = no_mmios a"
  "no_mmios (a\<lparr>mmio_count := c\<rparr>) = no_mmios a"
  "no_mmios (a\<lparr>mmio_max_count := c\<rparr>) = no_mmios a"
  by (simp_all add: no_mmios_def)

lemma no_mmios_field:
  assumes "no_mmios a = no_mmios a'"
  shows "afu_block a = afu_block a'"
  using arg_cong [OF assms, of afu_block] by (simp add: no_mmios_def)

definition new_area :: "ocxl_afu \<Rightarrow> u64 \<Rightarrow> u64 \<Rightarrow> ocxl_mmio_type \<Rightarrow> ocxl_mmio_area" where
  "new_area a addr sz ty =
     \<lparr>mm_start = addr, mm_length = sz, mm_type = ty, mm_afu = Some (afu_block a)\<rparr>"

lemma new_area_upd [simp]:
  "new_area (a\<lparr>mmio_count := c\<rparr>) = new_area a"
  "new_area (a\<lparr>mmios := b\<rparr>) = new_area a"
  "new_area (a\<lparr>mmio_max_count := c\<rparr>) = new_area a"
  by (simp_all add: new_area_def fun_eq_iff)

lemma mm_start_new_area [simp]: "mm_start (new_area a addr sz ty) = addr"
  by (simp add: new_area_def)

text \<open>What reserving slot \<open>i\<close> gives: the slot was not in use, every other element is as it was,
  and the array moves only when it had to grow.\<close>

definition slot_post :: "'w st \<Rightarrow> ocxl_err + nat \<Rightarrow> 'w st \<Rightarrow> bool" where
  "slot_post s r s' \<longleftrightarrow>
     (let a = cur_afu s; a' = cur_afu s'; keeps = (free_slot a \<noteq> None \<or> mmio_count a \<noteq> mmio_max_count a) in
      no_mmios a' = no_mmios a \<and> glb s' = glb s \<and> ub s' = ub s \<and>
      (\<forall>r. balance (calls s') r - block_owned (mmios a') r =
         balance (calls s) r - block_owned (mmios a) r) \<and>
      (keeps \<longrightarrow> calls s' = calls s) \<and>
      (case r of
         Inl rc \<Rightarrow> rc = OCXL_NO_MEM \<and> \<not> keeps \<and> a' = a
       | Inr i \<Rightarrow>
           (case free_slot a of Some j \<Rightarrow> j | None \<Rightarrow> unat (mmio_count a)) = i \<and>
           live_regions a i = None \<and> i < unat (mmio_count a') \<and>
           unat (mmio_count a') \<le> Suc (unat (mmio_count a)) \<and>
           length (buf_cells (mmios a')) = unat (mmio_max_count a') \<and>
           mmio_count a' \<le> mmio_max_count a' \<and>
           (\<forall>j. j \<noteq> i \<longrightarrow> j < unat (mmio_count a') \<longleftrightarrow> j < unat (mmio_count a)) \<and>
           (\<forall>j < unat (mmio_count a). buf_cells (mmios a') ! j = buf_cells (mmios a) ! j) \<and>
           (keeps \<longrightarrow> buf_block (mmios a') = buf_block (mmios a))))"

lemma free_slot_Some:
  assumes "free_slot a = Some i"
  shows "i < unat (mmio_count a) \<and> live_regions a i = None"
  using assms by (auto simp: free_slot_def find_Some_iff)

lemma live_regions_at_count: "live_regions a (unat (mmio_count a)) = None"
  by (simp add: live_regions_def)

lemma wp_free_slot:
  assumes "mmio_ok (cur_afu s)"
  shows "wp (find_available [0..<unat (mmio_count (cur_afu s))]) Q s = Q (free_slot (cur_afu s)) s"
  by (subst wp_find_available [OF assms]) (auto simp: free_slot_def)

lemma slot_reuse:
  assumes ok: "mmio_ok (cur_afu s)" and fs: "free_slot (cur_afu s) = Some i"
  shows "wp (mmio_slot K) (slot_post s) s"
  using ok fs free_slot_Some [OF fs]
  by (simp add: mmio_slot_def wp_simps wp_free_slot slot_post_def mmio_ok_def
      table_ok_def)

lemma slot_append:
  assumes ok: "mmio_ok (cur_afu s)" and fs: "free_slot (cur_afu s) = None"
    and space: "mmio_count (cur_afu s) \<noteq> mmio_max_count (cur_afu s)"
  shows "wp (mmio_slot K) (slot_post s) s"
  using ok fs space table_ok_space [OF ok [unfolded mmio_ok_def] space]
    table_ok_push [OF ok [unfolded mmio_ok_def] space]
  by (auto simp add: mmio_slot_def wp_simps wp_free_slot slot_post_def mmio_ok_def
      table_ok_def live_regions_at_count Let_def)

lemma slot_grown:
  assumes ok: "mmio_ok a" and fs: "free_slot a = None"
    and full: "mmio_count a = mmio_max_count a" and room: "unat (mmio_max_count a) < 32768"
    and a: "cur_afu s = a"
    and g: "grow_post K (mmios a) (mmio_max_count a) sizeof_mmio_area INITIAL_MMIO_COUNT s
       (rc, b', m') s'"
  shows "if rc = OCXL_OK
    then slot_post s (Inr (unat (mmio_count a))) (s'\<lparr>cur_afu :=
      a\<lparr>mmios := b', mmio_max_count := m', mmio_count := mmio_count a + 1\<rparr>\<rparr>)
    else slot_post s (Inl rc) (errmsg_state ThisAFU rc msg []
      (s'\<lparr>cur_afu := a\<lparr>mmios := b', mmio_max_count := m'\<rparr>\<rparr>))"
proof (cases "rc = OCXL_OK")
  case True
  have "table_ok (mmios a) (mmio_max_count a) (mmio_max_count a)"
    using ok full by (simp add: mmio_ok_def)
  from table_ok_grow [OF this room _ _ g [unfolded True]] full
  have t': "table_ok b' (mmio_count a) m'" "mmio_count a \<noteq> m'"
    and keep: "\<forall>j < unat (mmio_count a). buf_cells b' ! j = buf_cells (mmios a) ! j"
    by (auto simp: INITIAL_MMIO_COUNT_def)
  have "glb s' = glb s" "ub s' = ub s" using g by (simp_all add: grow_post_def)
  then show ?thesis
    using True a fs full t' keep table_ok_space [OF t'] table_ok_push [OF t']
      live_regions_at_count [of a] grow_balance [OF g]
    by (auto simp: slot_post_def table_ok_def)
next
  case False
  with g a ok fs full grow_balance [OF g] show ?thesis
    by (auto simp: grow_post_def slot_post_def split: option.splits)
qed

lemma slot_grow:
  assumes ok: "mmio_ok (cur_afu s)" and fs: "free_slot (cur_afu s) = None"
    and full: "mmio_count (cur_afu s) = mmio_max_count (cur_afu s)"
    and room: "unat (mmio_max_count (cur_afu s)) < 32768"
  shows "wp (mmio_slot K) (slot_post s) s"
  unfolding mmio_slot_def wp_bind wp_afu_get wp_free_slot [OF ok] fs option.case
  apply (simp add: full wp_simps)
  apply (rule wp_mono [OF grow_buffer_spec])
  subgoal for r s'
    using slot_grown [OF ok fs full room refl, of K "fst r" "fst (snd r)" "snd (snd r)" s' "''Could not grow MMIO buffer''"]
    by (auto simp: wp_simps wp_call full grow_post_def split: prod.splits if_splits)
  done

lemma slot_spec:
  assumes "mmio_ok (cur_afu s)" "mmio_room (cur_afu s)"
  shows "wp (mmio_slot K) (slot_post s) s"
proof (cases "free_slot (cur_afu s)")
  case None
  with assms show ?thesis
    by (cases "mmio_count (cur_afu s) = mmio_max_count (cur_afu s)")
      (simp_all add: mmio_room_def slot_grow slot_append)
qed (simp add: assms slot_reuse)

text \<open>Registering: the reserved slot is written.\<close>

definition register_post ::
  "u64 \<Rightarrow> u64 \<Rightarrow> ocxl_mmio_type \<Rightarrow> 'w st \<Rightarrow> ocxl_err \<times> ocxl_mmio_h \<Rightarrow> 'w st \<Rightarrow> bool" where
  "register_post addr sz ty s r s' \<longleftrightarrow>
     (let a = cur_afu s; a' = cur_afu s'; keeps = (free_slot a \<noteq> None \<or> mmio_count a \<noteq> mmio_max_count a) in
      mmio_ok a' \<and> no_mmios a' = no_mmios a \<and> glb s' = glb s \<and> ub s' = ub s \<and>
      (\<forall>r. balance (calls s') r - block_owned (mmios a') r =
         balance (calls s) r - block_owned (mmios a) r) \<and>
      (keeps \<longrightarrow> calls s' = calls s) \<and>
      (case r of
         (rc, None) \<Rightarrow> rc = OCXL_NO_MEM \<and> \<not> keeps \<and> a' = a
       | (rc, Some (b, i)) \<Rightarrow> rc = OCXL_OK \<and> buf_block (mmios a') = Some b \<and>
           (case free_slot a of Some j \<Rightarrow> j | None \<Rightarrow> unat (mmio_count a)) = i \<and>
           live_regions a i = None \<and> mmio_deref a' (b, i) = Some (new_area a addr sz ty) \<and>
           i < unat (mmio_count a') \<and> unat (mmio_count a') \<le> Suc (unat (mmio_count a)) \<and>
           live_regions a' = (live_regions a)(i := if addr = 0 then None else Some (new_area a addr sz ty)) \<and>
           (keeps \<longrightarrow> buf_block (mmios a') = buf_block (mmios a))))"

lemma live_regions_write:
  assumes "i < unat (mmio_count a')" "buf_cells (mmios a') ! i = Obj m"
    and "\<And>j. j \<noteq> i \<Longrightarrow> j < unat (mmio_count a') \<longleftrightarrow> j < unat (mmio_count a)"
    and "\<And>j. j \<noteq> i \<Longrightarrow> j < unat (mmio_count a) \<Longrightarrow> buf_cells (mmios a') ! j = buf_cells (mmios a) ! j"
  shows "live_regions a' = (live_regions a)(i := if mm_start m = 0 then None else Some m)"
  using assms by (auto simp: live_regions_def fun_eq_iff)

lemma table_ok_fill:
  assumes "length (buf_cells b) = unat m" "c \<le> m" "i < unat c"
    and "\<And>j. j < unat c \<Longrightarrow> j \<noteq> i \<Longrightarrow> \<exists>x. buf_cells b ! j = Obj x"
  shows "table_ok (buf_update i x b) c m"
  using assms by (auto simp: table_ok_def nth_list_update word_le_nat_alt)

lemma mmio_deref_iff:
  "mmio_deref a (b, i) = Some m \<longleftrightarrow>
     buf_block (mmios a) = Some b \<and> i < length (buf_cells (mmios a)) \<and> buf_cells (mmios a) ! i = Obj m"
  by (cases "mmios a") (auto simp: mmio_deref_def split: cell.splits)

lemma register_fill:
  assumes ok: "mmio_ok (cur_afu s)" and sl: "slot_post s (Inr i) s'"
    and m: "m = new_area (cur_afu s) addr sz ty"
    and s'': "s'' = s'\<lparr>cur_afu := (cur_afu s')\<lparr>mmios := buf_update i m (mmios (cur_afu s'))\<rparr>\<rparr>"
  shows "i < length (buf_cells (mmios (cur_afu s'))) \<and> register_post addr sz ty s
    (OCXL_OK, map_option (\<lambda>b. (b, i)) (buf_block (mmios (cur_afu s')))) s''"
proof -
  let ?a = "cur_afu s" and ?a' = "cur_afu s'" and ?a'' = "cur_afu s''"
  have il: "i < length (buf_cells (mmios ?a'))"
    and others: "\<And>j. j \<noteq> i \<Longrightarrow> j < unat (mmio_count ?a') \<longleftrightarrow> j < unat (mmio_count ?a)"
    and cells: "\<And>j. j < unat (mmio_count ?a) \<Longrightarrow> buf_cells (mmios ?a') ! j = buf_cells (mmios ?a) ! j"
    and cap: "length (buf_cells (mmios ?a')) = unat (mmio_max_count ?a')"
      "mmio_count ?a' \<le> mmio_max_count ?a'" "i < unat (mmio_count ?a')"
    using sl by (auto simp: slot_post_def Let_def word_le_nat_alt)
  from il obtain b where b: "buf_block (mmios ?a') = Some b" by (cases "mmios ?a'") auto
  have old: "\<exists>x. buf_cells (mmios ?a) ! j = Obj x" if "j < unat (mmio_count ?a)" for j
    using ok that by (simp add: mmio_ok_def table_ok_def)
  have "table_ok (buf_update i m (mmios ?a')) (mmio_count ?a') (mmio_max_count ?a')"
    using cap others cells old by (intro table_ok_fill) auto
  then have ok'': "mmio_ok ?a''" by (simp add: mmio_ok_def s'')
  have live: "live_regions ?a'' = (live_regions ?a)(i := if mm_start m = 0 then None else Some m)"
    using il others cells cap by (intro live_regions_write) (auto simp: s'')
  have "mmio_deref ?a'' (b, i) = Some m" using b il by (simp add: mmio_deref_iff s'')
  with il b live ok'' sl show ?thesis
    by (simp add: register_post_def slot_post_def Let_def s'' m)
qed

lemma register_post_trace [simp]:
  "register_post addr sz ty s r (trace_state bl file line func fmt args s') =
   register_post addr sz ty s r s'"
  by (simp add: register_post_def)

lemma register_spec:
  assumes ok: "mmio_ok (cur_afu s)" "mmio_room (cur_afu s)"
  shows "wp (register_mmio K addr sz ty) (register_post addr sz ty s) s"
  unfolding register_mmio_def wp_bind
proof (rule wp_mono [OF slot_spec [OF ok]])
  fix r s' assume sl: "slot_post s r s'"
  show "wp (case r of Inl rc \<Rightarrow> State_Monad.return (rc, None)
      | Inr i \<Rightarrow> do {
          self \<leftarrow> afu_get afu_block;
          mmios_put i \<lparr>mm_start = addr, mm_length = sz, mm_type = ty, mm_afu = Some self\<rparr>;
          blk \<leftarrow> afu_get (\<lambda>a. buf_block (mmios a));
          TRACE ''src/mmio.c'' 86 ''register_mmio'' ''Mapped %ld bytes of %s MMIO at %p''
            [FInt (sint sz), FStr (type_name ty), FPtr addr];
          State_Monad.return (OCXL_OK, map_option (\<lambda>b. (b, i)) blk)
        }) (register_post addr sz ty s) s'"
  proof (cases r)
    case (Inl rc)
    with sl ok show ?thesis
      by (auto simp: wp_simps slot_post_def register_post_def Let_def)
  next
    case (Inr i)
    have "\<lparr>mm_start = addr, mm_length = sz, mm_type = ty, mm_afu = Some (afu_block (cur_afu s'))\<rparr> =
        new_area (cur_afu s) addr sz ty"
      using sl no_mmios_field [of "cur_afu s'" "cur_afu s"] by (simp add: slot_post_def Let_def new_area_def)
    with register_fill [OF ok(1) sl [unfolded Inr] refl refl] Inr show ?thesis
      by (simp add: wp_simps wp_call wp_mmios_put)
  qed
qed

section \<open>Unmapping\<close>

definition unmap_post :: "block \<times> nat \<Rightarrow> ocxl_mmio_area \<Rightarrow> 'w st \<Rightarrow> 'w st \<Rightarrow> bool" where
  "unmap_post h m s s' \<longleftrightarrow>
     (let a = cur_afu s; a' = cur_afu s' in
      mmio_ok a' \<and> no_mmios a' = no_mmios a \<and> glb s' = glb s \<and> ub s' = ub s \<and> outs s' = outs s \<and>
      mmio_count a' = mmio_count a \<and> mmio_max_count a' = mmio_max_count a \<and>
      buf_block (mmios a') = buf_block (mmios a) \<and>
      live_regions a' = (live_regions a)(snd h := None) \<and>
      mmio_deref a' h = Some (m\<lparr>mm_start := 0\<rparr>) \<and>
      calls s' = calls s @ (if mm_start m = 0 then [] else [CMunmap (mm_start m) (mm_length m)]))"

lemma live_regions_deref:
  assumes "mmio_deref a (b, i) = Some m" "i < unat (mmio_count a)"
  shows "live_regions a i = (if mm_start m = 0 then None else Some m)"
  using assms by (simp add: live_regions_def mmio_deref_iff)

lemma unmap_spec:
  assumes ok: "mmio_ok (cur_afu s)" and d: "mmio_deref (cur_afu s) h = Some m"
    and i: "snd h < unat (mmio_count (cur_afu s))"
  shows "wp (ocxl_mmio_unmap K h) (\<lambda>_. unmap_post h m s) s"
proof -
  obtain b j where h: "h = (b, j)" by (cases h)
  let ?a = "cur_afu s"
  let ?m = "m\<lparr>mm_start := 0\<rparr>"
  let ?a' = "?a\<lparr>mmios := buf_update j ?m (mmios ?a)\<rparr>"
  from d h have b: "buf_block (mmios ?a) = Some b" "j < length (buf_cells (mmios ?a))"
    by (auto simp: mmio_deref_iff)
  have old: "live_regions ?a j = (if mm_start m = 0 then None else Some m)"
    using live_regions_deref d h i by simp
  have ok': "mmio_ok ?a'" using ok i h by (simp add: mmio_ok_def table_ok_update)
  have live: "live_regions ?a' = (live_regions ?a)(j := if mm_start ?m = 0 then None else Some ?m)"
    using i h b by (intro live_regions_write) auto
  have deref: "mmio_deref ?a' (b, j) = Some ?m" using b by (simp add: mmio_deref_iff)
  show ?thesis
  proof (cases "mm_start m = 0")
    case True
    then have "m\<lparr>mm_start := 0\<rparr> = m" by simp
    with True ok d i old h show ?thesis
      by (auto simp: ocxl_mmio_unmap_def wp_simps wp_region_at unmap_post_def Let_def)
  next
    case False
    with ok' live deref h b d show ?thesis
      by (simp add: ocxl_mmio_unmap_def wp_simps wp_call wp_region_at wp_mmios_put
          unmap_post_def Let_def split: prod.splits)
  qed
qed

section \<open>Mapping\<close>

text \<open>Without \<open>MAP_FIXED\<close>, \<open>mmap\<close> does not place a mapping at address 0.\<close>

lemma mm_length_new_area [simp]: "mm_length (new_area a addr sz ty) = sz"
  by (simp add: new_area_def)

definition mmap_nonnull :: "'w platform \<Rightarrow> bool" where
  "mmap_nonnull K \<longleftrightarrow> (\<forall>len prot d off w. fst (os_mmap K len prot d off w) \<noteq> 0)"

text \<open>How many live regions are the resource \<open>r\<close>, and the excess of the call record over the
  live regions and the block of the array.\<close>

definition region_owned :: "(nat \<rightharpoonup> ocxl_mmio_area) \<Rightarrow> resource \<Rightarrow> int" where
  "region_owned L r = int (card {i. \<exists>m. L i = Some m \<and> r = RMap (mm_start m) (mm_length m)})"

definition mapping_debt :: "'w st \<Rightarrow> resource \<Rightarrow> int" where
  "mapping_debt s r = balance (calls s) r - region_owned (live_regions (cur_afu s)) r -
     block_owned (mmios (cur_afu s)) r"

lemma finite_live: "finite (dom (live_regions a))"
  by (rule finite_subset [of _ "{..<unat (mmio_count a)}"])
    (auto simp: live_regions_def split: if_splits)

lemma region_owned_empty [simp]: "region_owned Map.empty r = 0"
  by (simp add: region_owned_def)

lemma region_owned_upd:
  assumes "finite (dom L)" "L i = None"
  shows "region_owned (L(i \<mapsto> m)) r = region_owned L r + of_bool (r = RMap (mm_start m) (mm_length m))"
proof -
  let ?S = "{i. \<exists>m. L i = Some m \<and> r = RMap (mm_start m) (mm_length m)}"
  have fin: "finite ?S" by (rule finite_subset [OF _ assms(1)]) auto
  have "{j. \<exists>m'. (L(i \<mapsto> m)) j = Some m' \<and> r = RMap (mm_start m') (mm_length m')} =
      (if r = RMap (mm_start m) (mm_length m) then insert i ?S else ?S)"
    using assms(2) by auto
  moreover have "card (insert i ?S) = Suc (card ?S)"
    using assms(2) by (intro card_insert_disjoint [OF fin]) simp
  ultimately show ?thesis by (simp only: region_owned_def split: if_split) simp
qed

lemma region_owned_remove:
  assumes "finite (dom L)" "L i = Some m"
  shows "region_owned (L(i := None)) r = region_owned L r - of_bool (r = RMap (mm_start m) (mm_length m))"
  using region_owned_upd [of "L(i := None)" i m r] assms by (simp add: fun_upd_idem)

definition map_post ::
  "u64 \<Rightarrow> ocxl_mmio_type \<Rightarrow> 'w st \<Rightarrow> ocxl_err \<times> ocxl_mmio_h \<Rightarrow> 'w st \<Rightarrow> bool" where
  "map_post sz ty s r s' \<longleftrightarrow>
     (let a = cur_afu s; a' = cur_afu s' in
      mmio_ok a' \<and> no_mmios a' = no_mmios a \<and> glb s' = glb s \<and> ub s' = ub s \<and>
      mapping_debt s' = mapping_debt s \<and>
      (case r of
         (rc, None) \<Rightarrow> rc \<noteq> OCXL_OK \<and> a' = a
       | (rc, Some (b, i)) \<Rightarrow> rc = OCXL_OK \<and> live_regions a i = None \<and>
           i < unat (mmio_count a') \<and> unat (mmio_count a') \<le> Suc (unat (mmio_count a)) \<and>
           (free_slot a \<noteq> None \<or> mmio_count a \<noteq> mmio_max_count a \<longrightarrow>
              buf_block (mmios a') = buf_block (mmios a)) \<and>
           (\<exists>addr. addr \<noteq> MAP_FAILED \<and> addr \<noteq> 0 \<and>
              mmio_deref a' (b, i) = Some (new_area a addr sz ty) \<and>
              live_regions a' = (live_regions a)(i \<mapsto> new_area a addr sz ty))))"

text \<open>A call that fails before anything is mapped.\<close>

lemma map_post_refused:
  assumes "mmio_ok (cur_afu s)" "rc \<noteq> OCXL_OK" "cur_afu s' = cur_afu s" "glb s' = glb s"
    "ub s' = ub s" "calls s' = calls s"
  shows "map_post sz ty s (rc, None) s'"
  using assms by (simp add: map_post_def mapping_debt_def fun_eq_iff)

lemma map_post_failed:
  assumes "mmio_ok (cur_afu s)" "rc \<noteq> OCXL_OK" "cur_afu s' = cur_afu s" "glb s' = glb s"
    "ub s' = ub s" "calls s' = calls s @ [CMmap sz prot d off MAP_FAILED]"
  shows "map_post sz ty s (rc, None) s'"
  using assms by (simp add: map_post_def mapping_debt_def fun_eq_iff effect_def)

text \<open>After a successful \<open>mmap\<close> the region is registered, or the mapping is undone.\<close>

lemma register_map_post:
  assumes r: "register_post addr sz ty (s\<lparr>wld := w, calls := calls s @ [CMmap sz prot d off addr]\<rparr>)
      (rc, h) s'"
    and addr: "addr \<noteq> 0" "addr \<noteq> MAP_FAILED" and ok: "mmio_ok (cur_afu s)"
  shows "if rc = OCXL_OK then map_post sz ty s (rc, h) s'
    else (\<forall>msg args w. map_post sz ty s (rc, None)
      ((errmsg_state ThisAFU rc msg args s')\<lparr>wld := w, calls := calls s' @ [CMunmap addr sz]\<rparr>))"
proof -
  let ?a = "cur_afu s" and ?a' = "cur_afu s'"
  have bal: "balance (calls s') x - block_owned (mmios ?a') x =
      balance (calls s) x + of_bool (x = RMap addr sz) - block_owned (mmios ?a) x" for x
    using r addr by (auto simp: register_post_def Let_def effect_def)
  show ?thesis
  proof (cases h)
    case None
    with r have "rc = OCXL_NO_MEM" "?a' = ?a" by (auto simp: register_post_def Let_def)
    with r None ok addr bal show ?thesis
      by (auto simp: register_post_def map_post_def mapping_debt_def fun_eq_iff effect_def Let_def)
  next
    case (Some bi)
    obtain b i where bi: "bi = (b, i)" by (cases bi)
    let ?m = "new_area ?a addr sz ty"
    from r Some bi addr have live: "live_regions ?a' = (live_regions ?a)(i \<mapsto> ?m)"
      and free: "live_regions ?a i = None" and "rc = OCXL_OK"
      by (auto simp: register_post_def Let_def)
    moreover have "mapping_debt s' x = mapping_debt s x" for x
      using region_owned_upd [OF finite_live free, of ?m x] bal [of x] live
      by (auto simp: mapping_debt_def)
    ultimately show ?thesis
      using r Some bi addr by (auto simp: register_post_def map_post_def Let_def)
  qed
qed

definition mmio_pre :: "ocxl_afu \<Rightarrow> bool" where
  "mmio_pre a \<longleftrightarrow> mmio_ok a \<and> mmio_room a"

lemma register_after_mmap:
  assumes "mmio_pre (cur_afu s)" "mmap_nonnull K" "os_mmap K sz prot d off (wld s) = (addr, w)"
    and "addr \<noteq> MAP_FAILED"
  shows "wp (register_mmio K addr sz ty) (\<lambda>(rc, h) s'. if rc = OCXL_OK then map_post sz ty s (rc, h) s'
    else (\<forall>msg args w. map_post sz ty s (rc, None)
      ((errmsg_state ThisAFU rc msg args s')\<lparr>wld := w, calls := calls s' @ [CMunmap addr sz]\<rparr>)))
    (s\<lparr>wld := w, calls := calls s @ [CMmap sz prot d off addr]\<rparr>)"
proof -
  have "addr \<noteq> 0" using assms(2,3) unfolding mmap_nonnull_def by (metis fst_conv)
  with assms show ?thesis
    by (intro wp_mono [OF register_spec]) (auto simp: mmio_pre_def dest!: register_map_post)
qed

lemma global_map_spec:
  assumes "mmio_pre (cur_afu s)" "mmap_nonnull K"
  shows "wp (global_mmio_map K sz prot flags off) (map_post sz OCXL_GLOBAL_MMIO s) s"
proof -
  have ok: "mmio_ok (cur_afu s)" using assms(1) by (simp add: mmio_pre_def)
  show ?thesis
    unfolding global_mmio_map_def
    by (auto simp: wp_simps wp_call Let_def map_post_refused [OF ok] map_post_failed [OF ok]
        split: prod.splits intro!: wp_mono [OF register_after_mmap [OF assms]])
qed

lemma pasid_map_spec:
  assumes "mmio_pre (cur_afu s)" "mmap_nonnull K"
  shows "wp (mmio_map K sz prot flags off) (map_post sz OCXL_PER_PASID_MMIO s) s"
proof -
  have ok: "mmio_ok (cur_afu s)" using assms(1) by (simp add: mmio_pre_def)
  show ?thesis
    unfolding mmio_map_def
    by (auto simp: wp_simps wp_call Let_def map_post_refused [OF ok] map_post_failed [OF ok]
        split: prod.splits intro!: wp_mono [OF register_after_mmap [OF assms]])
qed

definition map_size :: "ocxl_afu \<Rightarrow> ocxl_mmio_type \<Rightarrow> u64 \<Rightarrow> u64 \<Rightarrow> u64" where
  "map_size a ty sz off = (if sz = 0 then mmio_length a ty - off else sz)"

lemma map_advanced_spec:
  assumes "mmio_pre (cur_afu s)" "mmap_nonnull K"
  shows "wp (ocxl_mmio_map_advanced K ty sz prot flags off)
    (map_post (map_size (cur_afu s) ty sz off) ty s) s"
proof -
  have ok: "mmio_ok (cur_afu s)" using assms(1) by (simp add: mmio_pre_def)
  show ?thesis
    by (cases ty)
      (auto simp: ocxl_mmio_map_advanced_def map_size_def wp_simps wp_call Let_def
        map_post_refused [OF ok] global_map_spec [OF assms] pasid_map_spec [OF assms])
qed

section \<open>The region array as a handle table\<close>

record map_request =
  rq_type :: ocxl_mmio_type
  rq_size :: u64
  rq_prot :: int
  rq_flags :: u64
  rq_offset :: u64

definition mmio_add :: "'w platform \<Rightarrow> map_request \<Rightarrow> 'w st \<Rightarrow> nat option \<times> 'w st" where
  "mmio_add K q s =
     (case run_state (ocxl_mmio_map_advanced K (rq_type q) (rq_size q) (rq_prot q) (rq_flags q)
        (rq_offset q)) s of ((rc, h), s') \<Rightarrow> (map_option snd h, s'))"

definition mmio_remove :: "'w platform \<Rightarrow> nat \<Rightarrow> 'w st \<Rightarrow> 'w st" where
  "mmio_remove K i s =
     (case buf_block (mmios (cur_afu s)) of
        None \<Rightarrow> s
      | Some b \<Rightarrow> snd (run_state (ocxl_mmio_unmap K (b, i)) s))"

definition mmio_inv :: "'w platform \<Rightarrow> 'w st \<Rightarrow> bool" where
  "mmio_inv K s \<longleftrightarrow> mmap_nonnull K \<and> mmio_ok (cur_afu s)"

definition mmio_used :: "'w st \<Rightarrow> nat" where
  "mmio_used s = unat (mmio_count (cur_afu s))"

definition mmio_live :: "'w st \<Rightarrow> nat \<rightharpoonup> ocxl_mmio_area" where
  "mmio_live s = live_regions (cur_afu s)"

definition mmio_stores :: "map_request \<Rightarrow> ocxl_mmio_area \<Rightarrow> bool" where
  "mmio_stores q m \<longleftrightarrow> mm_type m = rq_type q \<and> mm_start m \<noteq> 0 \<and>
     (rq_size q \<noteq> 0 \<longrightarrow> mm_length m = rq_size q)"

definition table_limit :: nat where "table_limit = 32768"

lemma mmio_add_post:
  assumes "mmio_inv K s" "mmio_used s < table_limit" "mmio_add K q s = (h, s')"
  shows "\<exists>rc hh. map_option snd hh = h \<and>
    map_post (map_size (cur_afu s) (rq_type q) (rq_size q) (rq_offset q)) (rq_type q) s (rc, hh) s'"
proof -
  have pre: "mmio_pre (cur_afu s)" "mmap_nonnull K"
    using assms by (auto simp: mmio_pre_def mmio_inv_def mmio_used_def mmio_room_def table_limit_def)
  show ?thesis
    using map_advanced_spec [OF pre, of "rq_type q" "rq_size q" "rq_prot q" "rq_flags q" "rq_offset q"]
      assms(3)
    by (auto simp: wp_iff mmio_add_def split: prod.splits)
qed

lemma mmio_add_keeps:
  assumes "mmio_inv K s" "mmio_used s < table_limit"
  shows "mmio_inv K (snd (mmio_add K q s)) \<and> mmio_used (snd (mmio_add K q s)) \<le> Suc (mmio_used s)"
proof -
  obtain h s' where a: "mmio_add K q s = (h, s')" by (cases "mmio_add K q s")
  from mmio_add_post [OF assms a] assms show ?thesis
    by (auto simp: a map_post_def Let_def mmio_inv_def mmio_used_def split: option.splits)
qed

lemma mmio_add_Some:
  assumes "mmio_inv K s" "mmio_used s < table_limit" "mmio_add K q s = (Some i, s')"
  shows "mmio_live s i = None \<and> (\<exists>m. mmio_stores q m \<and> mmio_live s' = (mmio_live s)(i \<mapsto> m))"
proof -
  let ?sz = "map_size (cur_afu s) (rq_type q) (rq_size q) (rq_offset q)"
  from mmio_add_post [OF assms] obtain rc b where
    "map_post ?sz (rq_type q) s (rc, Some (b, i)) s'" by auto
  then obtain addr where "live_regions (cur_afu s) i = None" "addr \<noteq> 0"
    "live_regions (cur_afu s') = (live_regions (cur_afu s))(i \<mapsto> new_area (cur_afu s) addr ?sz (rq_type q))"
    by (auto simp: map_post_def Let_def)
  moreover have "mmio_stores q (new_area (cur_afu s) addr ?sz (rq_type q))"
    using \<open>addr \<noteq> 0\<close> by (simp add: mmio_stores_def new_area_def map_size_def)
  ultimately show ?thesis by (auto simp: mmio_live_def)
qed

lemma mmio_add_None:
  assumes "mmio_inv K s" "mmio_used s < table_limit" "mmio_add K q s = (None, s')"
  shows "mmio_live s' = mmio_live s"
  using mmio_add_post [OF assms] by (auto simp: map_post_def Let_def mmio_live_def)

lemma mmio_remove_post:
  assumes "mmio_inv K s" "mmio_live s i \<noteq> None"
  shows "\<exists>b m. unmap_post (b, i) m s (mmio_remove K i s)"
proof -
  have i: "i < unat (mmio_count (cur_afu s))"
    using assms(2) by (auto simp: mmio_live_def live_regions_def split: if_splits)
  with assms(1) table_ok_cell obtain m where
    m: "i < length (buf_cells (mmios (cur_afu s)))" "buf_cells (mmios (cur_afu s)) ! i = Obj m"
    unfolding mmio_inv_def mmio_ok_def by blast
  then obtain b where b: "buf_block (mmios (cur_afu s)) = Some b" by (cases "mmios (cur_afu s)") auto
  with m have "mmio_deref (cur_afu s) (b, i) = Some m" by (simp add: mmio_deref_iff)
  then have "wp (ocxl_mmio_unmap K (b, i)) (\<lambda>_. unmap_post (b, i) m s) s"
    using i assms(1) by (intro unmap_spec) (simp_all add: mmio_inv_def)
  then show ?thesis by (auto simp: wp_iff mmio_remove_def b)
qed

lemma mmio_remove_laws:
  assumes "mmio_inv K s" "mmio_live s i \<noteq> None"
  shows "mmio_inv K (mmio_remove K i s)" "mmio_used (mmio_remove K i s) = mmio_used s"
    "mmio_live (mmio_remove K i s) = (mmio_live s)(i := None)"
  using mmio_remove_post [OF assms] assms(1)
  by (auto simp: unmap_post_def Let_def mmio_inv_def mmio_used_def mmio_live_def)

interpretation mm: removable_table "mmio_inv K" mmio_used table_limit mmio_live "mmio_add K"
  mmio_stores "mmio_remove K" for K :: "'w platform"
  by unfold_locales
    (auto simp: mmio_add_keeps mmio_remove_laws dest: mmio_add_Some mmio_add_None)

section \<open>Properties\<close>

lemma demo_mapped_deref: "mmio_deref (cur_afu demo_mapped) (50, 0) = Some demo_region"
  by (simp add: demo_mapped_def demo_state_def mmio_deref_def)

definition access_result :: "ocxl_mmio_area \<Rightarrow> u64 \<Rightarrow> nat \<Rightarrow> ocxl_err" where
  "access_result m offset n =
     (if mm_start m = 0 then OCXL_INVALID_ARGS
      else if unat offset + n \<le> unat (mm_length m) then OCXL_OK else OCXL_OUT_OF_BOUNDS)"

lemma access_ok_size:
  assumes "uint (mm_length m) < 2 ^ 63" "0 \<le> sint offset"
  shows "access_ok m offset 4 \<longleftrightarrow> unat offset + 4 \<le> unat (mm_length m)"
    "access_ok m offset 8 \<longleftrightarrow> unat offset + 8 \<le> unat (mm_length m)"
  using access_ok_iff [OF assms(1) _ _ assms(2), of 4] access_ok_iff [OF assms(1) _ _ assms(2), of 8]
  by simp_all

text \<open>An access that the check refuses touches nothing.\<close>

definition refused :: "'w st \<Rightarrow> 'w st \<Rightarrow> bool" where
  "refused s s' \<longleftrightarrow> calls s' = calls s \<and> wld s' = wld s \<and> cur_afu s' = cur_afu s \<and>
     glb s' = glb s \<and> ub s' = ub s"

lemma mmio_check_refused:
  assumes "mmio_deref (cur_afu s) h = Some m" "uint (mm_length m) < 2 ^ 63" "0 \<le> sint offset"
    and "mm_start m = 0 \<or> \<not> access_ok m offset sz"
  shows "wp (mmio_check (Some h) offset sz) (\<lambda>rc s'. refused s s' \<and>
    rc = (if mm_start m = 0 then OCXL_INVALID_ARGS else OCXL_OUT_OF_BOUNDS)) s"
  using assms by (auto simp: mmio_check_def wp_simps wp_call wp_region_at refused_def access_ok_def)

lemma native_refused:
  assumes "wp (mmio_check region offset sz) (\<lambda>rc s'. refused s s' \<and> rc = e) s" "e \<noteq> OCXL_OK"
  shows "sz = 4 \<Longrightarrow> wp (mmio_read32_native K region offset) (\<lambda>r s'. fst r = e \<and> refused s s') s"
    "sz = 8 \<Longrightarrow> wp (mmio_read64_native K region offset) (\<lambda>r s'. fst r = e \<and> refused s s') s"
    "sz = 4 \<Longrightarrow> wp (mmio_write32_native K region offset v) (\<lambda>r s'. r = e \<and> refused s s') s"
    "sz = 8 \<Longrightarrow> wp (mmio_write64_native K region offset v') (\<lambda>r s'. r = e \<and> refused s s') s"
  using assms
  by (auto simp: mmio_read32_native_def mmio_read64_native_def mmio_write32_native_def
      mmio_write64_native_def wp_simps elim!: wp_mono)

lemma write_refused:
  assumes "mmio_deref (cur_afu s) h = Some m" "uint (mm_length m) < 2 ^ 63" "0 \<le> sint offset"
  shows "access_result m offset 4 \<noteq> OCXL_OK \<Longrightarrow> wp (ocxl_mmio_write32 K (Some h) offset e v)
      (\<lambda>rc s'. rc = access_result m offset 4 \<and> refused s s') s"
    "access_result m offset 8 \<noteq> OCXL_OK \<Longrightarrow> wp (ocxl_mmio_write64 K (Some h) offset e v')
      (\<lambda>rc s'. rc = access_result m offset 8 \<and> refused s s') s"
  unfolding ocxl_mmio_write32_def ocxl_mmio_write64_def
  by (rule native_refused, rule wp_mono [OF mmio_check_refused [OF assms]],
      auto simp: access_result_def access_ok_size [OF assms(2,3)] split: if_splits)+

lemma read_refused:
  assumes "mmio_deref (cur_afu s) h = Some m" "uint (mm_length m) < 2 ^ 63" "0 \<le> sint offset"
  shows "access_result m offset 4 \<noteq> OCXL_OK \<Longrightarrow> wp (ocxl_mmio_read32 K (Some h) offset e)
      (\<lambda>r s'. r = (access_result m offset 4, None) \<and> refused s s') s"
    "access_result m offset 8 \<noteq> OCXL_OK \<Longrightarrow> wp (ocxl_mmio_read64 K (Some h) offset e)
      (\<lambda>r s'. r = (access_result m offset 8, None) \<and> refused s s') s"
  unfolding ocxl_mmio_read32_def ocxl_mmio_read64_def wp_bind
  by (rule wp_mono, rule native_refused, rule wp_mono [OF mmio_check_refused [OF assms]],
      auto simp: access_result_def access_ok_size [OF assms(2,3)] wp_simps split: if_splits)+

lemma access_result_pre:
  assumes "mmio_deref (cur_afu s) h = Some m" "uint (mm_length m) < 2 ^ 63" "0 \<le> sint offset"
  shows "access_result m offset 4 = OCXL_OK \<longleftrightarrow> access_pre s h m offset 4"
    "access_result m offset 8 = OCXL_OK \<longleftrightarrow> access_pre s h m offset 8"
  using assms by (simp_all add: access_result_def access_pre_def access_ok_size)

text \<open>C13: for a handle of the region array and a non-negative offset, the 32 and 64 bit writes
  store exactly when the whole access lies inside a mapped region, at \<open>start + offset\<close>
  and in the byte order asked for; otherwise they return \<open>OCXL_INVALID_ARGS\<close> (unmapped) or
  \<open>OCXL_OUT_OF_BOUNDS\<close> and touch nothing.\<close>

theorem mmio_write_in_bounds:
  assumes "mmio_deref (cur_afu s) h = Some m" "uint (mm_length m) < 2 ^ 63" "0 \<le> sint offset"
  shows "wp (ocxl_mmio_write32 K (Some h) offset e v) (\<lambda>rc s'. rc = access_result m offset 4 \<and>
      (if rc = OCXL_OK then accessed s (os_store K (mm_start m + offset) (encode32 K e v) (wld s))
         (CStore (mm_start m + offset) (encode32 K e v)) s' else refused s s')) s \<and>
    wp (ocxl_mmio_write64 K (Some h) offset e v') (\<lambda>rc s'. rc = access_result m offset 8 \<and>
      (if rc = OCXL_OK then accessed s (os_store K (mm_start m + offset) (encode64 K e v') (wld s))
         (CStore (mm_start m + offset) (encode64 K e v')) s' else refused s s')) s"
  (is "wp ?w32 ?Q32 s \<and> wp ?w64 ?Q64 s")
proof
  show "wp ?w32 ?Q32 s"
    using wp_mono [OF write_refused(1) [OF assms, of K e v]]
      wp_mono [OF write32_wp [of s h m offset K e v]] access_result_pre(1) [OF assms]
    by (cases "access_result m offset 4 = OCXL_OK") auto
  show "wp ?w64 ?Q64 s"
    using wp_mono [OF write_refused(2) [OF assms, of K e v']]
      wp_mono [OF write64_wp [of s h m offset K e v']] access_result_pre(2) [OF assms]
    by (cases "access_result m offset 8 = OCXL_OK") auto
qed

theorem mmio_write_in_bounds_witness:
  "wp (ocxl_mmio_write32 demo (Some (50, 0)) 0xFFC OCXL_MMIO_BIG_ENDIAN 0x01020304) (\<lambda>rc s'.
      rc = OCXL_OK \<and> calls s' = [CStore 0x300FFC [1, 2, 3, 4]]) demo_mapped \<and>
   wp (ocxl_mmio_write64 demo (Some (50, 0)) 0xFF9 OCXL_MMIO_BIG_ENDIAN 5) (\<lambda>rc s'.
      rc = OCXL_OUT_OF_BOUNDS \<and> calls s' = []) demo_mapped"
proof -
  note d = demo_mapped_deref
  have b: "bytes_le 4 (0x01020304 :: u32) = [4, 3, 2, 1]" by code_simp
  have "wp (ocxl_mmio_write32 demo (Some (50, 0)) 0xFFC OCXL_MMIO_BIG_ENDIAN 0x01020304) (\<lambda>rc s'.
      rc = OCXL_OK \<and> calls s' = [CStore 0x300FFC [1, 2, 3, 4]]) demo_mapped"
    by (rule wp_mono [OF mmio_write_in_bounds [OF d, THEN conjunct1]])
      (auto simp: demo_region_def access_result_def accessed_def encode32_def b demo_mapped_def
        demo_state_def)
  moreover have "wp (ocxl_mmio_write64 demo (Some (50, 0)) 0xFF9 OCXL_MMIO_BIG_ENDIAN 5) (\<lambda>rc s'.
      rc = OCXL_OUT_OF_BOUNDS \<and> calls s' = []) demo_mapped"
    by (rule wp_mono [OF mmio_write_in_bounds [OF d, THEN conjunct2]])
      (auto simp: demo_region_def access_result_def refused_def demo_mapped_def demo_state_def)
  ultimately show ?thesis by blast
qed

text \<open>C14: for a handle of the region array and a non-negative offset, the reads load exactly when
  the whole access lies inside a mapped region and return the bytes of the device decoded in
  the byte order asked for; otherwise they report the error, leave the caller's variable
  alone and touch nothing.\<close>

theorem mmio_read_in_bounds:
  assumes "mmio_deref (cur_afu s) h = Some m" "uint (mm_length m) < 2 ^ 63" "0 \<le> sint offset"
    and "os_load K (mm_start m + offset) 4 (wld s) = (bs, w)" "length bs = 4"
    and "os_load K (mm_start m + offset) 8 (wld s) = (bs', w')" "length bs' = 8"
  shows "wp (ocxl_mmio_read32 K (Some h) offset e) (\<lambda>(rc, out) s'. rc = access_result m offset 4 \<and>
      (if rc = OCXL_OK then out = Some (decode32 K e bs) \<and> accessed s w (CLoad (mm_start m + offset) 4) s'
       else out = None \<and> refused s s')) s \<and>
    wp (ocxl_mmio_read64 K (Some h) offset e) (\<lambda>(rc, out) s'. rc = access_result m offset 8 \<and>
      (if rc = OCXL_OK then out = Some (decode64 K e bs') \<and> accessed s w' (CLoad (mm_start m + offset) 8) s'
       else out = None \<and> refused s s')) s"
  (is "wp ?r32 ?Q32 s \<and> wp ?r64 ?Q64 s")
proof
  show "wp ?r32 ?Q32 s"
    using wp_mono [OF read_refused(1) [OF assms(1-3), of K e]]
      wp_mono [OF read32_wp [of s h m offset K bs w e]] access_result_pre(1) [OF assms(1-3)] assms
    by (cases "access_result m offset 4 = OCXL_OK") auto
  show "wp ?r64 ?Q64 s"
    using wp_mono [OF read_refused(2) [OF assms(1-3), of K e]]
      wp_mono [OF read64_wp [of s h m offset K bs' w' e]] access_result_pre(2) [OF assms(1-3)] assms
    by (cases "access_result m offset 8 = OCXL_OK") auto
qed

theorem mmio_read_in_bounds_witness:
  "wp (ocxl_mmio_read64 demo (Some (50, 0)) 8 OCXL_MMIO_HOST_ENDIAN) (\<lambda>r s'.
      r = (OCXL_OK, Some 0) \<and> calls s' = [CLoad 0x300008 8]) demo_mapped"
proof -
  note d = demo_mapped_deref
  have l: "os_load demo a n (wld demo_mapped) = (replicate n 0, wld demo_mapped)" for a n
    by (simp add: demo_load_def demo_mapped_def demo_state_def demo_world_def map_replicate_const)
  have z: "decode64 demo OCXL_MMIO_HOST_ENDIAN (replicate 8 0) = 0"
    by (simp add: decode64_def native_word_def eval_nat_numeral)
  show ?thesis
    by (rule wp_mono [OF mmio_read_in_bounds [OF d _ _ l _ l, THEN conjunct2]])
      (auto simp: demo_region_def access_result_def accessed_def z demo_mapped_def demo_state_def)
qed

text \<open>The behaviour of plain memory behind a mapping.\<close>

definition memory_like :: "'w platform \<Rightarrow> bool" where
  "memory_like K \<longleftrightarrow> (\<forall>a bs w. length bs \<le> 8 \<longrightarrow>
     fst (os_load K a (length bs) (os_store K a bs w)) = bs)"

lemma memory_likeD: "memory_like K \<Longrightarrow> length bs \<le> 8 \<Longrightarrow> fst (os_load K a (length bs) (os_store K a bs w)) = bs"
  by (simp add: memory_like_def)

lemma write_read32:
  assumes "memory_like K" "access_pre s h m offset 4"
  shows "wp (do { rc \<leftarrow> ocxl_mmio_write32 K (Some h) offset e v; ocxl_mmio_read32 K (Some h) offset e })
     (\<lambda>r s'. r = (OCXL_OK, Some v) \<and> ub s' = ub s \<and> cur_afu s' = cur_afu s) s"
  unfolding wp_bind
proof (rule wp_mono [OF write32_wp [OF assms(2), of K e v]], clarify)
  fix s1
  assume a: "accessed s (os_store K (mm_start m + offset) (encode32 K e v) (wld s))
    (CStore (mm_start m + offset) (encode32 K e v)) s1"
  obtain bs w where l: "os_load K (mm_start m + offset) 4 (wld s1) = (bs, w)" by fastforce
  have "fst (os_load K (mm_start m + offset) 4 (wld s1)) = encode32 K e v"
    using memory_likeD [OF assms(1), of "encode32 K e v" "mm_start m + offset" "wld s"] a by (simp add: accessed_def)
  with l have "bs = encode32 K e v" by simp
  moreover have "access_pre s1 h m offset 4"
    using assms(2) a by (simp add: access_pre_def accessed_def)
  ultimately show "wp (ocxl_mmio_read32 K (Some h) offset e)
      (\<lambda>r s'. r = (OCXL_OK, Some v) \<and> ub s' = ub s \<and> cur_afu s' = cur_afu s) s1"
    using a by (intro wp_mono [OF read32_wp [OF _ l]]) (auto simp: decode_encode accessed_def)
qed

lemma write_read64:
  assumes "memory_like K" "access_pre s h m offset 8"
  shows "wp (do { rc \<leftarrow> ocxl_mmio_write64 K (Some h) offset e v; ocxl_mmio_read64 K (Some h) offset e })
     (\<lambda>r s'. r = (OCXL_OK, Some v) \<and> ub s' = ub s \<and> cur_afu s' = cur_afu s) s"
  unfolding wp_bind
proof (rule wp_mono [OF write64_wp [OF assms(2), of K e v]], clarify)
  fix s1
  assume a: "accessed s (os_store K (mm_start m + offset) (encode64 K e v) (wld s))
    (CStore (mm_start m + offset) (encode64 K e v)) s1"
  obtain bs w where l: "os_load K (mm_start m + offset) 8 (wld s1) = (bs, w)" by fastforce
  have "fst (os_load K (mm_start m + offset) 8 (wld s1)) = encode64 K e v"
    using memory_likeD [OF assms(1), of "encode64 K e v" "mm_start m + offset" "wld s"] a by (simp add: accessed_def)
  with l have "bs = encode64 K e v" by simp
  moreover have "access_pre s1 h m offset 8"
    using assms(2) a by (simp add: access_pre_def accessed_def)
  ultimately show "wp (ocxl_mmio_read64 K (Some h) offset e)
      (\<lambda>r s'. r = (OCXL_OK, Some v) \<and> ub s' = ub s \<and> cur_afu s' = cur_afu s) s1"
    using a by (intro wp_mono [OF read64_wp [OF _ l]]) (auto simp: decode_encode accessed_def)
qed

text \<open>C24: where the device register behaves like memory, a value written with a byte order and
  read back with the same byte order is the value written, in 32 bits and in 64, on either kind of
  host.\<close>

theorem mmio_write_read_roundtrip:
  assumes "memory_like K" "access_pre s h m offset 4" "access_pre s h m offset' 8"
  shows "wp (do { rc \<leftarrow> ocxl_mmio_write32 K (Some h) offset e v; ocxl_mmio_read32 K (Some h) offset e })
       (\<lambda>r s'. r = (OCXL_OK, Some v) \<and> ub s' = ub s \<and> cur_afu s' = cur_afu s) s \<and>
     wp (do { rc \<leftarrow> ocxl_mmio_write64 K (Some h) offset' e v'; ocxl_mmio_read64 K (Some h) offset' e })
       (\<lambda>r s'. r = (OCXL_OK, Some v') \<and> ub s' = ub s \<and> cur_afu s' = cur_afu s) s"
  using write_read32 [OF assms(1,2)] write_read64 [OF assms(1,3)] by blast

theorem mmio_write_read_roundtrip_witness:
  "wp (do { rc \<leftarrow> ocxl_mmio_write32 demo (Some (50, 0)) 12 OCXL_MMIO_BIG_ENDIAN 0x12345678;
            ocxl_mmio_read32 demo (Some (50, 0)) 12 OCXL_MMIO_BIG_ENDIAN })
     (\<lambda>r s'. r = (OCXL_OK, Some 0x12345678) \<and> ub s' = []) demo_mapped \<and>
   wp (do { rc \<leftarrow> ocxl_mmio_write64 demo (Some (50, 0)) 16 OCXL_MMIO_BIG_ENDIAN 0x1234;
            ocxl_mmio_read64 demo (Some (50, 0)) 16 OCXL_MMIO_BIG_ENDIAN })
     (\<lambda>r s'. r = (OCXL_OK, Some 0x1234) \<and> ub s' = []) demo_mapped"
proof -
  have laws: "memory_like demo" by (simp add: memory_like_def demo_load_store)
  have "access_pre demo_mapped (50, 0) demo_region 12 4" "access_pre demo_mapped (50, 0) demo_region 16 8"
    by (simp_all add: access_pre_def demo_mapped_def demo_state_def demo_region_def mmio_deref_def
        access_ok_def)
  note both = mmio_write_read_roundtrip [OF laws this, of OCXL_MMIO_BIG_ENDIAN]
  show ?thesis
    using both [THEN conjunct1, of "0x12345678"] both [THEN conjunct2, of "0x1234"]
    by (auto simp: demo_mapped_def demo_state_def elim!: wp_mono)
qed

lemma mmap_nonnull_demo: "mmap_nonnull demo"
proof -
  have "(x AND 0x00FFFFFFFFFFFFFF) OR 0x10000 \<noteq> 0" for x :: u64
  proof
    assume "(x AND 0x00FFFFFFFFFFFFFF) OR 0x10000 = 0"
    then have "bit ((x AND 0x00FFFFFFFFFFFFFF) OR 0x10000) 16 = bit (0 :: u64) 16" by simp
    then show False by (simp add: bit_simps)
  qed
  then show ?thesis by (simp add: mmap_nonnull_def demo_map_addr_def)
qed

lemma demo_mapped_ok: "mmio_ok (cur_afu demo_mapped)" "mmio_room (cur_afu demo_mapped)"
  by (simp_all add: mmio_ok_def mmio_room_def table_ok_def demo_mapped_def demo_state_def)

text \<open>C25: mapping a region either succeeds with a handle whose slot was not in use, that
  dereferences to a region of the requested type and the effective size, leaving every other
  live region as it was; or fails with an error, changing nothing of the AFU. In both cases
  the outstanding mappings of the call record are the live regions plus what was outstanding
  before: no mapping leaks when the region cannot be registered.\<close>

theorem mmio_map_contract:
  assumes "mmio_ok (cur_afu s)" "mmio_room (cur_afu s)" "mmap_nonnull K"
  shows "wp (ocxl_mmio_map_advanced K ty sz prot flags off) (\<lambda>(rc, h) s'.
     mmio_ok (cur_afu s') \<and> ub s' = ub s \<and> mapping_debt s' = mapping_debt s \<and>
     (case h of
        None \<Rightarrow> rc \<noteq> OCXL_OK \<and> cur_afu s' = cur_afu s
      | Some (b, i) \<Rightarrow> rc = OCXL_OK \<and> live_regions (cur_afu s) i = None \<and>
          (\<exists>m. mmio_deref (cur_afu s') (b, i) = Some m \<and> mm_start m \<noteq> 0 \<and> mm_type m = ty \<and>
             mm_length m = map_size (cur_afu s) ty sz off \<and>
             live_regions (cur_afu s') = (live_regions (cur_afu s))(i \<mapsto> m)))) s"
proof -
  have "mmio_pre (cur_afu s)" using assms by (simp add: mmio_pre_def)
  then show ?thesis
    by (rule wp_mono [OF map_advanced_spec [OF _ assms(3)]])
      (force simp: map_post_def Let_def new_area_def split: option.splits)
qed

theorem mmio_map_contract_witness:
  "wp (ocxl_mmio_map_advanced demo OCXL_PER_PASID_MMIO 0 3 0 0) (\<lambda>(rc, h) s'.
     ub s' = [] \<and> (rc = OCXL_OK \<longrightarrow> h \<noteq> None)) demo_mapped"
  by (rule wp_mono [OF mmio_map_contract [OF demo_mapped_ok mmap_nonnull_demo]])
    (auto simp: demo_mapped_def demo_state_def split: option.splits)

text \<open>C26: a mapping that is granted lies inside the AFU's MMIO area, as long as the offset does
  not pass the end of the area and offset and size do not wrap around 64 bits.\<close>

theorem mmio_map_in_range:
  assumes "unat off + unat sz < 2 ^ 64" "off \<le> mmio_length (cur_afu s) ty"
  shows "wp (ocxl_mmio_map_advanced K ty sz prot flags off) (\<lambda>(rc, h) s'.
     rc = OCXL_OK \<longrightarrow>
       unat off + unat (map_size (cur_afu s) ty sz off) \<le> unat (mmio_length (cur_afu s) ty)) s"
proof -
  let ?len = "mmio_length (cur_afu s) ty" and ?sz = "map_size (cur_afu s) ty sz off"
  have "unat off + unat ?sz < 2 ^ 64"
    using assms unat_u64_less [of ?len]
    by (auto simp: map_size_def word_le_nat_alt unat_sub)
  then have "unat (off + ?sz) = unat off + unat ?sz" by (simp add: unat_word_ariths)
  then have in_range: "unat off + unat ?sz \<le> unat ?len" if "\<not> ?len < off + ?sz"
    using that by (simp add: word_less_nat_alt)
  show ?thesis
  proof (cases "?len < off + ?sz")
    case True
    then show ?thesis
      by (auto simp: ocxl_mmio_map_advanced_def map_size_def wp_simps wp_call Let_def
          split: ocxl_mmio_type.split)
  next
    case False
    with in_range show ?thesis by (simp add: wp_iff split: prod.splits)
  qed
qed

theorem mmio_map_in_range_witness:
  "wp (ocxl_mmio_map_advanced demo OCXL_PER_PASID_MMIO 256 3 0 1024) (\<lambda>(rc, h) s'.
     rc = OCXL_OK \<longrightarrow>
       unat (1024 :: u64) + unat (map_size (cur_afu demo_mapped) OCXL_PER_PASID_MMIO 256 1024) \<le> 4096)
   demo_mapped"
proof -
  have l: "mmio_length (cur_afu demo_mapped) OCXL_PER_PASID_MMIO = 4096"
    by (simp add: mmio_length_def demo_mapped_def demo_state_def demo_afu_def demo_area_def)
  show ?thesis
    using mmio_map_in_range [of 1024 256 demo_mapped OCXL_PER_PASID_MMIO demo 3 0]
    by (simp add: l)
qed

text \<open>With a size of 0 the range check is void: for any offset beyond the end of the area
  the size wraps around, the sum is the length of the area again, and a mapping of nearly
  \<open>2 ^ 64\<close> bytes is requested from the kernel.\<close>

lemma mmio_map_default_size_wraps:
  assumes "mm_length (global_mmio (cur_afu s)) < off" "mm_length (global_mmio (cur_afu s)) \<noteq> 0"
    and "os_mmap K (mm_length (global_mmio (cur_afu s)) - off) prot (global_mmio_fd (cur_afu s)) off
      (wld s) = (MAP_FAILED, w)"
  shows "wp (ocxl_mmio_map_advanced K OCXL_GLOBAL_MMIO 0 prot 0 off) (\<lambda>(rc, h) s'.
     calls s' = calls s @ [CMmap (mm_length (global_mmio (cur_afu s)) - off) prot
        (global_mmio_fd (cur_afu s)) off MAP_FAILED] \<and>
     unat (mm_length (global_mmio (cur_afu s)) - off) =
        2 ^ 64 - (unat off - unat (mm_length (global_mmio (cur_afu s))))) s"
proof -
  let ?len = "mm_length (global_mmio (cur_afu s))"
  have "unat (?len - off) = 2 ^ 64 - (unat off - unat ?len)"
    using assms(1) unat_u64_less [of off]
    by (simp add: unat_sub_if' word_less_nat_alt)
  with assms(2,3) show ?thesis
    by (simp add: ocxl_mmio_map_advanced_def global_mmio_map_def mmio_length_def wp_simps wp_call Let_def)
qed

lemma mmio_map_default_size_wraps_witness:
  "wp (ocxl_mmio_map_advanced (demo\<lparr>os_mmap := (\<lambda>len prot d off w. (MAP_FAILED, w))\<rparr>)
       OCXL_GLOBAL_MMIO 0 3 0 8193) (\<lambda>(rc, h) s'.
     calls s' = [CMmap (- 1) 3 6 8193 MAP_FAILED]) demo_mapped"
proof -
  have l: "mm_length (global_mmio (cur_afu demo_mapped)) = 8192" "global_mmio_fd (cur_afu demo_mapped) = 6"
    "calls demo_mapped = []"
    by (simp_all add: demo_mapped_def demo_state_def demo_afu_def demo_area_def)
  show ?thesis
    by (rule wp_mono [OF mmio_map_default_size_wraps]) (simp_all add: l split: prod.splits)
qed

text \<open>Unmapping through a valid handle removes exactly that region, unmaps it once, and is
  idempotent: a second call through the same handle does nothing, and a later access through
  it is refused with \<open>OCXL_INVALID_ARGS\<close> without touching the device.\<close>

lemma mmio_unmap_contract:
  assumes "mmio_ok (cur_afu s)" "mmio_deref (cur_afu s) h = Some m" "mm_start m \<noteq> 0"
    and "snd h < unat (mmio_count (cur_afu s))"
  shows "wp (do { ocxl_mmio_unmap K h; ocxl_mmio_unmap K h; ocxl_mmio_write64 K (Some h) off e v })
     (\<lambda>rc s'. rc = OCXL_INVALID_ARGS \<and> mmio_ok (cur_afu s') \<and> ub s' = ub s \<and>
        live_regions (cur_afu s') = (live_regions (cur_afu s))(snd h := None) \<and>
        calls s' = calls s @ [CMunmap (mm_start m) (mm_length m)]) s"
proof -
  let ?m = "m\<lparr>mm_start := 0\<rparr>"
  have again: "wp (do { ocxl_mmio_unmap K h; ocxl_mmio_write64 K (Some h) off e v })
      (\<lambda>rc s'. rc = OCXL_INVALID_ARGS \<and> refused s1 s') s1"
    if "mmio_deref (cur_afu s1) h = Some ?m" for s1
    using that
    by (simp add: ocxl_mmio_unmap_def ocxl_mmio_write64_def mmio_write64_native_def mmio_check_def
        wp_simps wp_call wp_region_at refused_def)
  have first: "wp (ocxl_mmio_unmap K h) (\<lambda>_. unmap_post h m s) s"
    using assms unmap_spec by blast
  show ?thesis
    unfolding wp_bind [of "ocxl_mmio_unmap K h" "\<lambda>_. do { ocxl_mmio_unmap K h; ocxl_mmio_write64 K (Some h) off e v }"]
    by (rule wp_mono [OF first], rule wp_mono [OF again])
      (auto simp: unmap_post_def Let_def refused_def assms(3))
qed

lemma mmio_unmap_contract_witness:
  "wp (do { ocxl_mmio_unmap demo (50, 0); ocxl_mmio_unmap demo (50, 0);
            ocxl_mmio_write64 demo (Some (50, 0)) 0 OCXL_MMIO_HOST_ENDIAN 1 })
     (\<lambda>rc s'. rc = OCXL_INVALID_ARGS \<and> calls s' = [CMunmap 0x300000 4096]) demo_mapped"
  by (rule wp_mono [OF mmio_unmap_contract [OF demo_mapped_ok(1) demo_mapped_deref]])
    (simp_all add: demo_region_def demo_mapped_def demo_state_def)

text \<open>The bounds check compares signed values and has no lower bound: a write at a negative
  offset is accepted and stores below the start of the region.\<close>

lemma mmio_negative_offset_accepted:
  assumes "mmio_deref (cur_afu s) h = Some m" "mm_start m \<noteq> 0" "sint offset < 0"
    and "8 \<le> uint (mm_length m)" "uint (mm_length m) < 2 ^ 63" "- sint offset \<le> uint (mm_start m)"
  shows "wp (ocxl_mmio_write64 K (Some h) offset e v) (\<lambda>rc s'. rc = OCXL_OK \<and>
      (\<exists>a. calls s' = calls s @ [CStore a (encode64 K e v)] \<and>
         uint a = uint (mm_start m) + sint offset \<and> a < mm_start m)) s"
proof -
  have "sint (mm_length m - (8 - 1)) = uint (mm_length m) - 8 + 1"
    using sint_limit [OF assms(5), of 8] by simp
  with assms have pre: "access_pre s h m offset 8"
    by (simp add: access_pre_def access_ok_def)
  have u: "uint (mm_start m + offset) = uint (mm_start m) + sint offset"
  proof -
    have "uint offset = sint offset mod 2 ^ 64"
      by (simp add: uint_sint take_bit_eq_mod)
    then have "uint (mm_start m + offset) = (uint (mm_start m) + sint offset) mod 2 ^ 64"
      by (simp add: uint_word_ariths(1) mod_add_right_eq)
    also have "\<dots> = uint (mm_start m) + sint offset"
      using assms(3,6) uint_bounded [of "mm_start m"] by (intro mod_pos_pos_trivial) simp_all
    finally show ?thesis .
  qed
  then have "mm_start m + offset < mm_start m" using assms(3) by (simp add: word_less_def)
  with u show ?thesis
    by (intro wp_mono [OF write64_wp [OF pre, of K e v]]) (auto simp: accessed_def)
qed

lemma mmio_negative_offset_accepted_witness:
  "wp (ocxl_mmio_write64 demo (Some (50, 0)) (- 8) OCXL_MMIO_HOST_ENDIAN 1) (\<lambda>rc s'.
     rc = OCXL_OK \<and> (\<exists>a. a < 0x300000 \<and> (\<exists>bs. calls s' = [CStore a bs]))) demo_mapped"
  by (rule wp_mono [OF mmio_negative_offset_accepted [OF demo_mapped_deref]])
    (auto simp: demo_region_def demo_mapped_def demo_state_def)

text \<open>A sequence of mapping requests, with the slot each of them got.\<close>

primrec mmio_adds :: "'w platform \<Rightarrow> map_request list \<Rightarrow> 'w st \<Rightarrow> nat option list \<times> 'w st" where
  "mmio_adds K [] s = ([], s)"
| "mmio_adds K (q # qs) s =
     (let (h, s1) = mmio_add K q s; (hs, s2) = mmio_adds K qs s1 in (h # hs, s2))"

definition granted :: "nat option list \<Rightarrow> nat list" where
  "granted hs = concat (map (\<lambda>h. case h of None \<Rightarrow> [] | Some i \<Rightarrow> [i]) hs)"

lemma mmio_adds_eq: "mmio_adds K qs s = mm.adds K qs s"
  by (induction qs arbitrary: s) simp_all

lemma granted_eq: "granted = mm.given"
  by (rule ext) (simp add: granted_def mm.given_def)

text \<open>C27: any sequence of mapping requests that keeps the array within 32768 elements hands out
  pairwise different slots, none of which was live before, all of which are live afterwards,
  and leaves every region that was live before as it was.\<close>

theorem mmio_handles_distinct:
  assumes "mmap_nonnull K" "mmio_ok (cur_afu s)"
    and "unat (mmio_count (cur_afu s)) + length qs \<le> 32768" "mmio_adds K qs s = (hs, s')"
  shows "mmio_ok (cur_afu s') \<and> distinct (granted hs) \<and>
    (\<forall>i \<in> set (granted hs). live_regions (cur_afu s) i = None \<and> live_regions (cur_afu s') i \<noteq> None) \<and>
    (\<forall>i m. live_regions (cur_afu s) i = Some m \<longrightarrow> live_regions (cur_afu s') i = Some m)"
  using mm.adds_spec [of K s qs hs s'] assms
  by (auto simp: mmio_inv_def mmio_used_def mmio_live_def table_limit_def mmio_adds_eq granted_eq)

lemma mmio_ok_empty: "mmios a = NullBuf \<Longrightarrow> mmio_count a = 0 \<Longrightarrow> mmio_max_count a = 0 \<Longrightarrow> mmio_ok a"
  by (simp add: mmio_ok_def table_ok_def)

theorem mmio_handles_distinct_witness:
  "(let qs = replicate 5 \<lparr>rq_type = OCXL_PER_PASID_MMIO, rq_size = 64, rq_prot = 3, rq_flags = 0,
        rq_offset = 0\<rparr>
    in distinct (granted (fst (mmio_adds demo qs demo_mapped))))"
proof -
  let ?qs = "replicate 5 \<lparr>rq_type = OCXL_PER_PASID_MMIO, rq_size = 64, rq_prot = 3, rq_flags = 0,
    rq_offset = 0\<rparr>"
  obtain hs s' where r: "mmio_adds demo ?qs demo_mapped = (hs, s')" by fastforce
  have "unat (mmio_count (cur_afu demo_mapped)) + length ?qs \<le> 32768"
    by (simp add: demo_mapped_def demo_state_def)
  from mmio_handles_distinct [OF mmap_nonnull_demo demo_mapped_ok(1) this r] show ?thesis
    by (simp add: r)
qed

text \<open>C37: a handle is a pointer into the array. When the array is full and \<open>realloc\<close> moves
  it, every handle returned before dangles: the next access through one of them dereferences
  a freed element.\<close>

theorem mmio_growth_invalidates_handles:
  assumes "mmio_ok (cur_afu s)" "free_slot (cur_afu s) = None"
    and "mmio_count (cur_afu s) = mmio_max_count (cur_afu s)"
    and "unat (mmio_max_count (cur_afu s)) < 32768" "buf_block (mmios (cur_afu s)) = Some b"
    and "\<And>n w. fst (os_realloc K (Some b) n w) \<notin> {None, Some b}"
  shows "wp (do { r \<leftarrow> register_mmio K addr sz ty; mmio_check (Some (b, i)) off n })
     (\<lambda>rc s'. UB_dangling_pointer \<in> set (ub s')) s"
proof -
  let ?moved = "\<lambda>s'. buf_block (mmios (cur_afu s')) \<noteq> Some b"
  have grow: "wp (grow_buffer K (mmios (cur_afu s)) (mmio_max_count (cur_afu s)) sizeof_mmio_area
      INITIAL_MMIO_COUNT) (\<lambda>(rc, b', c) s'. rc = OCXL_OK \<and> buf_block b' \<noteq> Some b) s"
    by (rule grow_buffer_moves [OF assms(5,6)])
  have "wp (mmio_slot K) (\<lambda>r s'. ?moved s') s"
    unfolding mmio_slot_def wp_bind wp_afu_get wp_free_slot [OF assms(1)] assms(2) option.case
    by (simp add: assms(3) wp_simps) (rule wp_mono [OF grow], auto simp: wp_simps)
  then have reg: "wp (register_mmio K addr sz ty) (\<lambda>r s'. ?moved s') s"
    unfolding register_mmio_def wp_bind
    by (rule wp_mono) (auto simp: mmios_put_def wp_simps wp_call split: sum.splits)
  have chk: "wp (mmio_check (Some (b, i)) off n) (\<lambda>rc s'. UB_dangling_pointer \<in> set (ub s')) s'"
    if "?moved s'" for s' :: "'a st"
  proof -
    have "mmio_deref (cur_afu s') (b, i) = None"
      using that by (cases "mmios (cur_afu s')") (auto simp: mmio_deref_def)
    then show ?thesis by (simp add: mmio_check_def region_at_def wp_simps wp_call zero_area_def)
  qed
  show ?thesis unfolding wp_bind by (rule wp_mono [OF reg chk])
qed

text \<open>Four live regions fill the first allocation.\<close>

definition demo_full :: "demo_w st" where
  "demo_full = demo_mapped\<lparr>cur_afu := (cur_afu demo_mapped)\<lparr>
     mmios := Buf 50 (replicate 4 (Obj demo_region)), mmio_count := 4\<rparr>\<rparr>"

theorem mmio_growth_invalidates_handles_witness:
  "wp (do { r \<leftarrow> register_mmio (demo\<lparr>os_realloc := (\<lambda>b n w. (Some 51, w))\<rparr>) 0x400000 4096 OCXL_PER_PASID_MMIO;
            mmio_check (Some (50, 0)) 0 8 })
     (\<lambda>rc s'. UB_dangling_pointer \<in> set (ub s')) demo_full"
proof (rule mmio_growth_invalidates_handles)
  show "mmio_ok (cur_afu demo_full)"
    by (simp add: mmio_ok_def table_ok_def demo_full_def demo_mapped_def)
  show "free_slot (cur_afu demo_full) = None"
    by (simp add: free_slot_def find_None_iff live_regions_def demo_full_def demo_region_def)
qed (simp_all add: demo_full_def demo_mapped_def)

end
