(* ===== verification/Ocxl_Irq.thy ===== *)
theory Ocxl_Irq
  imports Ocxl_Mmio
begin

text \<open>
  \<open>src/src/irq.c\<close>: allocating and releasing interrupts, their handles and descriptors,
  reading events from the device descriptor, the event loop over epoll, and the thread id for
  the Power 9 wait instruction.

  A \<open>struct ocxl_irq\<close> is built up as a value and stored in its array element when the
  function that fills it returns; nothing else reads the element in between. The loop that
  drains the device descriptor may run for as long as the kernel has events; it takes fuel,
  and \<open>None\<close> is the result of a run that has not ended within it.
\<close>

section \<open>The interrupt array\<close>

definition zero_irq :: ocxl_irq where
  "zero_irq = \<lparr>irq_offset = 0, irq_eventfd = 0, irq_reserved = 0, irq_number = 0, irq_addr = 0,
     irq_info = 0, irq_fd_info = \<lparr>src_type = EPOLL_SOURCE_OCXL, src_irq = None\<rparr>\<rparr>"

text \<open>Reading and writing \<open>afu->irqs[i]\<close>.\<close>

definition irqs_at :: "nat \<Rightarrow> ('w, ocxl_irq) prog" where
  "irqs_at i = do {
     cs \<leftarrow> afu_get (\<lambda>a. buf_cells (irqs a));
     if i < length cs then
       (case cs ! i of
          Obj q \<Rightarrow> State_Monad.return q
        | Zeroed \<Rightarrow> State_Monad.return zero_irq
        | Indet \<Rightarrow> do { undefined_behaviour UB_indeterminate; State_Monad.return zero_irq })
     else do { undefined_behaviour UB_out_of_bounds; State_Monad.return zero_irq }
   }"

definition irqs_put :: "nat \<Rightarrow> ocxl_irq \<Rightarrow> ('w, unit) prog" where
  "irqs_put i q = do {
     cs \<leftarrow> afu_get (\<lambda>a. buf_cells (irqs a));
     if i < length cs then afu_set (\<lambda>a. a\<lparr>irqs := buf_update i q (irqs a)\<rparr>)
     else undefined_behaviour UB_out_of_bounds
   }"

text \<open>The struct behind a pointer that was taken to an element of the array.\<close>

definition irq_deref :: "ocxl_afu \<Rightarrow> block \<times> nat \<Rightarrow> ocxl_irq option" where
  "irq_deref a p =
     (case irqs a of
        NullBuf \<Rightarrow> None
      | Buf b cs \<Rightarrow>
          if fst p = b \<and> snd p < length cs
          then (case cs ! snd p of Obj q \<Rightarrow> Some q | _ \<Rightarrow> None) else None)"

definition irq_ptr :: "block \<times> nat \<Rightarrow> ('w, ocxl_irq) prog" where
  "irq_ptr p = do {
     r \<leftarrow> afu_get (\<lambda>a. irq_deref a p);
     (case r of
        Some q \<Rightarrow> State_Monad.return q
      | None \<Rightarrow> do { undefined_behaviour UB_dangling_pointer; State_Monad.return zero_irq })
   }"

section \<open>Allocation\<close>

definition irq_dealloc :: "'w platform \<Rightarrow> ocxl_irq \<Rightarrow> ('w, ocxl_irq) prog" where
  "irq_dealloc K irq = do {
     d \<leftarrow> afu_get afu_fd;
     ps \<leftarrow> afu_get page_size;
     irq \<leftarrow> (if irq_addr irq \<noteq> 0 then do {
         r \<leftarrow> do_munmap K (irq_addr irq) ps;
         whenM (r \<noteq> 0) (do {
           e \<leftarrow> errno K;
           errmsg ThisAFU OCXL_INTERNAL_ERROR (''Could not unmap IRQ page: %d: '%s'' @ squote)
             [FInt e, FStr (os_strerror K e)]
         });
         State_Monad.return (irq\<lparr>irq_addr := 0\<rparr>)
       } else State_Monad.return irq);
     irq \<leftarrow> (if irq_offset irq \<noteq> 0 then do {
         rc \<leftarrow> do_irq_free K d (irq_offset irq);
         whenM (rc \<noteq> 0)
           (errmsg ThisAFU OCXL_INTERNAL_ERROR ''Could not free IRQ in kernel: %d'' [FInt rc]);
         State_Monad.return (irq\<lparr>irq_offset := 0\<rparr>)
       } else State_Monad.return irq);
     irq \<leftarrow> (if irq_eventfd irq \<ge> 0 then do {
         do_close K (irq_eventfd irq);
         State_Monad.return (irq\<lparr>irq_eventfd := - 1\<rparr>)
       } else State_Monad.return irq);
     State_Monad.return (irq\<lparr>irq_info := 0\<rparr>)
   }"

text \<open>The statements before the first call (lines 95 to 102).\<close>

definition irq_start :: "block \<times> nat \<Rightarrow> u64 \<Rightarrow> ocxl_irq" where
  "irq_start self info =
     \<lparr>irq_offset = 0, irq_eventfd = - 1, irq_reserved = 0, irq_number = 0xFFFF, irq_addr = 0,
      irq_info = info, irq_fd_info = \<lparr>src_type = EPOLL_SOURCE_IRQ, src_irq = Some self\<rparr>\<rparr>"

text \<open>The calls of \<open>irq_allocate\<close> up to its label \<open>errend\<close>; \<open>False\<close> is the jump to it.\<close>

definition irq_setup :: "'w platform \<Rightarrow> block \<times> nat \<Rightarrow> u64 \<Rightarrow> ('w, bool \<times> ocxl_irq) prog" where
  "irq_setup K self info = do {
     let irq = irq_start self info;
     d \<leftarrow> afu_get afu_fd;
     ps \<leftarrow> afu_get page_size;
     ep \<leftarrow> afu_get epoll_fd;
     e \<leftarrow> do_eventfd K;
     if e < 0 then do {
       n \<leftarrow> errno K;
       errmsg ThisAFU OCXL_INTERNAL_ERROR (''Could not open eventfd : %d: '%s'' @ squote)
         [FInt n, FStr (os_strerror K n)];
       State_Monad.return (False, irq)
     } else do {
       let irq = irq\<lparr>irq_eventfd := e\<rparr>;
       (rc, off) \<leftarrow> do_irq_alloc K d;
       let irq = (case off of None \<Rightarrow> irq | Some x \<Rightarrow> irq\<lparr>irq_offset := x\<rparr>);
       if rc \<noteq> 0 then do {
         n \<leftarrow> errno K;
         errmsg ThisAFU OCXL_INTERNAL_ERROR (''Could not allocate IRQ in kernel: %d: '%s'' @ squote)
           [FInt n, FStr (os_strerror K n)];
         State_Monad.return (False, irq)
       } else do {
         rc \<leftarrow> do_irq_set_fd K d (irq_offset irq) (irq_eventfd irq) (irq_reserved irq);
         if rc \<noteq> 0 then do {
           n \<leftarrow> errno K;
           errmsg ThisAFU OCXL_INTERNAL_ERROR
             (''Could not set event descriptor in kernel: %d: '%s'' @ squote)
             [FInt n, FStr (os_strerror K n)];
           State_Monad.return (False, irq)
         } else do {
           addr \<leftarrow> do_mmap K ps PROT_WRITE d (irq_offset irq);
           let irq = irq\<lparr>irq_addr := addr\<rparr>;
           if addr = MAP_FAILED then do {
             n \<leftarrow> errno K;
             errmsg ThisAFU OCXL_INTERNAL_ERROR (''mmap for IRQ failed: %d: '%s'' @ squote)
               [FInt n, FStr (os_strerror K n)];
             State_Monad.return (False, irq)
           } else do {
             r \<leftarrow> do_epoll_add K ep (irq_eventfd irq) (IrqInfo (fst self) (snd self));
             if r = - 1 then do {
               n \<leftarrow> errno K;
               errmsg ThisAFU OCXL_INTERNAL_ERROR
                 (''Could not add IRQ fd %d to epoll fd %d: %d: '%s'' @ squote)
                 [FInt (irq_eventfd irq), FInt ep, FInt n, FStr (os_strerror K n)];
               State_Monad.return (False, irq)
             } else State_Monad.return (True, irq)
           }
         }
       }
     }
   }"

definition irq_allocate ::
  "'w platform \<Rightarrow> block \<times> nat \<Rightarrow> u64 \<Rightarrow> ('w, ocxl_err \<times> ocxl_irq) prog" where
  "irq_allocate K self info = do {
     (good, irq) \<leftarrow> irq_setup K self info;
     if good then State_Monad.return (OCXL_OK, irq)
     else do {
       irq \<leftarrow> irq_dealloc K irq;
       State_Monad.return (OCXL_INTERNAL_ERROR, irq)
     }
   }"

text \<open>Lines 166 to 172: a full array is grown.\<close>

definition irq_reserve :: "'w platform \<Rightarrow> ('w, ocxl_err) prog" where
  "irq_reserve K = do {
     count \<leftarrow> afu_get irq_count;
     max_count \<leftarrow> afu_get irq_max_count;
     buf \<leftarrow> afu_get irqs;
     if count = max_count then do {
       (rc, buf', max') \<leftarrow> grow_buffer K buf max_count (sizeof_ocxl_irq K) INITIAL_IRQ_COUNT;
       afu_set (\<lambda>a. a\<lparr>irqs := buf', irq_max_count := max'\<rparr>);
       whenM (rc \<noteq> OCXL_OK) (errmsg ThisAFU rc ''Could not grow IRQ buffer'' []);
       State_Monad.return rc
     } else State_Monad.return OCXL_OK
   }"

definition ocxl_irq_alloc :: "'w platform \<Rightarrow> u64 \<Rightarrow> ('w, ocxl_err \<times> ocxl_irq_h option) prog" where
  "ocxl_irq_alloc K info = do {
     rc \<leftarrow> irq_reserve K;
     if rc \<noteq> OCXL_OK then State_Monad.return (rc, None)
     else do {
       count \<leftarrow> afu_get irq_count;
       blk \<leftarrow> afu_get (\<lambda>a. case buf_block (irqs a) of None \<Rightarrow> 0 | Some b \<Rightarrow> b);
       (rc, irq) \<leftarrow> irq_allocate K (blk, unat count) info;
       irqs_put (unat count) irq;
       if rc \<noteq> OCXL_OK then do {
         errmsg ThisAFU rc ''Could not allocate IRQ'' [];
         State_Monad.return (rc, None)
       } else do {
         irqs_put (unat count) (irq\<lparr>irq_number := count\<rparr>);
         afu_set (\<lambda>a. a\<lparr>irq_count := irq_count a + 1\<rparr>);
         State_Monad.return (OCXL_OK, Some count)
       }
     }
   }"

section \<open>Queries\<close>

definition ocxl_irq_get_handle :: "ocxl_irq_h \<Rightarrow> ('w, u64) prog" where
  "ocxl_irq_get_handle irq = do {
     count \<leftarrow> afu_get irq_count;
     if irq > count then State_Monad.return 0
     else do { q \<leftarrow> irqs_at (unat irq); State_Monad.return (irq_addr q) }
   }"

definition ocxl_irq_get_fd :: "ocxl_irq_h \<Rightarrow> ('w, int) prog" where
  "ocxl_irq_get_fd irq = do {
     count \<leftarrow> afu_get irq_count;
     if irq > count then State_Monad.return (- 1)
     else do { q \<leftarrow> irqs_at (unat irq); State_Monad.return (irq_eventfd q) }
   }"

definition ocxl_afu_get_event_fd :: "('w, int) prog" where
  "ocxl_afu_get_event_fd = afu_get afu_fd"

section \<open>Events\<close>

text \<open>\<open>translation_fault.dsisr\<close> exists on PowerPC only; it is 0 here elsewhere.\<close>

definition populate_xsl_fault_error ::
  "'w platform \<Rightarrow> u8 list \<Rightarrow> ('w, ocxl_event) prog" where
  "populate_xsl_fault_error K body = do {
     let ev = \<lparr>tf_addr = xsl_addr K body,
               tf_dsisr = (if arch_ppc64 K then xsl_dsisr K body else 0),
               tf_count = xsl_count K body\<rparr>;
     (if arch_ppc64 K then
       TRACE ''src/irq.c'' 263 ''populate_xsl_fault_error''
         ''Translation fault error received, addr=%p, dsisr=%llx, count=%llu''
         [FPtr (tf_addr ev), FInt (uint (tf_dsisr ev)), FInt (uint (xsl_count K body))]
     else
       TRACE ''src/irq.c'' 266 ''populate_xsl_fault_error''
         ''Translation fault error received, addr=%p, count=%llu''
         [FPtr (tf_addr ev), FInt (uint (xsl_count K body))]);
     State_Monad.return (OCXL_EVENT_TRANSLATION_FAULT ev)
   }"

text \<open>The result is the action, the event written to the caller's struct if any, and \<open>*last\<close>.\<close>

definition read_afu_event ::
  "'w platform \<Rightarrow> u16 \<Rightarrow> ('w, ocxl_event_action \<times> ocxl_event option \<times> bool) prog" where
  "read_afu_event K event_api_version = do {
     d \<leftarrow> afu_get afu_fd;
     if event_api_version \<noteq> 0 then do {
       errmsg ThisAFU OCXL_INTERNAL_ERROR
         ''Unsupported event API version %u, your libocxl library may be too old''
         [FInt (uint event_api_version)];
       State_Monad.return (OCXL_EVENT_ACTION_FAIL, None, False)
     } else do {
       let hdr = sizeof_event_header K;
       let event_size = hdr + sizeof_xsl_fault_error K;
       let max_supported_event = AFU_EVENT_XSL_FAULT_ERROR K;
       (buf_used, buf) \<leftarrow> sys (os_read K d event_size);
       if buf_used < 0 then do {
         e \<leftarrow> errno K;
         if e = EAGAIN \<or> e = EWOULDBLOCK
         then State_Monad.return (OCXL_EVENT_ACTION_NONE, None, True)
         else do {
           errmsg ThisAFU OCXL_INTERNAL_ERROR ''read of event header from fd %d failed: %d: %s''
             [FInt d, FInt e, FStr (os_strerror K e)];
           State_Monad.return (OCXL_EVENT_ACTION_FAIL, None, False)
         }
       } else if buf_used < int hdr then do {
         errmsg ThisAFU OCXL_INTERNAL_ERROR ''short read of event header from fd %d'' [FInt d];
         State_Monad.return (OCXL_EVENT_ACTION_FAIL, None, False)
       } else do {
         let ty = header_type K buf;
         let last = (header_flags K buf AND EVENT_FLAG_LAST K \<noteq> 0);
         if ty > max_supported_event then do {
           TRACE ''src/irq.c'' 343 ''read_afu_event'' ''Unknown event received from kernel of type %u''
             [FInt (uint ty)];
           State_Monad.return (OCXL_EVENT_ACTION_IGNORE, None, last)
         } else if ty = AFU_EVENT_XSL_FAULT_ERROR K then
           (if buf_used \<noteq> int event_size then do {
              errmsg ThisAFU OCXL_INTERNAL_ERROR
                ''Incorrectly sized buffer received from kernel for XSL fault error, expected %d, got %d''
                [FInt (int event_size), FInt buf_used];
              State_Monad.return (OCXL_EVENT_ACTION_FAIL, None, False)
            } else do {
              ev \<leftarrow> populate_xsl_fault_error K (drop hdr buf);
              State_Monad.return (OCXL_EVENT_ACTION_SUCCESS, Some ev, last)
            })
         else do {
           errmsg ThisAFU OCXL_INTERNAL_ERROR ''Unknown event %d, max_supported_event %d''
             [FInt (uint ty), FInt (uint max_supported_event)];
           State_Monad.return (OCXL_EVENT_ACTION_FAIL, None, False)
         }
       }
     }
   }"

text \<open>The caller's array of \<open>event_count\<close> events, \<open>None\<close> where it has not been written.\<close>

type_synonym event_array = "ocxl_event option list"

definition put_event :: "u16 \<Rightarrow> ocxl_event \<Rightarrow> event_array \<Rightarrow> ('w, event_array) prog" where
  "put_event triggered ev events =
     (if unat triggered < length events
      then State_Monad.return (events[unat triggered := Some ev])
      else do { undefined_behaviour UB_out_of_bounds; State_Monad.return events })"

text \<open>The \<open>while\<close> loop over the device descriptor (lines 432 to 441).\<close>

fun drain_events ::
  "'w platform \<Rightarrow> nat \<Rightarrow> u16 \<Rightarrow> event_array \<Rightarrow> u16 \<Rightarrow>
   ('w, (ocxl_event_action \<times> event_array \<times> u16) option) prog" where
  "drain_events K 0 ver events triggered = State_Monad.return None"
| "drain_events K (Suc fuel) ver events triggered = do {
     (ret, ev, last) \<leftarrow> read_afu_event K ver;
     events \<leftarrow> (case ev of None \<Rightarrow> State_Monad.return events
                          | Some x \<Rightarrow> put_event triggered x events);
     if ret = OCXL_EVENT_ACTION_SUCCESS \<or> ret = OCXL_EVENT_ACTION_IGNORE then do {
       let triggered = (if ret = OCXL_EVENT_ACTION_SUCCESS then triggered + 1 else triggered);
       if last then State_Monad.return (Some (ret, events, triggered))
       else drain_events K fuel ver events triggered
     } else State_Monad.return (Some (ret, events, triggered))
   }"

text \<open>\<open>info->type\<close> of an epoll entry.\<close>

definition source_at :: "epoll_ptr \<Rightarrow> ('w, epoll_fd_source) prog" where
  "source_at p = (case p of
      AfuInfo b \<Rightarrow> afu_get afu_fd_info
    | IrqInfo b i \<Rightarrow> do { q \<leftarrow> irq_ptr (b, i); State_Monad.return (irq_fd_info q) })"

text \<open>One interrupt source (lines 449 to 468): the read of its eventfd and the event.\<close>

definition irq_event ::
  "'w platform \<Rightarrow> block \<times> nat \<Rightarrow> event_array \<Rightarrow> u16 \<Rightarrow> ('w, event_array \<times> u16) prog" where
  "irq_event K p events triggered = do {
     irq \<leftarrow> irq_ptr p;
     (buf_used, count) \<leftarrow> sys (os_read_eventfd K (irq_eventfd irq));
     if buf_used < 0 then do {
       e \<leftarrow> errno K;
       errmsg ThisAFU OCXL_INTERNAL_ERROR ''read of eventfd %d IRQ %d failed: %d: %s''
         [FInt (irq_eventfd irq), FInt (uint (irq_number irq)), FInt e, FStr (os_strerror K e)];
       State_Monad.return (events, triggered)
     } else if buf_used \<noteq> 8 then do {
       errmsg ThisAFU OCXL_INTERNAL_ERROR ''short read of eventfd %d IRQ %d'' [];
       State_Monad.return (events, triggered)
     } else do {
       events \<leftarrow> put_event triggered
         (OCXL_EVENT_IRQ \<lparr>ev_irq = irq_number irq, ev_handle = irq_addr irq, ev_info = irq_info irq,
            ev_irq_count = count\<rparr>) events;
       TRACE ''src/irq.c'' 465 ''ocxl_afu_event_check_versioned''
         ''IRQ received, irq=%u id=%llx info=%p count=%llu''
         [FInt (uint (irq_number irq)), FInt (uint (irq_addr irq)), FPtr (irq_info irq),
          FInt (uint count)];
       State_Monad.return (events, triggered + 1)
     }
   }"

text \<open>The \<open>for\<close> loop over the ready descriptors; \<open>Inl\<close> is the return of -1 in it.\<close>

fun event_loop ::
  "'w platform \<Rightarrow> nat \<Rightarrow> u16 \<Rightarrow> epoll_ptr list \<Rightarrow> event_array \<Rightarrow> u16 \<Rightarrow>
   ('w, (event_array + event_array \<times> u16) option) prog" where
  "event_loop K fuel ver [] events triggered = State_Monad.return (Some (Inr (events, triggered)))"
| "event_loop K fuel ver (p # ps) events triggered = do {
     info \<leftarrow> source_at p;
     (case src_type info of
        EPOLL_SOURCE_OCXL \<Rightarrow> do {
          r \<leftarrow> drain_events K fuel ver events triggered;
          (case r of
             None \<Rightarrow> State_Monad.return None
           | Some (ret, events, triggered) \<Rightarrow>
               if ret = OCXL_EVENT_ACTION_FAIL then State_Monad.return (Some (Inl events))
               else event_loop K fuel ver ps events triggered)
        }
      | EPOLL_SOURCE_IRQ \<Rightarrow> do {
          (events, triggered) \<leftarrow>
            irq_event K (case src_irq info of None \<Rightarrow> (0, 0) | Some q \<Rightarrow> q) events triggered;
          event_loop K fuel ver ps events triggered
        })
   }"

text \<open>The epoll buffer of the AFU is enlarged to \<open>event_count\<close> entries when it is smaller.\<close>

definition epoll_reserve :: "'w platform \<Rightarrow> u16 \<Rightarrow> ('w, bool) prog" where
  "epoll_reserve K event_count = do {
     have_count \<leftarrow> afu_get epoll_event_count;
     if ucast event_count > have_count then do {
       old \<leftarrow> afu_get epoll_events;
       do_free K old;
       afu_set (\<lambda>a. a\<lparr>epoll_events := None, epoll_event_count := 0\<rparr>);
       b \<leftarrow> do_malloc K (unat event_count * sizeof_epoll_event K);
       (case b of
          None \<Rightarrow> do {
            errmsg ThisAFU OCXL_NO_MEM ''Could not allocate space for %d events''
              [FInt (uint event_count)];
            State_Monad.return False
          }
        | Some x \<Rightarrow> do {
            afu_set (\<lambda>a. a\<lparr>epoll_events := Some x, epoll_event_count := ucast event_count\<rparr>);
            State_Monad.return True
          })
     } else State_Monad.return True
   }"

definition ocxl_afu_event_check_versioned ::
  "'w platform \<Rightarrow> nat \<Rightarrow> int \<Rightarrow> event_array \<Rightarrow> u16 \<Rightarrow> u16 \<Rightarrow>
   ('w, (int \<times> event_array) option) prog" where
  "ocxl_afu_event_check_versioned K fuel timeout events event_count event_api_version = do {
     TRACE ''src/irq.c'' 398 ''ocxl_afu_event_check_versioned''
       ''Waiting up to %dms for AFU events'' [FInt timeout];
     reserved \<leftarrow> epoll_reserve K event_count;
     if \<not> reserved then State_Monad.return (Some (- 1, events))
     else do {
       ep \<leftarrow> afu_get epoll_fd;
       (count, ready) \<leftarrow> do_epoll_wait K ep event_count timeout;
       if count = - 1 then do {
         e \<leftarrow> errno K;
         errmsg ThisAFU OCXL_INTERNAL_ERROR
           (''epoll_wait failed waiting for AFU events: %d: '%s'' @ squote)
           [FInt e, FStr (os_strerror K e)];
         State_Monad.return (Some (- 1, events))
       } else do {
         r \<leftarrow> event_loop K fuel event_api_version (take (nat count) ready) events 0;
         (case r of
            None \<Rightarrow> State_Monad.return None
          | Some (Inl events) \<Rightarrow> State_Monad.return (Some (- 1, events))
          | Some (Inr (events, triggered)) \<Rightarrow> do {
              TRACE ''src/irq.c'' 472 ''ocxl_afu_event_check_versioned'' ''%u events reported''
                [FInt (uint triggered)];
              State_Monad.return (Some (uint triggered, events))
            })
       }
     }
   }"

definition ocxl_afu_get_p9_thread_id :: "'w platform \<Rightarrow> ('w, ocxl_err \<times> u16 option) prog" where
  "ocxl_afu_get_p9_thread_id K = do {
     d \<leftarrow> afu_get afu_fd;
     (rc, flags0) \<leftarrow> sys (os_ioctl_get_features K d);
     if rc \<noteq> 0 then do {
       e \<leftarrow> errno K;
       errmsg ThisAFU OCXL_NO_DEV ''Could not identify platform: %d %s'' [FInt e, FStr (os_strerror K e)];
       State_Monad.return (OCXL_NO_DEV, None)
     } else if flags0 AND FEATURES_FLAGS0_P9_WAIT K = 0 then do {
       errmsg ThisAFU OCXL_NO_DEV ''Power 9 wait is not available on this machine'' [];
       State_Monad.return (OCXL_NO_DEV, None)
     } else do {
       (rc, tid) \<leftarrow> sys (os_ioctl_enable_p9_wait K d);
       if rc \<noteq> 0 then do {
         e \<leftarrow> errno K;
         errmsg ThisAFU OCXL_NO_DEV ''Could not enable wait in kernel: %d %s''
           [FInt e, FStr (os_strerror K e)];
         State_Monad.return (OCXL_NO_DEV, None)
       } else State_Monad.return (OCXL_OK, Some tid)
     }
   }"

section \<open>What an interrupt holds\<close>

text \<open>The resources a \<open>struct ocxl_irq\<close> stands for: the mapped trigger page, the interrupt of the
  kernel, the event descriptor.\<close>

definition irq_owned :: "ocxl_afu \<Rightarrow> ocxl_irq \<Rightarrow> resource \<Rightarrow> int" where
  "irq_owned a q r =
     of_bool (irq_addr q \<noteq> 0 \<and> r = RMap (irq_addr q) (page_size a)) +
     of_bool (irq_offset q \<noteq> 0 \<and> r = RIrq (afu_fd a) (irq_offset q)) +
     of_bool (irq_eventfd q \<ge> 0 \<and> r = RFd (irq_eventfd q))"

text \<open>The state after a function that touched only the call record, the world and the output.\<close>

definition same_afu :: "'w st \<Rightarrow> 'w st \<Rightarrow> bool" where
  "same_afu s s' \<longleftrightarrow> cur_afu s' = cur_afu s \<and> glb s' = glb s \<and> ub s' = ub s"

lemma same_afuD: "same_afu s s' \<Longrightarrow> cur_afu s' = cur_afu s"
  by (simp add: same_afu_def)

definition dead_irq :: "ocxl_irq \<Rightarrow> bool" where
  "dead_irq q \<longleftrightarrow> irq_addr q = 0 \<and> irq_offset q = 0 \<and> irq_eventfd q < 0 \<and> irq_info q = 0"

lemma irq_dealloc_spec:
  "wp (irq_dealloc K q) (\<lambda>q' s'. dead_irq q' \<and> same_afu s s' \<and>
     (\<forall>r. balance (calls s') r = balance (calls s) r - irq_owned (cur_afu s) q r)) s"
  by (auto simp: irq_dealloc_def wp_simps wp_call irq_owned_def same_afu_def dead_irq_def effect_def
      split: prod.splits)

text \<open>The kernel's allocation call: an offset that is not 0 on success, nothing written on
  failure.\<close>

definition irq_ioctl_ok :: "'w platform \<Rightarrow> bool" where
  "irq_ioctl_ok K \<longleftrightarrow> (\<forall>d w. case fst (os_ioctl_irq_alloc K d w) of
     (rc, off) \<Rightarrow> if rc = 0 then \<exists>x. off = Some x \<and> x \<noteq> 0 else off = None)"

definition irq_laws :: "'w platform \<Rightarrow> bool" where
  "irq_laws K \<longleftrightarrow> irq_ioctl_ok K \<and> mmap_nonnull K"

lemma irq_ioctl_okD:
  assumes "irq_ioctl_ok K" "os_ioctl_irq_alloc K d w = ((rc, off), w')"
  shows "if rc = 0 then \<exists>x. off = Some x \<and> x \<noteq> 0 else off = None"
  using assms(1) [unfolded irq_ioctl_ok_def, rule_format, of d w] assms(2) by simp

lemma mmap_nonnullD:
  "mmap_nonnull K \<Longrightarrow> os_mmap K len prot d off w = (a, w') \<Longrightarrow> a \<noteq> 0"
  unfolding mmap_nonnull_def by (metis fst_conv)

text \<open>A trigger page that \<open>mmap\<close> refused is recorded in the struct as if it were mapped.\<close>

definition phantom :: "ocxl_afu \<Rightarrow> ocxl_irq \<Rightarrow> resource \<Rightarrow> int" where
  "phantom a q r = of_bool (irq_addr q = MAP_FAILED \<and> r = RMap MAP_FAILED (page_size a))"

definition good_irq :: "block \<times> nat \<Rightarrow> u64 \<Rightarrow> ocxl_irq \<Rightarrow> bool" where
  "good_irq self info q \<longleftrightarrow> irq_addr q \<noteq> 0 \<and> irq_addr q \<noteq> MAP_FAILED \<and> irq_offset q \<noteq> 0 \<and>
     0 \<le> irq_eventfd q \<and> irq_info q = info \<and>
     irq_fd_info q = \<lparr>src_type = EPOLL_SOURCE_IRQ, src_irq = Some self\<rparr>"

lemma MAP_FAILED_nonzero [simp]: "MAP_FAILED \<noteq> 0"
  by (simp add: MAP_FAILED_def)

lemma irq_setup_spec:
  assumes "irq_laws K"
  shows "wp (irq_setup K self info) (\<lambda>(good, q) s'. same_afu s s' \<and> (good \<longrightarrow> good_irq self info q) \<and>
     (\<forall>r. balance (calls s') r = balance (calls s) r + irq_owned (cur_afu s) q r - phantom (cur_afu s) q r)) s"
proof -
  let ?a = "cur_afu s"
  let ?Q = "\<lambda>(good, q) s'. same_afu s s' \<and> (good \<longrightarrow> good_irq self info q) \<and>
     (\<forall>r. balance (calls s') r = balance (calls s) r + irq_owned ?a q r - phantom ?a q r)"
  note defs = irq_setup_def irq_start_def wp_simps wp_call irq_owned_def same_afu_def good_irq_def
    phantom_def effect_def Let_def
  obtain e w1 where 1: "os_eventfd K (wld s) = (e, w1)" by fastforce
  obtain rc off w2 where 2: "os_ioctl_irq_alloc K (afu_fd ?a) w1 = ((rc, off), w2)" by (metis surj_pair)
  note alloc = irq_ioctl_okD [OF _ 2]
  show ?thesis
  proof (cases "e < 0 \<or> rc \<noteq> 0")
    case True
    with alloc assms show ?thesis
      by (auto simp: irq_laws_def defs 1 2)
  next
    case False
    with alloc assms obtain x where x: "off = Some x" "x \<noteq> 0" "rc = 0" "0 \<le> e"
      by (auto simp: irq_laws_def)
    obtain rc2 w3 where 3: "os_ioctl_irq_set_fd K (afu_fd ?a) x e 0 w2 = (rc2, w3)" by fastforce
    obtain a w4 where 4: "os_mmap K (page_size ?a) PROT_WRITE (afu_fd ?a) x w3 = (a, w4)" by fastforce
    have a: "a \<noteq> 0" using mmap_nonnullD [OF _ 4] assms by (simp add: irq_laws_def)
    obtain r w5 where 5: "os_epoll_add K (epoll_fd ?a) e (IrqInfo (fst self) (snd self)) w4 = (r, w5)"
      by fastforce
    show ?thesis
      using x a by (simp add: defs 1 2 3 4 5)
  qed
qed

lemma irq_allocate_spec:
  assumes "irq_laws K"
  shows "wp (irq_allocate K self info) (\<lambda>(rc, q) s'. same_afu s s' \<and>
     (rc = OCXL_OK \<and> good_irq self info q \<and>
        (\<forall>r. balance (calls s') r = balance (calls s) r + irq_owned (cur_afu s) q r) \<or>
      rc = OCXL_INTERNAL_ERROR \<and> dead_irq q \<and>
        (\<forall>r. r \<noteq> RMap MAP_FAILED (page_size (cur_afu s)) \<longrightarrow>
           balance (calls s') r = balance (calls s) r))) s"
  unfolding irq_allocate_def wp_bind
proof (rule wp_mono [OF irq_setup_spec [OF assms]])
  fix gq s1
  assume "(\<lambda>(good, q) s'. same_afu s s' \<and> (good \<longrightarrow> good_irq self info q) \<and>
     (\<forall>r. balance (calls s') r = balance (calls s) r + irq_owned (cur_afu s) q r - phantom (cur_afu s) q r))
     gq s1"
  then obtain good q where gq: "gq = (good, q)" and s1: "same_afu s s1" "good \<longrightarrow> good_irq self info q"
    "\<forall>r. balance (calls s1) r = balance (calls s) r + irq_owned (cur_afu s) q r - phantom (cur_afu s) q r"
    by (cases gq) auto
  show "wp (case gq of (good, irq) \<Rightarrow> if good then State_Monad.return (OCXL_OK, irq)
      else do { irq \<leftarrow> irq_dealloc K irq; State_Monad.return (OCXL_INTERNAL_ERROR, irq) })
    (\<lambda>(rc, q) s'. same_afu s s' \<and>
     (rc = OCXL_OK \<and> good_irq self info q \<and>
        (\<forall>r. balance (calls s') r = balance (calls s) r + irq_owned (cur_afu s) q r) \<or>
      rc = OCXL_INTERNAL_ERROR \<and> dead_irq q \<and>
        (\<forall>r. r \<noteq> RMap MAP_FAILED (page_size (cur_afu s)) \<longrightarrow>
           balance (calls s') r = balance (calls s) r))) s1"
    using s1
    by (auto simp: gq wp_simps phantom_def good_irq_def same_afu_def
        intro!: wp_mono [OF irq_dealloc_spec])
qed

section \<open>The interrupt array as a handle table\<close>

definition live_irqs :: "ocxl_afu \<Rightarrow> nat \<rightharpoonup> ocxl_irq" where
  "live_irqs a i =
     (if i < unat (irq_count a) then
        (case buf_cells (irqs a) ! i of Obj q \<Rightarrow> Some q | _ \<Rightarrow> None)
      else None)"

definition held_irq :: "nat \<Rightarrow> ocxl_irq \<Rightarrow> bool" where
  "held_irq i q \<longleftrightarrow> irq_number q = of_nat i \<and> irq_addr q \<noteq> 0 \<and> irq_addr q \<noteq> MAP_FAILED \<and>
     irq_offset q \<noteq> 0 \<and> 0 \<le> irq_eventfd q \<and> src_type (irq_fd_info q) = EPOLL_SOURCE_IRQ"

definition irq_ok :: "ocxl_afu \<Rightarrow> bool" where
  "irq_ok a \<longleftrightarrow> table_ok (irqs a) (irq_count a) (irq_max_count a) \<and>
     (\<forall>i q. live_irqs a i = Some q \<longrightarrow> held_irq i q)"

definition no_irqs :: "ocxl_afu \<Rightarrow> ocxl_afu" where
  "no_irqs a = a\<lparr>irqs := NullBuf, irq_count := 0, irq_max_count := 0\<rparr>"

lemma no_irqs_upd [simp]:
  "no_irqs (a\<lparr>irqs := b\<rparr>) = no_irqs a"
  "no_irqs (a\<lparr>irq_count := c\<rparr>) = no_irqs a"
  "no_irqs (a\<lparr>irq_max_count := c\<rparr>) = no_irqs a"
  by (simp_all add: no_irqs_def)

lemma no_irqs_fields:
  assumes "no_irqs a = no_irqs a'"
  shows "page_size a = page_size a'" "afu_fd a = afu_fd a'"
  using arg_cong [OF assms, of page_size] arg_cong [OF assms, of afu_fd] by (simp_all add: no_irqs_def)

definition reserve_post :: "'w st \<Rightarrow> ocxl_err \<Rightarrow> 'w st \<Rightarrow> bool" where
  "reserve_post s rc s' \<longleftrightarrow>
     (let a = cur_afu s; a' = cur_afu s' in
      no_irqs a' = no_irqs a \<and> glb s' = glb s \<and> ub s' = ub s \<and> irq_count a' = irq_count a \<and>
      (\<forall>r. balance (calls s') r - block_owned (irqs a') r =
         balance (calls s) r - block_owned (irqs a) r) \<and>
      (if rc = OCXL_OK then
         table_ok (irqs a') (irq_count a') (irq_max_count a') \<and> irq_count a' \<noteq> irq_max_count a' \<and>
         (\<forall>i < unat (irq_count a). buf_cells (irqs a') ! i = buf_cells (irqs a) ! i)
       else rc = OCXL_NO_MEM \<and> a' = a))"

lemma irq_reserve_spec:
  assumes ok: "irq_ok (cur_afu s)" and room: "unat (irq_count (cur_afu s)) < 32768"
  shows "wp (irq_reserve K) (reserve_post s) s"
proof (cases "irq_count (cur_afu s) = irq_max_count (cur_afu s)")
  case False
  with ok show ?thesis
    by (simp add: irq_reserve_def wp_simps reserve_post_def irq_ok_def Let_def)
next
  case full: True
  let ?a = "cur_afu s"
  have t: "table_ok (irqs ?a) (irq_max_count ?a) (irq_max_count ?a)"
    using ok full by (simp add: irq_ok_def)
  have grown: "reserve_post s OCXL_OK (s'\<lparr>cur_afu := ?a\<lparr>irqs := b', irq_max_count := m'\<rparr>\<rparr>)"
    if g: "grow_post K (irqs ?a) (irq_max_count ?a) (sizeof_ocxl_irq K) INITIAL_IRQ_COUNT s
      (OCXL_OK, b', m') s'" for b' m' s'
  proof -
    have t': "table_ok b' (irq_max_count ?a) m' \<and> irq_max_count ?a \<noteq> m' \<and>
        (\<forall>i < unat (irq_max_count ?a). buf_cells b' ! i = buf_cells (irqs ?a) ! i)"
      using table_ok_grow [OF t _ _ _ g] room full by (simp add: INITIAL_IRQ_COUNT_def)
    from g have "glb s' = glb s" "ub s' = ub s" by (simp_all add: grow_post_def)
    with t' full grow_balance [OF g] show ?thesis
      unfolding reserve_post_def Let_def by simp
  qed
  have failed: "reserve_post s rc (errmsg_state ThisAFU rc msg []
      (s'\<lparr>cur_afu := ?a\<lparr>irqs := b', irq_max_count := m'\<rparr>\<rparr>))"
    if g: "grow_post K (irqs ?a) (irq_max_count ?a) (sizeof_ocxl_irq K) INITIAL_IRQ_COUNT s
      (rc, b', m') s'" and rc: "rc \<noteq> OCXL_OK" for rc b' m' s' msg
  proof -
    from g rc have "glb s' = glb s" "ub s' = ub s" "rc = OCXL_NO_MEM" "b' = irqs ?a"
      "m' = irq_max_count ?a"
      unfolding grow_post_def by (auto split: option.splits)
    then show ?thesis
      using grow_balance [OF g] unfolding reserve_post_def Let_def by simp
  qed
  show ?thesis
    unfolding irq_reserve_def wp_bind wp_afu_get
    apply (simp add: full wp_simps)
    apply (rule wp_mono [OF grow_buffer_spec])
    subgoal for r s'
      using grown [of "fst (snd r)" "snd (snd r)" s']
        failed [of "fst r" "fst (snd r)" "snd (snd r)" s' "''Could not grow IRQ buffer''"]
      by (auto simp: wp_simps wp_call grow_post_def split: prod.splits)
    done
qed

definition irq_alloc_post ::
  "u64 \<Rightarrow> 'w st \<Rightarrow> ocxl_err \<times> ocxl_irq_h option \<Rightarrow> 'w st \<Rightarrow> bool" where
  "irq_alloc_post info s r s' \<longleftrightarrow>
     (let a = cur_afu s; a' = cur_afu s' in
      irq_ok a' \<and> no_irqs a' = no_irqs a \<and> glb s' = glb s \<and> ub s' = ub s \<and>
      (case r of
         (rc, None) \<Rightarrow> rc \<noteq> OCXL_OK \<and> irq_count a' = irq_count a \<and> live_irqs a' = live_irqs a \<and>
           (\<forall>r. r \<noteq> RMap MAP_FAILED (page_size a) \<longrightarrow>
              balance (calls s') r - block_owned (irqs a') r =
              balance (calls s) r - block_owned (irqs a) r)
       | (rc, Some h) \<Rightarrow> rc = OCXL_OK \<and> h = irq_count a \<and> irq_count a' = irq_count a + 1 \<and>
           unat (irq_count a') = Suc (unat (irq_count a)) \<and>
           (\<exists>q. live_irqs a' = (live_irqs a)(unat h \<mapsto> q) \<and> held_irq (unat h) q \<and> irq_info q = info \<and>
              (\<forall>r. balance (calls s') r - block_owned (irqs a') r =
                 balance (calls s) r - block_owned (irqs a) r + irq_owned a q r))))"

lemma wp_irqs_put:
  "i < length (buf_cells (irqs (cur_afu s))) \<Longrightarrow>
   wp (irqs_put i q) Q s =
     Q () (s\<lparr>cur_afu := (cur_afu s)\<lparr>irqs := buf_update i q (irqs (cur_afu s))\<rparr>\<rparr>)"
  by (simp add: irqs_put_def wp_simps)

lemma live_irqs_below:
  assumes "irq_count a' = irq_count a"
    and "\<And>i. i < unat (irq_count a) \<Longrightarrow> buf_cells (irqs a') ! i = buf_cells (irqs a) ! i"
  shows "live_irqs a' = live_irqs a"
  using assms by (auto simp: live_irqs_def fun_eq_iff)

lemma live_irqs_push:
  assumes "unat (irq_count a') = Suc (unat (irq_count a))"
    and "buf_cells (irqs a') ! unat (irq_count a) = Obj q"
    and "\<And>i. i < unat (irq_count a) \<Longrightarrow> buf_cells (irqs a') ! i = buf_cells (irqs a) ! i"
  shows "live_irqs a' = (live_irqs a)(unat (irq_count a) \<mapsto> q)"
  using assms by (auto simp: live_irqs_def fun_eq_iff less_Suc_eq)

lemma irq_alloc_stored:
  assumes ok: "irq_ok (cur_afu s)" and r: "reserve_post s OCXL_OK s1"
    and same: "same_afu s1 s2" and good: "good_irq self info q"
    and bal: "\<forall>r. balance (calls s2) r = balance (calls s1) r + irq_owned (cur_afu s1) q r"
  shows "irq_alloc_post info s (OCXL_OK, Some (irq_count (cur_afu s1)))
    (s2\<lparr>cur_afu := (cur_afu s1)\<lparr>irqs := buf_update (unat (irq_count (cur_afu s1)))
        (q\<lparr>irq_number := irq_count (cur_afu s1)\<rparr>)
        (buf_update (unat (irq_count (cur_afu s1))) q (irqs (cur_afu s1))),
      irq_count := irq_count (cur_afu s1) + 1\<rparr>\<rparr>)"
    (is "irq_alloc_post info s _ (s2\<lparr>cur_afu := ?a'\<rparr>)")
proof -
  let ?a = "cur_afu s" and ?a1 = "cur_afu s1"
  let ?c = "irq_count ?a1"
  let ?q = "q\<lparr>irq_number := ?c\<rparr>"
  have r': "no_irqs ?a1 = no_irqs ?a" "glb s1 = glb s" "ub s1 = ub s" "?c = irq_count ?a"
    "\<And>r. balance (calls s1) r - block_owned (irqs ?a1) r =
      balance (calls s) r - block_owned (irqs ?a) r"
    and t: "table_ok (irqs ?a1) ?c (irq_max_count ?a1)" "?c \<noteq> irq_max_count ?a1"
    and old: "\<And>i. i < unat (irq_count ?a) \<Longrightarrow> buf_cells (irqs ?a1) ! i = buf_cells (irqs ?a) ! i"
    using r by (auto simp: reserve_post_def Let_def)
  note sp = table_ok_space [OF t]
  have twice: "buf_update (unat ?c) ?q (buf_update (unat ?c) q (irqs ?a1)) =
      buf_update (unat ?c) ?q (irqs ?a1)"
    by (cases "irqs ?a1") simp_all
  have live: "live_irqs ?a' = (live_irqs ?a)(unat (irq_count ?a) \<mapsto> ?q)"
    using sp r'(4) old by (intro live_irqs_push) (simp_all add: twice)
  have held: "held_irq (unat (irq_count ?a)) ?q"
    using good r'(4) by (simp add: held_irq_def good_irq_def)
  have "irq_ok ?a'"
    using ok live held table_ok_push [OF t] unfolding irq_ok_def
    by (auto simp: twice split: if_splits)
  moreover have "irq_owned ?a1 q = irq_owned ?a ?q"
    using no_irqs_fields [OF r'(1)] by (simp add: irq_owned_def fun_eq_iff)
  ultimately show ?thesis
    using live held r' sp good same bal
    by (auto simp: irq_alloc_post_def Let_def same_afu_def good_irq_def)
qed

lemma irq_alloc_dropped:
  assumes ok: "irq_ok (cur_afu s)" and r: "reserve_post s OCXL_OK s1"
    and same: "same_afu s1 s2"
    and bal: "\<forall>r. r \<noteq> RMap MAP_FAILED (page_size (cur_afu s1)) \<longrightarrow>
      balance (calls s2) r = balance (calls s1) r"
  shows "irq_alloc_post info s (OCXL_INTERNAL_ERROR, None) (errmsg_state ThisAFU e msg []
    (s2\<lparr>cur_afu := (cur_afu s1)\<lparr>irqs := buf_update (unat (irq_count (cur_afu s1))) q (irqs (cur_afu s1))\<rparr>\<rparr>))"
    (is "irq_alloc_post info s _ (errmsg_state _ _ _ _ (s2\<lparr>cur_afu := ?a'\<rparr>))")
proof -
  let ?a = "cur_afu s" and ?a1 = "cur_afu s1"
  let ?c = "irq_count ?a1"
  have r': "no_irqs ?a1 = no_irqs ?a" "glb s1 = glb s" "ub s1 = ub s" "?c = irq_count ?a"
    "\<And>r. balance (calls s1) r - block_owned (irqs ?a1) r =
      balance (calls s) r - block_owned (irqs ?a) r"
    and t: "table_ok (irqs ?a1) ?c (irq_max_count ?a1)"
    and old: "\<And>i. i < unat (irq_count ?a) \<Longrightarrow> buf_cells (irqs ?a1) ! i = buf_cells (irqs ?a) ! i"
    using r by (auto simp: reserve_post_def Let_def)
  have live: "live_irqs ?a' = live_irqs ?a"
    using r'(4) old by (intro live_irqs_below) simp_all
  have "table_ok (buf_update (unat ?c) q (irqs ?a1)) ?c (irq_max_count ?a1)"
    using t by (auto simp: table_ok_def)
  with ok live have "irq_ok ?a'" by (simp add: irq_ok_def)
  with live r' same bal no_irqs_fields [OF r'(1)] show ?thesis
    by (auto simp: irq_alloc_post_def Let_def same_afu_def)
qed

lemma irq_alloc_spec:
  assumes laws: "irq_laws K" and ok: "irq_ok (cur_afu s)"
    and room: "unat (irq_count (cur_afu s)) < 32768"
  shows "wp (ocxl_irq_alloc K info) (irq_alloc_post info s) s"
  unfolding ocxl_irq_alloc_def wp_bind
proof (rule wp_mono [OF irq_reserve_spec [OF ok room]])
  fix rc s1
  assume r: "reserve_post s rc s1"
  let ?a1 = "cur_afu s1"
  let ?b = "case buf_block (irqs ?a1) of None \<Rightarrow> 0 | Some b \<Rightarrow> b"
  show "wp (if rc \<noteq> OCXL_OK then State_Monad.return (rc, None)
     else do {
       count \<leftarrow> afu_get irq_count;
       blk \<leftarrow> afu_get (\<lambda>a. case buf_block (irqs a) of None \<Rightarrow> 0 | Some b \<Rightarrow> b);
       (rc, irq) \<leftarrow> irq_allocate K (blk, unat count) info;
       irqs_put (unat count) irq;
       if rc \<noteq> OCXL_OK then do {
         errmsg ThisAFU rc ''Could not allocate IRQ'' [];
         State_Monad.return (rc, None)
       } else do {
         irqs_put (unat count) (irq\<lparr>irq_number := count\<rparr>);
         afu_set (\<lambda>a. a\<lparr>irq_count := irq_count a + 1\<rparr>);
         State_Monad.return (OCXL_OK, Some count)
       }
     }) (irq_alloc_post info s) s1"
  proof (cases "rc = OCXL_OK")
    case False
    with r ok show ?thesis
      by (auto simp: wp_simps irq_alloc_post_def reserve_post_def Let_def)
  next
    case True
    note r1 = r [unfolded True]
    have "unat (irq_count ?a1) < length (buf_cells (irqs ?a1))"
      using r1 table_ok_space(2) by (auto simp: reserve_post_def Let_def)
    note put = this
    show ?thesis
      using True
      apply (simp add: wp_simps)
      apply (rule wp_mono [OF irq_allocate_spec [OF laws]])
      subgoal for rq s2
        using irq_alloc_stored [OF ok r1, of s2 "(?b, unat (irq_count ?a1))" info "snd rq"]
          irq_alloc_dropped [OF ok r1, of s2 info "fst rq" "''Could not allocate IRQ''" "snd rq"] put
        by (auto simp: wp_simps wp_call wp_irqs_put same_afu_def)
      done
  qed
qed

definition irq_add :: "'w platform \<Rightarrow> u64 \<Rightarrow> 'w st \<Rightarrow> nat option \<times> 'w st" where
  "irq_add K info s =
     (case run_state (ocxl_irq_alloc K info) s of ((rc, h), s') \<Rightarrow> (map_option unat h, s'))"

definition irq_inv :: "'w platform \<Rightarrow> 'w st \<Rightarrow> bool" where
  "irq_inv K s \<longleftrightarrow> irq_laws K \<and> irq_ok (cur_afu s)"

definition irq_used :: "'w st \<Rightarrow> nat" where
  "irq_used s = unat (irq_count (cur_afu s))"

definition irq_live :: "'w st \<Rightarrow> nat \<rightharpoonup> ocxl_irq" where
  "irq_live s = live_irqs (cur_afu s)"

definition irq_stores :: "u64 \<Rightarrow> ocxl_irq \<Rightarrow> bool" where
  "irq_stores info q \<longleftrightarrow> irq_info q = info \<and> irq_addr q \<noteq> 0 \<and> 0 \<le> irq_eventfd q"

lemma irq_add_post:
  assumes "irq_inv K s" "irq_used s < table_limit" "irq_add K info s = (h, s')"
  shows "\<exists>rc hh. map_option unat hh = h \<and> irq_alloc_post info s (rc, hh) s'"
  using irq_alloc_spec [of K s info] assms
  by (auto simp: wp_iff irq_add_def irq_inv_def irq_used_def table_limit_def split: prod.splits)

lemma irq_add_keeps:
  assumes "irq_inv K s" "irq_used s < table_limit"
  shows "irq_inv K (snd (irq_add K info s)) \<and> irq_used (snd (irq_add K info s)) \<le> Suc (irq_used s)"
proof -
  obtain h s' where a: "irq_add K info s = (h, s')" by (cases "irq_add K info s")
  from irq_add_post [OF assms a] assms show ?thesis
    by (auto simp: a irq_alloc_post_def Let_def irq_inv_def irq_used_def split: option.splits)
qed

lemma irq_add_Some:
  assumes "irq_inv K s" "irq_used s < table_limit" "irq_add K info s = (Some i, s')"
  shows "irq_live s i = None \<and> (\<exists>q. irq_stores info q \<and> irq_live s' = (irq_live s)(i \<mapsto> q))"
proof -
  from irq_add_post [OF assms] obtain rc h where
    h: "i = unat h" and p: "irq_alloc_post info s (rc, Some h) s'" by auto
  from p obtain q where "h = irq_count (cur_afu s)" "held_irq (unat h) q" "irq_info q = info"
    "live_irqs (cur_afu s') = (live_irqs (cur_afu s))(unat h \<mapsto> q)"
    by (auto simp: irq_alloc_post_def Let_def)
  then show ?thesis
    by (auto simp: h irq_live_def irq_stores_def held_irq_def live_irqs_def)
qed

lemma irq_add_None:
  assumes "irq_inv K s" "irq_used s < table_limit" "irq_add K info s = (None, s')"
  shows "irq_live s' = irq_live s"
  using irq_add_post [OF assms] by (auto simp: irq_alloc_post_def Let_def irq_live_def)

interpretation iq: slot_table "irq_inv K" irq_used table_limit irq_live "irq_add K" irq_stores
  for K :: "'w platform"
  by unfold_locales (auto simp: irq_add_keeps dest: irq_add_Some irq_add_None)

section \<open>Properties\<close>

lemma demo_irq_laws: "irq_laws (demo\<lparr>os_ioctl_irq_alloc := (\<lambda>d w. ((0, Some 4096), w))\<rparr>)"
  using mmap_nonnull_demo by (simp add: irq_laws_def irq_ioctl_ok_def mmap_nonnull_def)

lemma demo_state_irq_ok: "irq_ok (cur_afu demo_state)" "unat (irq_count (cur_afu demo_state)) = 0"
  by (simp_all add: irq_ok_def table_ok_def live_irqs_def demo_state_def demo_afu_def)

text \<open>C28: allocating an interrupt returns the number of interrupts allocated so far as its
  handle and stores a struct that holds exactly the event descriptor, kernel interrupt and
  trigger page acquired; or it fails, keeps the count and every interrupt allocated before,
  and has given back every descriptor, kernel interrupt and page it acquired on the way.\<close>

theorem irq_alloc_contract:
  assumes "irq_laws K" "irq_ok (cur_afu s)" "unat (irq_count (cur_afu s)) < 32768"
  shows "wp (ocxl_irq_alloc K info) (\<lambda>(rc, h) s'. irq_ok (cur_afu s') \<and> ub s' = ub s \<and>
    (case h of
       None \<Rightarrow> rc \<noteq> OCXL_OK \<and> irq_count (cur_afu s') = irq_count (cur_afu s) \<and>
         live_irqs (cur_afu s') = live_irqs (cur_afu s) \<and>
         (\<forall>r. r \<noteq> RMap MAP_FAILED (page_size (cur_afu s)) \<longrightarrow>
            balance (calls s') r - block_owned (irqs (cur_afu s')) r =
            balance (calls s) r - block_owned (irqs (cur_afu s)) r)
     | Some n \<Rightarrow> rc = OCXL_OK \<and> n = irq_count (cur_afu s) \<and>
         irq_count (cur_afu s') = irq_count (cur_afu s) + 1 \<and>
         (\<exists>q. live_irqs (cur_afu s') = (live_irqs (cur_afu s))(unat n \<mapsto> q) \<and> irq_number q = n \<and>
            irq_info q = info \<and>
            (\<forall>r. balance (calls s') r - block_owned (irqs (cur_afu s')) r =
               balance (calls s) r - block_owned (irqs (cur_afu s)) r + irq_owned (cur_afu s) q r)))) s"
  by (rule wp_mono [OF irq_alloc_spec [OF assms]])
    (auto simp: irq_alloc_post_def Let_def held_irq_def split: option.splits)

theorem irq_alloc_contract_witness:
  "wp (ocxl_irq_alloc (demo\<lparr>os_ioctl_irq_alloc := (\<lambda>d w. ((0, Some 4096), w))\<rparr>) 77)
     (\<lambda>(rc, h) s'. ub s' = [] \<and> (h = None \<or> h = Some 0)) demo_state"
  using demo_state_irq_ok
  by (intro wp_mono [OF irq_alloc_contract [OF demo_irq_laws]])
    (auto simp: demo_state_def demo_afu_def split: option.splits)

primrec irq_allocs :: "'w platform \<Rightarrow> u64 list \<Rightarrow> 'w st \<Rightarrow> nat option list \<times> 'w st" where
  "irq_allocs K [] s = ([], s)"
| "irq_allocs K (x # xs) s =
     (let (h, s1) = irq_add K x s; (hs, s2) = irq_allocs K xs s1 in (h # hs, s2))"

lemma irq_allocs_eq: "irq_allocs K xs s = iq.adds K xs s"
  by (induction xs arbitrary: s) simp_all

text \<open>Any sequence of interrupt allocations that stays within 32768 interrupts hands out
  pairwise different numbers, each of which refers to a live interrupt afterwards, and
  disturbs none of the interrupts allocated before.\<close>

lemma irq_handles_distinct:
  assumes "irq_laws K" "irq_ok (cur_afu s)"
    and "unat (irq_count (cur_afu s)) + length infos \<le> 32768" "irq_allocs K infos s = (hs, s')"
  shows "irq_ok (cur_afu s') \<and> distinct (granted hs) \<and>
    (\<forall>i \<in> set (granted hs). live_irqs (cur_afu s) i = None \<and> live_irqs (cur_afu s') i \<noteq> None) \<and>
    (\<forall>i q. live_irqs (cur_afu s) i = Some q \<longrightarrow> live_irqs (cur_afu s') i = Some q)"
  using iq.adds_spec [of K s infos hs s'] assms
  by (auto simp: irq_inv_def irq_used_def irq_live_def table_limit_def irq_allocs_eq granted_def
      iq.given_def)

lemma irq_handles_distinct_witness:
  "distinct (granted (fst (irq_allocs (demo\<lparr>os_ioctl_irq_alloc := (\<lambda>d w. ((0, Some 4096), w))\<rparr>)
     [1, 2, 3] demo_state)))"
proof -
  let ?K = "demo\<lparr>os_ioctl_irq_alloc := (\<lambda>d w. ((0, Some 4096), w))\<rparr>"
  obtain hs s' where r: "irq_allocs ?K [1, 2, 3] demo_state = (hs, s')" by fastforce
  have "unat (irq_count (cur_afu demo_state)) + length [1, 2, 3 :: u64] \<le> 32768"
    by (simp add: demo_state_irq_ok)
  from irq_handles_distinct [OF demo_irq_laws demo_state_irq_ok(1) this r] show ?thesis
    unfolding r by simp
qed

text \<open>When the kernel refuses to map the trigger page, the error path calls \<open>munmap\<close> on
  \<open>MAP_FAILED\<close>, a mapping that was never made.\<close>

lemma irq_failed_mmap_is_unmapped:
  assumes "os_eventfd K (wld s) = (e, w1)" "0 \<le> e"
    and "os_ioctl_irq_alloc K (afu_fd (cur_afu s)) w1 = ((0, Some off), w2)"
    and "os_ioctl_irq_set_fd K (afu_fd (cur_afu s)) off e 0 w2 = (0, w3)"
    and "os_mmap K (page_size (cur_afu s)) PROT_WRITE (afu_fd (cur_afu s)) off w3 = (MAP_FAILED, w4)"
  shows "wp (irq_allocate K self info) (\<lambda>(rc, q) s'. rc = OCXL_INTERNAL_ERROR \<and>
     balance (calls s') (RMap MAP_FAILED (page_size (cur_afu s))) =
       balance (calls s) (RMap MAP_FAILED (page_size (cur_afu s))) - 1) s"
  using assms
  by (auto simp: irq_allocate_def irq_setup_def irq_start_def irq_dealloc_def wp_simps wp_call
      Let_def effect_def split: prod.splits)

lemma irq_failed_mmap_is_unmapped_witness:
  "wp (irq_allocate (demo\<lparr>os_mmap := (\<lambda>len prot d off w. (MAP_FAILED, w))\<rparr>) (9, 0) 77) (\<lambda>(rc, q) s'.
     rc = OCXL_INTERNAL_ERROR \<and> balance (calls s') (RMap MAP_FAILED 65536) = - 1) demo_state"
  by (rule wp_mono [OF irq_failed_mmap_is_unmapped])
    (auto simp: demo_new_fd_def demo_state_def demo_afu_def demo_world_def)

text \<open>For an interrupt that has been allocated the queries return its trigger address and its
  event descriptor, for a number above the count the invalid values 0 and -1; but the number
  equal to the count passes the check, and when the array is full (in particular before the
  first allocation, when it is \<open>NULL\<close>) the element read is outside it.\<close>

lemma irq_queries:
  assumes "irq_ok (cur_afu s)"
  shows "(\<forall>q. live_irqs (cur_afu s) (unat n) = Some q \<longrightarrow>
       wp (ocxl_irq_get_handle n) (\<lambda>r s'. r = irq_addr q \<and> r \<noteq> 0 \<and> s' = s) s \<and>
       wp (ocxl_irq_get_fd n) (\<lambda>r s'. r = irq_eventfd q \<and> 0 \<le> r \<and> s' = s) s) \<and>
    (irq_count (cur_afu s) < n \<longrightarrow>
       wp (ocxl_irq_get_handle n) (\<lambda>r s'. r = 0 \<and> s' = s) s \<and>
       wp (ocxl_irq_get_fd n) (\<lambda>r s'. r = - 1 \<and> s' = s) s) \<and>
    (n = irq_count (cur_afu s) \<and> n = irq_max_count (cur_afu s) \<longrightarrow>
       wp (ocxl_irq_get_handle n) (\<lambda>r s'. ub s' = ub s @ [UB_out_of_bounds]) s \<and>
       wp (ocxl_irq_get_fd n) (\<lambda>r s'. ub s' = ub s @ [UB_out_of_bounds]) s)"
proof (intro conjI allI impI)
  let ?a = "cur_afu s"
  {
    fix q assume q: "live_irqs ?a (unat n) = Some q"
    then have n: "unat n < unat (irq_count ?a)" "\<not> irq_count ?a < n"
      by (auto simp: live_irqs_def word_less_nat_alt split: if_splits)
    moreover have "unat n < length (buf_cells (irqs ?a))" "buf_cells (irqs ?a) ! unat n = Obj q"
      using q assms n(1) by (auto simp: irq_ok_def table_ok_def live_irqs_def word_le_nat_alt
          split: cell.splits)
    moreover have "held_irq (unat n) q" using q assms by (simp add: irq_ok_def)
    ultimately show "wp (ocxl_irq_get_handle n) (\<lambda>r s'. r = irq_addr q \<and> r \<noteq> 0 \<and> s' = s) s"
      and "wp (ocxl_irq_get_fd n) (\<lambda>r s'. r = irq_eventfd q \<and> 0 \<le> r \<and> s' = s) s"
      by (simp_all add: ocxl_irq_get_handle_def ocxl_irq_get_fd_def irqs_at_def wp_simps held_irq_def)
  }
qed (use assms in \<open>auto simp: ocxl_irq_get_handle_def ocxl_irq_get_fd_def irqs_at_def wp_simps
    irq_ok_def table_ok_def\<close>)

lemma irq_queries_witness:
  "wp (ocxl_irq_get_handle 0) (\<lambda>r s'. ub s' = [UB_out_of_bounds]) demo_state \<and>
   wp (ocxl_irq_get_fd 1) (\<lambda>r s'. r = - 1) demo_state"
proof -
  have c: "irq_count (cur_afu demo_state) = 0" "irq_max_count (cur_afu demo_state) = 0"
    "ub demo_state = []"
    by (simp_all add: demo_state_def demo_afu_def)
  show ?thesis
    using irq_queries [OF demo_state_irq_ok(1), of 0] irq_queries [OF demo_state_irq_ok(1), of 1]
    by (auto simp: c elim!: wp_mono)
qed

section \<open>Events: termination\<close>

text \<open>A bound on the events the kernel still has queued on the device descriptor: a read that
  returns data lowers it, and no read raises it.\<close>

definition queued :: "'w platform \<Rightarrow> ('w \<Rightarrow> nat) \<Rightarrow> bool" where
  "queued K f \<longleftrightarrow>
     (\<forall>d n w. let ((k, bs), w') = os_read K d n w in f w' \<le> f w \<and> (0 \<le> k \<longrightarrow> f w' < f w)) \<and>
     (\<forall>d w. f (snd (os_read_eventfd K d w)) \<le> f w)"

lemma queued_read:
  assumes "queued K f" "os_read K d n w = ((k, bs), w')"
  shows "f w' \<le> f w" "0 \<le> k \<Longrightarrow> f w' < f w"
proof -
  have "let ((k, bs), w') = os_read K d n w in f w' \<le> f w \<and> (0 \<le> k \<longrightarrow> f w' < f w)"
    using assms(1) unfolding queued_def by blast
  then show "f w' \<le> f w" "0 \<le> k \<Longrightarrow> f w' < f w" by (simp_all add: assms(2))
qed

lemma queued_eventfd:
  "queued K f \<Longrightarrow> os_read_eventfd K d w = (r, w') \<Longrightarrow> f w' \<le> f w"
  unfolding queued_def by (metis snd_conv)

text \<open>A run that ended within its fuel.\<close>

definition ended :: "'a option \<Rightarrow> bool" where
  "ended r \<longleftrightarrow> r \<noteq> None"

lemma ended_simps [simp]: "ended (Some x)" "\<not> ended None"
  by (simp_all add: ended_def)

lemma ended_Some: "ended r \<Longrightarrow> \<exists>x. r = Some x"
  by (cases r) auto

lemma ended_triple: "ended r \<Longrightarrow> \<exists>x y z. r = Some (x, y, z)"
  by (cases r) auto

text \<open>What every function of the event loop leaves alone.\<close>

lemma populate_frame:
  "wp (populate_xsl_fault_error K body) (\<lambda>r s'. wld s' = wld s \<and> cur_afu s' = cur_afu s \<and>
     calls s' = calls s \<and> ub s' = ub s) s"
  by (simp add: populate_xsl_fault_error_def Let_def wp_simps wp_call)

lemma read_afu_event_queue:
  assumes "queued K f"
  shows "wp (read_afu_event K ver) (\<lambda>(ret, ev, last) s'. f (wld s') \<le> f (wld s) \<and>
     cur_afu s' = cur_afu s \<and> calls s' = calls s \<and> ub s' = ub s \<and>
     (ret = OCXL_EVENT_ACTION_SUCCESS \<or> ret = OCXL_EVENT_ACTION_IGNORE \<longrightarrow> f (wld s') < f (wld s)) \<and>
     (ev \<noteq> None \<longleftrightarrow> ret = OCXL_EVENT_ACTION_SUCCESS)) s"
proof -
  obtain k bs w where r: "os_read K (afu_fd (cur_afu s)) (sizeof_event_header K + sizeof_xsl_fault_error K)
      (wld s) = ((k, bs), w)"
    by (metis surj_pair)
  show ?thesis
    using queued_read [OF assms r]
    by (auto simp: read_afu_event_def Let_def wp_simps wp_call r intro!: wp_mono [OF populate_frame])
qed

lemma wp_put_event:
  "wp (put_event t ev events) (\<lambda>events' s'. length events' = length events \<and> wld s' = wld s \<and>
     cur_afu s' = cur_afu s \<and> calls s' = calls s) s"
  by (simp add: put_event_def wp_simps)

lemma drain_terminates:
  assumes q: "queued K f" and "f (wld s) < fuel"
  shows "wp (drain_events K fuel ver events triggered) (\<lambda>r s'. ended r \<and> f (wld s') \<le> f (wld s) \<and>
     cur_afu s' = cur_afu s) s"
  using assms(2)
proof (induction fuel arbitrary: s events triggered)
  case 0
  then show ?case by simp
next
  case (Suc fuel)
  have IH: "wp (drain_events K fuel ver ev t) (\<lambda>r s'. ended r \<and> f (wld s') \<le> f (wld s) \<and>
      cur_afu s' = cur_afu s) s1"
    if "f (wld s1) < f (wld s)" "cur_afu s1 = cur_afu s" for ev t and s1 :: "'a st"
    using that Suc.prems by (intro wp_mono [OF Suc.IH]) auto
  show ?case
    unfolding drain_events.simps wp_bind
    by (rule wp_mono [OF read_afu_event_queue [OF q]])
      (auto simp: wp_simps Let_def IH split: option.splits intro!: wp_mono [OF wp_put_event])
qed

lemma irq_event_queue:
  assumes "queued K f"
  shows "wp (irq_event K p events triggered) (\<lambda>r s'. f (wld s') \<le> f (wld s) \<and> cur_afu s' = cur_afu s) s"
proof -
  have ptr: "wp (irq_ptr p) (\<lambda>q s'. wld s' = wld s \<and> cur_afu s' = cur_afu s) s"
    by (simp add: irq_ptr_def wp_simps split: option.splits)
  show ?thesis
    unfolding irq_event_def wp_bind
    by (rule wp_mono [OF ptr])
      (auto simp: wp_simps wp_call split: prod.splits intro!: wp_mono [OF wp_put_event]
        dest: queued_eventfd [OF assms])
qed

lemma event_loop_terminates:
  assumes q: "queued K f" and "f (wld s) < fuel"
  shows "wp (event_loop K fuel ver ptrs events triggered) (\<lambda>r s'. ended r) s"
  using assms(2)
proof (induction ptrs arbitrary: s events triggered)
  case Nil
  then show ?case by (simp add: wp_simps)
next
  case (Cons p ptrs)
  have IH: "wp (event_loop K fuel ver ptrs ev t) (\<lambda>r s'. ended r) s1"
    if "f (wld s1) \<le> f (wld s)" for ev t and s1 :: "'a st"
    using that Cons by simp
  have src: "wp (source_at p) (\<lambda>info s'. wld s' = wld s) s"
    by (simp add: source_at_def irq_ptr_def wp_simps split: epoll_ptr.splits option.splits)
  have dr: "wp (drain_events K fuel ver events triggered) (\<lambda>r s'. ended r \<and> f (wld s') \<le> f (wld s)) s1"
    if "wld s1 = wld s" for s1
    using that Cons.prems by (intro wp_mono [OF drain_terminates [OF q]]) auto
  have ir: "wp (irq_event K x events triggered) (\<lambda>r s'. f (wld s') \<le> f (wld s)) s1"
    if "wld s1 = wld s" for s1 x
    using that by (intro wp_mono [OF irq_event_queue [OF q]]) auto
  show ?case
    unfolding event_loop.simps wp_bind
    by (rule wp_mono [OF src])
      (auto simp: wp_simps IH split: epoll_source_type.splits option.splits
        intro!: wp_mono [OF dr] wp_mono [OF ir] dest: ended_triple)
qed

section \<open>Events: interrupts\<close>

text \<open>What the interrupts of a list of ready descriptors report, as a function of the world: one
  event for each eventfd that could be read, in order.\<close>

fun irq_reports ::
  "'w platform \<Rightarrow> ocxl_irq list \<Rightarrow> 'w \<Rightarrow> ocxl_event list \<times> 'w" where
  "irq_reports K [] w = ([], w)"
| "irq_reports K (q # qs) w =
     (case os_read_eventfd K (irq_eventfd q) w of
        ((n, c), w1) \<Rightarrow>
          (case irq_reports K qs w1 of
             (evs, w2) \<Rightarrow>
               ((if n = 8 then [OCXL_EVENT_IRQ \<lparr>ev_irq = irq_number q, ev_handle = irq_addr q,
                    ev_info = irq_info q, ev_irq_count = c\<rparr>] else []) @ evs, w2)))"

definition write_events :: "event_array \<Rightarrow> nat \<Rightarrow> ocxl_event list \<Rightarrow> event_array" where
  "write_events events k evs = take k events @ map Some evs @ drop (k + length evs) events"

lemma write_events_Nil [simp]: "write_events events k [] = events"
  by (simp add: write_events_def)

lemma write_events_Cons:
  assumes "k < length events"
  shows "write_events (events[k := Some e]) (Suc k) evs = write_events events k (e # evs)"
  using assms by (simp add: write_events_def take_Suc_conv_app_nth drop_update_cancel)

lemma length_irq_reports: "length (fst (irq_reports K qs w)) \<le> length qs"
proof (induction qs arbitrary: w)
  case (Cons q qs)
  obtain n c w1 where r: "os_read_eventfd K (irq_eventfd q) w = ((n, c), w1)" by (metis surj_pair)
  show ?case using Cons.IH [of w1] by (auto simp: r split: prod.splits)
qed simp

text \<open>A pointer registered with epoll that still refers to its interrupt.\<close>

definition fresh_ptr :: "ocxl_afu \<Rightarrow> epoll_ptr \<Rightarrow> ocxl_irq \<Rightarrow> bool" where
  "fresh_ptr a p q \<longleftrightarrow> (case p of
      AfuInfo b \<Rightarrow> False
    | IrqInfo b i \<Rightarrow> irq_deref a (b, i) = Some q \<and>
        irq_fd_info q = \<lparr>src_type = EPOLL_SOURCE_IRQ, src_irq = Some (b, i)\<rparr>)"

lemma irq_event_spec:
  assumes "irq_deref (cur_afu s) p = Some q" "unat t < length events"
    "os_read_eventfd K (irq_eventfd q) (wld s) = ((n, c), w)"
  shows "wp (irq_event K p events t) (\<lambda>(events', t') s'. cur_afu s' = cur_afu s \<and> wld s' = w \<and>
    ub s' = ub s \<and>
    (if n = 8 then t' = t + 1 \<and> events' = events[unat t := Some (OCXL_EVENT_IRQ
       \<lparr>ev_irq = irq_number q, ev_handle = irq_addr q, ev_info = irq_info q, ev_irq_count = c\<rparr>)]
     else t' = t \<and> events' = events)) s"
  using assms
  by (auto simp: irq_event_def irq_ptr_def put_event_def wp_simps wp_call)

lemma event_loop_irqs:
  assumes "list_all2 (fresh_ptr (cur_afu s)) ptrs qs" "unat t + length ptrs \<le> length events"
    "length events < 65536" "irq_reports K qs (wld s) = (evs, w)"
  shows "wp (event_loop K fuel ver ptrs events t) (\<lambda>r s'. ub s' = ub s \<and> wld s' = w \<and>
    r = Some (Inr (write_events events (unat t) evs, t + of_nat (length evs)))) s"
  using assms
proof (induction ptrs arbitrary: s qs t events evs)
  case Nil
  then show ?case by (simp add: wp_simps)
next
  case (Cons p ptrs)
  then obtain q qs' where qs: "qs = q # qs'" "fresh_ptr (cur_afu s) p q"
    "list_all2 (fresh_ptr (cur_afu s)) ptrs qs'"
    by (auto simp: list_all2_Cons1)
  then obtain b i where p: "p = IrqInfo b i" "irq_deref (cur_afu s) (b, i) = Some q"
    "irq_fd_info q = \<lparr>src_type = EPOLL_SOURCE_IRQ, src_irq = Some (b, i)\<rparr>"
    by (cases p) (auto simp: fresh_ptr_def)
  obtain n c w1 where r: "os_read_eventfd K (irq_eventfd q) (wld s) = ((n, c), w1)" by (metis surj_pair)
  obtain evs1 where rep: "irq_reports K qs' w1 = (evs1, w)" "evs = (if n = 8 then [OCXL_EVENT_IRQ
      \<lparr>ev_irq = irq_number q, ev_handle = irq_addr q, ev_info = irq_info q, ev_irq_count = c\<rparr>] else []) @ evs1"
    using Cons.prems(4) qs(1) r by (auto split: prod.splits)
  have t: "unat t < length events" using Cons.prems(2) by simp
  have t1: "unat (1 + t) = Suc (unat t)"
    using t Cons.prems(3) unat_Suc_u16 [of t] by (simp add: add.commute)
  have src: "wp (source_at p) (\<lambda>info s'. info = irq_fd_info q \<and> s' = s) s"
    using p by (simp add: source_at_def irq_ptr_def wp_simps)
  have rest: "wp (event_loop K fuel ver ptrs events' t') (\<lambda>r s'. ub s' = ub s \<and> wld s' = w \<and>
      r = Some (Inr (write_events events' (unat t') evs1, t' + of_nat (length evs1)))) s1"
    if "cur_afu s1 = cur_afu s" "wld s1 = w1" "ub s1 = ub s" "length events' = length events"
      "unat t' \<le> Suc (unat t)" for s1 events' t'
    using Cons.IH [of s1 qs' t' events' evs1] Cons.prems(2,3) qs(3) rep(1) that by simp
  show ?case
    unfolding event_loop.simps wp_bind
    by (rule wp_mono [OF src])
      (auto simp: p(3) wp_simps rep(2) t t1 write_events_Cons algebra_simps
        intro!: wp_mono [OF irq_event_spec [OF p(2) t r]] wp_mono [OF rest])
qed

lemma epoll_reserve_spec:
  "wp (epoll_reserve K n) (\<lambda>ok s'. ub s' = ub s \<and> glb s' = glb s \<and> irqs (cur_afu s') = irqs (cur_afu s) \<and>
     epoll_fd (cur_afu s') = epoll_fd (cur_afu s) \<and> afu_fd (cur_afu s') = afu_fd (cur_afu s) \<and>
     afu_fd_info (cur_afu s') = afu_fd_info (cur_afu s) \<and>
     (ok \<longrightarrow> ucast n \<le> epoll_event_count (cur_afu s'))) s"
  by (auto simp: epoll_reserve_def wp_simps wp_call not_less split: prod.splits option.splits)

lemma fresh_ptr_irqs: "irqs a' = irqs a \<Longrightarrow> fresh_ptr a' = fresh_ptr a"
  by (simp add: fresh_ptr_def fun_eq_iff irq_deref_def split: epoll_ptr.splits)

text \<open>C30: the event check ends: where the kernel has finitely many events queued, enough fuel
  for the drain loop gives a result, whatever descriptors are ready.\<close>

theorem event_check_terminates:
  assumes "queued K f"
  shows "\<exists>n. \<forall>fuel \<ge> n. wp (ocxl_afu_event_check_versioned K fuel timeout events count ver)
    (\<lambda>r s'. r \<noteq> None) s"
proof -
  let ?w = "\<lambda>s1. snd (os_epoll_wait K (epoll_fd (cur_afu s1)) count timeout (wld s1))"
  let ?s1 = "trace_state (afu_tracing (cur_afu s)) ''src/irq.c'' 398 ''ocxl_afu_event_check_versioned''
     ''Waiting up to %dms for AFU events'' [FInt timeout] s"
  let ?s2 = "snd (run_state (epoll_reserve K count) ?s1)"
  have "wp (ocxl_afu_event_check_versioned K fuel timeout events count ver) (\<lambda>r s'. ended r) s"
    if fuel: "fuel \<ge> Suc (f (?w ?s2))" for fuel
  proof -
    have loop: "wp (event_loop K fuel ver ps events 0) (\<lambda>r s'. ended r) s3" if "wld s3 = ?w ?s2" for ps s3
      using that fuel by (intro event_loop_terminates [OF assms]) simp
    have res: "wp (epoll_reserve K count) (\<lambda>ok s'. s' = ?s2) ?s1"
      by (simp add: wp_iff)
    show ?thesis
      unfolding ocxl_afu_event_check_versioned_def wp_bind wp_TRACE
      by (rule wp_mono [OF res])
        (auto simp: wp_simps wp_call split: prod.splits intro!: wp_mono [OF loop]
          split: option.splits sum.splits dest: ended_Some)
  qed
  then show ?thesis unfolding ended_def by blast
qed

theorem event_check_terminates_witness:
  "\<exists>n. \<forall>fuel \<ge> n. wp (ocxl_afu_event_check_versioned demo fuel (- 1) [None] 1 0)
    (\<lambda>r s'. r \<noteq> None) (demo_state\<lparr>wld := demo_world\<lparr>dw_ready := [AfuInfo 1],
       dw_reads := [(32, replicate 32 0), (-1, [])]\<rparr>\<rparr>)"
proof -
  have "queued (demo\<lparr>os_read := (\<lambda>d n w. case dw_reads w of [] \<Rightarrow> ((-1, []), w)
      | r # rs \<Rightarrow> (r, w\<lparr>dw_reads := rs\<rparr>))\<rparr>) (\<lambda>w. length (dw_reads w))"
    by (simp add: queued_def split: list.split)
  moreover have "demo_read = (\<lambda>w. case dw_reads w of [] \<Rightarrow> ((-1, []), w) | r # rs \<Rightarrow> (r, w\<lparr>dw_reads := rs\<rparr>))"
    by (rule ext) (simp add: demo_read_def)
  then have "demo\<lparr>os_read := (\<lambda>d n w. case dw_reads w of [] \<Rightarrow> ((-1, []), w)
      | r # rs \<Rightarrow> (r, w\<lparr>dw_reads := rs\<rparr>))\<rparr> = demo"
    by (simp add: demo_def)
  ultimately have "queued demo (\<lambda>w. length (dw_reads w))" by simp
  from event_check_terminates [OF this] show ?thesis .
qed

text \<open>What making room for \<open>count\<close> events does to the world: nothing when there is room, otherwise the old
  buffer is freed and a new one allocated, which may fail.\<close>

definition reserve_world :: "'w platform \<Rightarrow> ocxl_afu \<Rightarrow> u16 \<Rightarrow> 'w \<Rightarrow> bool \<times> 'w" where
  "reserve_world K a count w = (if ucast count \<le> epoll_event_count a then (True, w)
     else case os_malloc K (unat count * sizeof_epoll_event K) (os_free K (epoll_events a) w) of
       (b, w1) \<Rightarrow> (b \<noteq> None, w1))"

lemma epoll_reserve_world:
  assumes "reserve_world K (cur_afu s) count (wld s) = (reserved, w1)"
  shows "wp (epoll_reserve K count) (\<lambda>ok s'. ok = reserved \<and> wld s' = w1) s"
  using assms
  by (auto simp: reserve_world_def epoll_reserve_def wp_simps wp_call not_less split: if_splits prod.splits option.splits)

text \<open>C29: when only interrupts are ready, the event check reports one event for each interrupt
  whose counter could be read, in the order of the kernel's list and with the number, trigger
  address, user pointer and count of that interrupt; it returns their number, leaves the rest
  of the caller's array as it was and never writes outside it. This holds for the first check of an
  AFU as for later ones: when the kernel's list needs more room than the AFU has, a new buffer is allocated
  first, and if there is no memory for it the result is -1 and neither the kernel nor the
  caller's array is touched.\<close>

theorem event_check_reports_irqs:
  assumes "list_all2 (fresh_ptr (cur_afu s)) ptrs qs"
    and "length events = unat count" "length ptrs \<le> unat count"
    and "reserve_world K (cur_afu s) count (wld s) = (reserved, w1)"
    and "reserved \<Longrightarrow> os_epoll_wait K (epoll_fd (cur_afu s)) count timeout w1 = ((int (length ptrs), ptrs), w0)"
    and "reserved \<Longrightarrow> irq_reports K qs w0 = (evs, w)"
  shows "wp (ocxl_afu_event_check_versioned K fuel timeout events count ver) (\<lambda>r s'. ub s' = ub s \<and>
    (if reserved then r = Some (int (length evs), map Some evs @ drop (length evs) events) \<and>
       length evs \<le> unat count \<and> wld s' = w
     else r = Some (- 1, events) \<and> wld s' = w1)) s" (is "wp _ ?Q s")
proof -
  let ?s1 = "trace_state (afu_tracing (cur_afu s)) ''src/irq.c'' 398 ''ocxl_afu_event_check_versioned''
     ''Waiting up to %dms for AFU events'' [FInt timeout] s"
  have room: "wp (epoll_reserve K count) (\<lambda>ok s'. (ok = reserved \<and> wld s' = w1) \<and> ub s' = ub s \<and>
      irqs (cur_afu s') = irqs (cur_afu s) \<and> epoll_fd (cur_afu s') = epoll_fd (cur_afu s)) ?s1"
    using epoll_reserve_world [of K ?s1 count reserved w1] assms(4) epoll_reserve_spec [of K count ?s1]
    unfolding wp_conj by (auto elim!: wp_mono)
  show ?thesis
  proof (cases reserved)
    case True
    have n: "length evs \<le> unat count"
      using length_irq_reports [of K qs w0] assms(1,3) assms(6) [OF True] by (simp add: list_all2_lengthD)
    then have u: "uint (of_nat (length evs) :: u16) = int (length evs)"
      using unat_u16_less [of count] by (simp add: uint_nat unat_of_nat)
    have loop: "wp (event_loop K fuel ver ptrs events 0) (\<lambda>r s'. ub s' = ub s \<and> wld s' = w \<and>
        r = Some (Inr (map Some evs @ drop (length evs) events, of_nat (length evs)))) s1"
      if "irqs (cur_afu s1) = irqs (cur_afu s)" "wld s1 = w0" "ub s1 = ub s" for s1
      using that assms(1-3) assms(6) [OF True] unat_u16_less [of count]
      by (intro wp_mono [OF event_loop_irqs [of s1 ptrs qs 0 events K evs w]])
        (auto simp: write_events_def fresh_ptr_irqs [OF that(1)])
    show ?thesis
      unfolding ocxl_afu_event_check_versioned_def wp_bind wp_TRACE
      by (rule wp_mono [OF room])
        (use assms(5) [OF True] n True in \<open>auto simp: wp_simps wp_call u intro!: wp_mono [OF loop]\<close>)
  next
    case False
    then show ?thesis
      unfolding ocxl_afu_event_check_versioned_def wp_bind wp_TRACE
      by (intro wp_mono [OF room]) (simp add: wp_return)
  qed
qed

text \<open>Two interrupts, both ready, and an AFU that has not been checked before.\<close>

definition demo_irq :: "nat \<Rightarrow> ocxl_irq" where
  "demo_irq i = \<lparr>irq_offset = 4096, irq_eventfd = 20 + int i, irq_reserved = 0, irq_number = of_nat i,
     irq_addr = 0x500000, irq_info = 7, irq_fd_info = \<lparr>src_type = EPOLL_SOURCE_IRQ, src_irq = Some (60, i)\<rparr>\<rparr>"

definition demo_irqs :: "demo_w st" where
  "demo_irqs = demo_state\<lparr>wld := demo_world\<lparr>dw_ready := [IrqInfo 60 1, IrqInfo 60 0]\<rparr>,
     cur_afu := demo_afu\<lparr>irqs := Buf 60 [Obj (demo_irq 0), Obj (demo_irq 1)], irq_count := 2,
       irq_max_count := 2\<rparr>\<rparr>"

theorem event_check_reports_irqs_witness:
  "epoll_event_count (cur_afu demo_irqs) = 0 \<and>
   wp (ocxl_afu_event_check_versioned demo 1 0 [None, None, None] 3 0) (\<lambda>r s'.
     r = Some (2, [Some (OCXL_EVENT_IRQ \<lparr>ev_irq = 1, ev_handle = 0x500000, ev_info = 7, ev_irq_count = 1\<rparr>),
       Some (OCXL_EVENT_IRQ \<lparr>ev_irq = 0, ev_handle = 0x500000, ev_info = 7, ev_irq_count = 1\<rparr>), None]) \<and>
     ub s' = []) demo_irqs"
proof -
  let ?ptrs = "[IrqInfo 60 1, IrqInfo 60 0]"
  let ?evs = "[OCXL_EVENT_IRQ \<lparr>ev_irq = 1, ev_handle = 0x500000, ev_info = 7, ev_irq_count = 1\<rparr>,
    OCXL_EVENT_IRQ \<lparr>ev_irq = 0, ev_handle = 0x500000, ev_info = 7, ev_irq_count = 1\<rparr>]"
  have 1: "list_all2 (fresh_ptr (cur_afu demo_irqs)) ?ptrs [demo_irq 1, demo_irq 0]"
    by (simp add: fresh_ptr_def irq_deref_def demo_irqs_def demo_irq_def)
  obtain w1 where 2: "reserve_world demo (cur_afu demo_irqs) 3 (wld demo_irqs) = (True, w1)"
      and w1: "dw_ready w1 = ?ptrs"
    by (auto simp: reserve_world_def demo_irqs_def demo_afu_def demo_state_def demo_world_def demo_alloc_def split: prod.splits)
  obtain w0 where 3: "os_epoll_wait demo (epoll_fd (cur_afu demo_irqs)) 3 0 w1 = ((int (length ?ptrs), ?ptrs), w0)"
    using w1 by simp
  have 4: "irq_reports demo [demo_irq 1, demo_irq 0] w0 = (?evs, w0)" by (simp add: demo_irq_def)
  have "ub demo_irqs = []" "epoll_event_count (cur_afu demo_irqs) = 0"
    by (simp_all add: demo_irqs_def demo_state_def demo_afu_def)
  then show ?thesis
    using wp_mono [OF event_check_reports_irqs [OF 1 _ _ 2 3 4, of "[None, None, None]"]] by fastforce
qed

definition demo_faults :: "demo_w st" where
  "demo_faults = demo_state\<lparr>wld := demo_world\<lparr>dw_ready := [AfuInfo 1],
     dw_reads := [(32, replicate 32 0), (32, [0, 0, 1] @ replicate 29 0)]\<rparr>\<rparr>"

text \<open>The drain loop does not look at the capacity of the caller's array: with room for one
  event and two translation faults queued in the kernel, the check writes past the end of the
  array and returns 2.\<close>

lemma event_check_overflows_array:
  "wp (ocxl_afu_event_check_versioned demo (Suc (Suc 0)) 0 [None] 1 0) (\<lambda>r s'.
     (\<exists>events. r = Some (2, events)) \<and> ub s' = [UB_out_of_bounds]) demo_faults"
  by (simp add: ocxl_afu_event_check_versioned_def epoll_reserve_def wp_simps wp_call demo_faults_def
      demo_state_def demo_afu_def demo_world_def demo_alloc_def source_at_def
      read_afu_event_def demo_read_def populate_xsl_fault_error_def put_event_def Let_def)

text \<open>C36: epoll keeps a pointer into the interrupt array for each interrupt. When a further
  allocation grows the array and \<open>realloc\<close> moves it, the pointers registered before
  dangle, and the next event for one of those interrupts dereferences freed memory.\<close>

theorem irq_growth_invalidates_epoll:
  assumes "irq_laws K" "irq_ok (cur_afu s)" "irq_count (cur_afu s) = irq_max_count (cur_afu s)"
    and "unat (irq_count (cur_afu s)) < 32768" "buf_block (irqs (cur_afu s)) = Some b"
    and "\<And>n w. fst (os_realloc K (Some b) n w) \<notin> {None, Some b}"
  shows "wp (do { r \<leftarrow> ocxl_irq_alloc K info; source_at (IrqInfo b i) })
     (\<lambda>rc s'. UB_dangling_pointer \<in> set (ub s')) s"
proof -
  let ?moved = "\<lambda>s'. buf_block (irqs (cur_afu s')) \<noteq> Some b"
  have grow: "wp (grow_buffer K (irqs (cur_afu s)) (irq_max_count (cur_afu s)) (sizeof_ocxl_irq K)
      INITIAL_IRQ_COUNT) (\<lambda>(rc, b', c) s'. rc = OCXL_OK \<and> buf_block b' \<noteq> Some b) s"
    by (rule grow_buffer_moves [OF assms(5,6)])
  have "wp (irq_reserve K) (\<lambda>r s'. ?moved s') s"
    unfolding irq_reserve_def wp_bind wp_afu_get
    by (simp add: assms(3) wp_simps) (rule wp_mono [OF grow], auto simp: wp_simps)
  then have "wp (ocxl_irq_alloc K info) (\<lambda>r s'. ?moved s') s"
    unfolding ocxl_irq_alloc_def wp_bind
    by (rule wp_mono) (auto simp: irqs_put_def wp_simps wp_call same_afu_def
        intro!: wp_mono [OF irq_allocate_spec [OF assms(1)]])
  then show ?thesis
    unfolding wp_bind
    by (rule wp_mono) (auto simp: source_at_def irq_ptr_def irq_deref_def wp_simps split: cbuf.splits)
qed

theorem irq_growth_invalidates_epoll_witness:
  "wp (do { r \<leftarrow> ocxl_irq_alloc (demo\<lparr>os_ioctl_irq_alloc := (\<lambda>d w. ((0, Some 4096), w)),
              os_realloc := (\<lambda>b n w. (Some 62, w))\<rparr>) 1;
            source_at (IrqInfo 60 0) })
     (\<lambda>rc s'. UB_dangling_pointer \<in> set (ub s')) demo_irqs"
proof (rule irq_growth_invalidates_epoll)
  show "irq_laws (demo\<lparr>os_ioctl_irq_alloc := (\<lambda>d w. ((0, Some 4096), w)),
      os_realloc := (\<lambda>b n w. (Some 62, w))\<rparr>)"
    using mmap_nonnull_demo by (simp add: irq_laws_def irq_ioctl_ok_def mmap_nonnull_def)
  show "irq_ok (cur_afu demo_irqs)"
    by (auto simp: irq_ok_def table_ok_def live_irqs_def held_irq_def demo_irqs_def demo_irq_def
        MAP_FAILED_def less_2_cases_iff split: if_splits)
qed (simp_all add: demo_irqs_def)

end
