(* ===== verification/Ocxl_Afu.thy ===== *)
theory Ocxl_Afu
  imports Ocxl_Irq
begin

text \<open>
  \<open>src/src/afu.c\<close>: the getters, opening an AFU by device, by name and by location,
  attaching it to the process, and closing it.

  An AFU handle is the block of its struct, \<open>None\<close> for \<open>OCXL_INVALID_AFU\<close>. The
  struct under construction or in use is the AFU of the state. What \<open>malloc\<close> returns holds
  whatever was there before; the model uses the struct of the state for that, and every
  field the code reads later is written by \<open>afu_init\<close> or \<open>populate_metadata\<close>.
\<close>

section \<open>Getters and message control\<close>

definition ocxl_afu_get_pasid :: "('w, u32) prog" where
  "ocxl_afu_get_pasid = afu_get pasid"

definition ocxl_afu_get_identifier :: "('w, ocxl_identifier) prog" where
  "ocxl_afu_get_identifier = afu_get afu_identifier"

definition ocxl_afu_get_device_path :: "('w, string option) prog" where
  "ocxl_afu_get_device_path = afu_get (\<lambda>a. map_option snd (device_path a))"

definition ocxl_afu_get_sysfs_path :: "('w, string option) prog" where
  "ocxl_afu_get_sysfs_path = afu_get (\<lambda>a. map_option snd (sysfs_path a))"

definition ocxl_afu_get_version :: "('w, u8 \<times> u8) prog" where
  "ocxl_afu_get_version = afu_get (\<lambda>a. (version_major a, version_minor a))"

definition ocxl_afu_enable_messages :: "u64 \<Rightarrow> ('w, unit) prog" where
  "ocxl_afu_enable_messages sources = afu_set (\<lambda>a. a\<lparr>
     afu_verbose_errors := (sources AND OCXL_ERRORS \<noteq> 0),
     afu_tracing := (sources AND OCXL_TRACING \<noteq> 0)\<rparr>)"

definition ocxl_afu_set_error_message_handler :: "handler \<Rightarrow> ('w, unit) prog" where
  "ocxl_afu_set_error_message_handler h = afu_set (\<lambda>a. a\<lparr>afu_error_handler := h\<rparr>)"

section \<open>Allocation\<close>

definition afu_init :: "'w platform \<Rightarrow> 'w \<Rightarrow> globals \<Rightarrow> ocxl_afu \<Rightarrow> ocxl_afu" where
  "afu_init K w g afu = afu\<lparr>
     afu_identifier := (afu_identifier afu)\<lparr>afu_name := []\<rparr>,
     device_path := None, sysfs_path := None, version_major := 0, version_minor := 0,
     afu_fd := - 1, afu_fd_info := \<lparr>src_type = EPOLL_SOURCE_OCXL, src_irq = None\<rparr>,
     epoll_fd := - 1, epoll_events := None, epoll_event_count := 0, global_mmio_fd := - 1,
     global_mmio := (global_mmio afu)\<lparr>mm_start := 0, mm_length := 0, mm_type := OCXL_GLOBAL_MMIO\<rparr>,
     per_pasid_mmio := (per_pasid_mmio afu)\<lparr>mm_start := 0, mm_length := 0,
       mm_type := OCXL_PER_PASID_MMIO\<rparr>,
     page_size := os_sysconf_pagesize K w,
     irqs := NullBuf, irq_count := 0, irq_max_count := 0,
     mmios := NullBuf, mmio_count := 0, mmio_max_count := 0,
     pasid := 0xFFFFFFFF, afu_verbose_errors := verbose_errors_all g,
     afu_error_handler := DefaultHandler, afu_tracing := tracing_all g, attached := False,
     ppc64_amr := (if arch_ppc64 K then 0 else ppc64_amr afu)\<rparr>"

definition afu_alloc :: "'w platform \<Rightarrow> ('w, ocxl_err \<times> block option) prog" where
  "afu_alloc K = do {
     b \<leftarrow> do_malloc K (sizeof_ocxl_afu K);
     (case b of
        None \<Rightarrow> do {
          errmsg NoAFU OCXL_NO_MEM ''Could not allocate %d bytes for AFU''
            [FInt (int (sizeof_ocxl_afu K))];
          State_Monad.return (OCXL_NO_MEM, None)
        }
      | Some x \<Rightarrow> do {
          modify (\<lambda>s. s\<lparr>cur_afu := afu_init K (wld s) (glb s) ((cur_afu s)\<lparr>afu_block := x\<rparr>)\<rparr>);
          State_Monad.return (OCXL_OK, Some x)
        })
   }"

section \<open>Finding the device\<close>

definition device_matches :: "'w platform \<Rightarrow> string \<Rightarrow> string \<Rightarrow> u64 \<Rightarrow> ('w, bool) prog" where
  "device_matches K dir dev_name dev = do {
     (rc, chr, rdev) \<leftarrow> sys (os_fstatat K dir dev_name);
     if rc = - 1 then State_Monad.return False
     else if \<not> chr then State_Monad.return False
     else State_Monad.return (dev = rdev)
   }"

text \<open>The \<open>do\<close> loop over the directory entries (lines 325 to 330).\<close>

fun find_entry :: "'w platform \<Rightarrow> string \<Rightarrow> u64 \<Rightarrow> string list \<Rightarrow> ('w, string option) prog" where
  "find_entry K dir dev [] = State_Monad.return None"
| "find_entry K dir dev (e # es) = do {
     found \<leftarrow> device_matches K dir e dev;
     if found then State_Monad.return (Some e) else find_entry K dir dev es
   }"

definition pci_format :: "scan_item list" where
  "pci_format = [ScanHex 32, ScanLit CHR '':'', ScanDec 8, ScanLit CHR '':'', ScanDec 8,
     ScanLit CHR ''.'', ScanDec 8, ScanLit CHR ''.'', ScanDec 8]"

text \<open>Lines 333 to 376, for the entry that was found.\<close>

definition populate_from_name :: "'w platform \<Rightarrow> string \<Rightarrow> ('w, bool) prog" where
  "populate_from_name K d_name = do {
     g \<leftarrow> gets glb;
     (case strchr d_name CHR ''.'' of
        None \<Rightarrow> do {
          errmsg NoAFU OCXL_INTERNAL_ERROR
            (''Could not extract physical function from device name '%s', missing initial '.'' @ squote)
            [FStr d_name];
          State_Monad.return False
        }
      | Some afu_name_len \<Rightarrow>
          if afu_name_len > AFU_NAME_MAX then do {
            errmsg NoAFU OCXL_INTERNAL_ERROR ''AFU name '%-.*s' exceeds maximum length of %d''
              [FInt (int afu_name_len), FStr d_name];
            State_Monad.return False
          } else do {
            let physical_function = drop (Suc afu_name_len) d_name;
            let vals = scan_items pci_format physical_function;
            let found = sscanf_count pci_format physical_function;
            whenM (length vals = 5) (afu_set (\<lambda>a. a\<lparr>afu_identifier :=
              (afu_identifier a)\<lparr>afu_index := of_nat (vals ! 4)\<rparr>\<rparr>));
            if found \<noteq> 5 then do {
              errmsg NoAFU OCXL_INTERNAL_ERROR
                ''Could not parse physical function '%s', only got %d components''
                [FStr physical_function, FInt found];
              State_Monad.return False
            } else do {
              afu_set (\<lambda>a. a\<lparr>afu_identifier :=
                (afu_identifier a)\<lparr>afu_name := take afu_name_len d_name\<rparr>\<rparr>);
              let dev_path_len = length (DEVICE_PATH g) + 1 + length d_name + 1;
              b \<leftarrow> do_malloc K dev_path_len;
              afu_set (\<lambda>a. a\<lparr>device_path :=
                map_option (\<lambda>x. (x, DEVICE_PATH g @ ''/'' @ d_name)) b\<rparr>);
              if b = None then do {
                errmsg NoAFU OCXL_INTERNAL_ERROR ''Could not allocate %llu bytes for device path''
                  [FInt (int dev_path_len)];
                State_Monad.return False
              } else do {
                let sysfs_path_len = length (SYS_PATH g) + 1 + length d_name + 1;
                b \<leftarrow> do_malloc K sysfs_path_len;
                afu_set (\<lambda>a. a\<lparr>sysfs_path :=
                  map_option (\<lambda>x. (x, SYS_PATH g @ ''/'' @ d_name)) b\<rparr>);
                if b = None then do {
                  errmsg NoAFU OCXL_INTERNAL_ERROR ''Could not allocate %llu bytes for sysfs path''
                    [FInt (int sysfs_path_len)];
                  State_Monad.return False
                } else State_Monad.return True
              }
            }
          })
   }"

definition populate_metadata :: "'w platform \<Rightarrow> u64 \<Rightarrow> ('w, bool) prog" where
  "populate_metadata K dev = do {
     dir \<leftarrow> gets (\<lambda>s. DEVICE_PATH (glb s));
     entries \<leftarrow> sys (os_opendir K dir);
     (case entries of
        None \<Rightarrow> State_Monad.return False
      | Some es \<Rightarrow> do {
          found \<leftarrow> find_entry K dir dev es;
          (case found of
             None \<Rightarrow> State_Monad.return False
           | Some d_name \<Rightarrow> populate_from_name K d_name)
        })
   }"

section \<open>Opening\<close>

definition path_text :: "(block \<times> string) option \<Rightarrow> string" where
  "path_text p = (case p of None \<Rightarrow> ''(null)'' | Some (_, t) \<Rightarrow> t)"

definition trace_metadata :: "('w, unit) prog" where
  "trace_metadata = do {
     a \<leftarrow> afu_get (\<lambda>a. a);
     TRACE_OPEN ''src/afu.c'' 386 ''trace_metadata'' ''device path=\"%s\"'' [FStr (path_text (device_path a))];
     TRACE_OPEN ''src/afu.c'' 387 ''trace_metadata'' ''sysfs path=\"%s\"'' [FStr (path_text (sysfs_path a))];
     TRACE_OPEN ''src/afu.c'' 388 ''trace_metadata'' ''AFU Name=\"%s\"''
       [FStr (afu_name (afu_identifier a))];
     TRACE_OPEN ''src/afu.c'' 389 ''trace_metadata'' ''AFU Index=%u''
       [FInt (uint (afu_index (afu_identifier a)))];
     TRACE_OPEN ''src/afu.c'' 390 ''trace_metadata'' ''AFU Version=%u:%u''
       [FInt (uint (version_major a)), FInt (uint (version_minor a))];
     TRACE_OPEN ''src/afu.c'' 391 ''trace_metadata'' ''Global MMIO size=%llu''
       [FInt (uint (mm_length (global_mmio a)))];
     TRACE_OPEN ''src/afu.c'' 392 ''trace_metadata'' ''Per PASID MMIO size=%llu''
       [FInt (uint (mm_length (per_pasid_mmio a)))];
     TRACE_OPEN ''src/afu.c'' 393 ''trace_metadata'' ''Page Size=%llu'' [FInt (uint (page_size a))];
     TRACE_OPEN ''src/afu.c'' 394 ''trace_metadata'' ''PASID=%lu'' [FInt (uint (pasid a))]
   }"

text \<open>Lines 437 to 472: the epoll descriptor and the metadata of the context.\<close>

definition open_context :: "'w platform \<Rightarrow> ('w, ocxl_err) prog" where
  "open_context K = do {
     d \<leftarrow> afu_get afu_fd;
     ep \<leftarrow> do_epoll_create K;
     if ep < 0 then do {
       e \<leftarrow> errno K;
       errmsg NoAFU OCXL_NO_DEV ''Could not create epoll descriptor. Error %d: %s''
         [FInt e, FStr (os_strerror K e)];
       State_Monad.return OCXL_NO_DEV
     } else do {
       afu_set (\<lambda>a. a\<lparr>epoll_fd := ep\<rparr>);
       self \<leftarrow> afu_get afu_block;
       r \<leftarrow> do_epoll_add K ep d (AfuInfo self);
       if r = - 1 then do {
         e \<leftarrow> errno K;
         errmsg NoAFU OCXL_NO_DEV
           (''Could not add device fd %d to epoll fd %d: %d: '%s'' @ squote)
           [FInt d, FInt ep, FInt e, FStr (os_strerror K e)];
         State_Monad.return OCXL_NO_DEV
       } else do {
         (rc, md) \<leftarrow> sys (os_ioctl_get_metadata K d);
         if rc \<noteq> 0 then do {
           e \<leftarrow> errno K;
           errmsg NoAFU OCXL_NO_DEV ''OCXL_IOCTL_GET_METADATA failed %d:%s''
             [FInt e, FStr (os_strerror K e)];
           State_Monad.return OCXL_NO_DEV
         } else do {
           afu_set (\<lambda>a. a\<lparr>version_major := md_version_major md,
             version_minor := md_version_minor md,
             per_pasid_mmio := (per_pasid_mmio a)\<lparr>mm_length := md_pp_mmio_size md\<rparr>,
             global_mmio := (global_mmio a)\<lparr>mm_length := md_global_mmio_size md\<rparr>,
             pasid := md_pasid md\<rparr>);
           trace_metadata;
           State_Monad.return OCXL_OK
         }
       }
     }
   }"

definition afu_open :: "'w platform \<Rightarrow> ('w, ocxl_err) prog" where
  "afu_open K = do {
     d0 \<leftarrow> afu_get afu_fd;
     if d0 \<noteq> - 1 then State_Monad.return OCXL_ALREADY_DONE
     else do {
       dp \<leftarrow> afu_get device_path;
       whenM (dp = None) (undefined_behaviour UB_null_argument);
       d \<leftarrow> do_open K (path_text dp) (O_RDWR + O_CLOEXEC + O_NONBLOCK);
       if d < 0 then do {
         e \<leftarrow> errno K;
         if e = ENOSPC then do {
           errmsg NoAFU OCXL_NO_MORE_CONTEXTS
             ''Could not open AFU device '%s', the maximum number of contexts has been reached: Error %d: %s''
             [FStr (path_text dp), FInt e, FStr (os_strerror K e)];
           State_Monad.return OCXL_NO_MORE_CONTEXTS
         } else do {
           errmsg NoAFU OCXL_NO_DEV ''Could not open AFU device '%s': Error %d: %s''
             [FStr (path_text dp), FInt e, FStr (os_strerror K e)];
           State_Monad.return OCXL_NO_DEV
         }
       } else do {
         afu_set (\<lambda>a. a\<lparr>afu_fd := d\<rparr>);
         rc \<leftarrow> global_mmio_open K;
         if rc \<noteq> OCXL_OK then do {
           errmsg NoAFU rc ''Could not open global MMIO descriptor'' [];
           State_Monad.return rc
         } else open_context K
       }
     }
   }"

text \<open>\<open>major\<close> and \<open>minor\<close> of a device number.\<close>

definition dev_major :: "u64 \<Rightarrow> u64" where
  "dev_major d = (drop_bit 8 d AND 0xFFF) OR (drop_bit 32 d AND 0xFFFFF000)"

definition dev_minor :: "u64 \<Rightarrow> u64" where
  "dev_minor d = (d AND 0xFF) OR (drop_bit 12 d AND 0xFFFFFF00)"

definition get_afu_by_path :: "'w platform \<Rightarrow> string \<Rightarrow> ('w, ocxl_err \<times> block option) prog" where
  "get_afu_by_path K path = do {
     (rc, afu_h) \<leftarrow> afu_alloc K;
     if rc \<noteq> OCXL_OK then State_Monad.return (rc, None)
     else do {
       (r, rdev) \<leftarrow> sys (os_stat K path);
       if r \<noteq> 0 then do {
         e \<leftarrow> errno K;
         errmsg NoAFU OCXL_NO_DEV ''Could not start AFU device '%s': Error %d: %s''
           [FStr path, FInt e, FStr (os_strerror K e)];
         do_free K afu_h;
         State_Monad.return (OCXL_NO_DEV, None)
       } else do {
         found \<leftarrow> populate_metadata K rdev;
         if \<not> found then do {
           dir \<leftarrow> gets (\<lambda>s. DEVICE_PATH (glb s));
           errmsg NoAFU OCXL_NO_DEV
             (''Could not find OCXL device for '%s', major=%d, minor=%d, device expected in '%s'' @ squote)
             [FStr path, FInt (uint (dev_major rdev)), FInt (uint (dev_minor rdev)), FStr dir];
           do_free K afu_h;
           State_Monad.return (OCXL_NO_DEV, None)
         } else State_Monad.return (OCXL_OK, afu_h)
       }
     }
   }"

section \<open>Closing\<close>

text \<open>The two loops of \<open>ocxl_afu_close\<close>.\<close>

fun close_mmios :: "'w platform \<Rightarrow> nat list \<Rightarrow> ('w, unit) prog" where
  "close_mmios K [] = skip"
| "close_mmios K (i # is) = do {
     blk \<leftarrow> afu_get (\<lambda>a. case buf_block (mmios a) of None \<Rightarrow> 0 | Some b \<Rightarrow> b);
     ocxl_mmio_unmap K (blk, i);
     close_mmios K is
   }"

fun close_irqs :: "'w platform \<Rightarrow> nat list \<Rightarrow> ('w, unit) prog" where
  "close_irqs K [] = skip"
| "close_irqs K (i # is) = do {
     q \<leftarrow> irqs_at i;
     q \<leftarrow> irq_dealloc K q;
     irqs_put i q;
     close_irqs K is
   }"

text \<open>Lines 707 to 716: the interrupts and their array.\<close>

definition release_irqs :: "'w platform \<Rightarrow> ('w, unit) prog" where
  "release_irqs K = do {
     ib \<leftarrow> afu_get (\<lambda>a. buf_block (irqs a));
     whenM (ib \<noteq> None) (do {
       c \<leftarrow> afu_get irq_count;
       close_irqs K [0..<unat c];
       do_free K ib;
       afu_set (\<lambda>a. a\<lparr>irqs := NullBuf, irq_count := 0, irq_max_count := 0\<rparr>)
     })
   }"

text \<open>Lines 718 to 740: the epoll buffer, the descriptors, the paths and the struct itself.\<close>

definition release_context :: "'w platform \<Rightarrow> ('w, unit) prog" where
  "release_context K = do {
     eb \<leftarrow> afu_get epoll_events;
     whenM (eb \<noteq> None) (do {
       do_free K eb;
       afu_set (\<lambda>a. a\<lparr>epoll_event_count := 0\<rparr>)
     });
     ep \<leftarrow> afu_get epoll_fd;
     do_close K ep;
     afu_set (\<lambda>a. a\<lparr>epoll_fd := - 1\<rparr>);
     d \<leftarrow> afu_get afu_fd;
     do_close K d;
     afu_set (\<lambda>a. a\<lparr>afu_fd := - 1, attached := False\<rparr>);
     dp \<leftarrow> afu_get device_path;
     whenM (dp \<noteq> None) (do {
       do_free K (map_option fst dp);
       afu_set (\<lambda>a. a\<lparr>device_path := None\<rparr>)
     });
     sp \<leftarrow> afu_get sysfs_path;
     whenM (sp \<noteq> None) (do {
       do_free K (map_option fst sp);
       afu_set (\<lambda>a. a\<lparr>sysfs_path := None\<rparr>)
     });
     self \<leftarrow> afu_get afu_block;
     do_free K (Some self)
   }"

definition ocxl_afu_close :: "'w platform \<Rightarrow> ('w, ocxl_err) prog" where
  "ocxl_afu_close K = do {
     d \<leftarrow> afu_get afu_fd;
     if d < 0 then State_Monad.return OCXL_ALREADY_DONE
     else do {
       n \<leftarrow> afu_get mmio_count;
       close_mmios K [0..<unat n];
       gfd \<leftarrow> afu_get global_mmio_fd;
       whenM (gfd \<noteq> - 1) (do {
         do_close K gfd;
         afu_set (\<lambda>a. a\<lparr>global_mmio_fd := - 1\<rparr>)
       });
       release_irqs K;
       release_context K;
       State_Monad.return OCXL_OK
     }
   }"

section \<open>Opening by device, by location, by name\<close>

definition ocxl_afu_open_from_dev :: "'w platform \<Rightarrow> string \<Rightarrow> ('w, ocxl_err \<times> block option) prog" where
  "ocxl_afu_open_from_dev K path = do {
     libocxl_init K;
     (rc, afu) \<leftarrow> get_afu_by_path K path;
     if rc \<noteq> OCXL_OK then State_Monad.return (rc, None)
     else do {
       rc \<leftarrow> afu_open K;
       if rc \<noteq> OCXL_OK then do {
         ocxl_afu_close K;
         State_Monad.return (rc, None)
       } else State_Monad.return (OCXL_OK, afu)
     }
   }"

definition open_pattern :: "globals \<Rightarrow> string \<Rightarrow> string option \<Rightarrow> int \<Rightarrow> string" where
  "open_pattern g nm physical_function index =
     take (PATH_MAX - 1) (DEVICE_PATH g @ ''/'' @ nm @ ''.'' @
       (case physical_function of None \<Rightarrow> ''*'' | Some p \<Rightarrow> p) @ ''.'' @
       (if index = - 1 then ''*'' else signed_text index))"

text \<open>The loop over the matching devices (lines 599 to 613).\<close>

fun open_first ::
  "'w platform \<Rightarrow> string list \<Rightarrow> ocxl_err \<times> block option \<Rightarrow> ('w, ocxl_err \<times> block option) prog" where
  "open_first K [] ret = State_Monad.return ret"
| "open_first K (p # ps) ret = do {
     r \<leftarrow> ocxl_afu_open_from_dev K p;
     if fst r = OCXL_NO_MORE_CONTEXTS then open_first K ps r else State_Monad.return r
   }"

definition ocxl_afu_open_specific ::
  "'w platform \<Rightarrow> string \<Rightarrow> string option \<Rightarrow> int \<Rightarrow> ('w, ocxl_err \<times> block option) prog" where
  "ocxl_afu_open_specific K nm physical_function index = do {
     libocxl_init K;
     g \<leftarrow> gets glb;
     let pattern = open_pattern g nm physical_function index;
     (rc, paths) \<leftarrow> sys (os_glob K pattern);
     if rc = 0 then open_first K paths (OCXL_INTERNAL_ERROR, None)
     else if rc = GLOB_NOSPACE then do {
       errmsg NoAFU OCXL_NO_MEM ''No memory for glob while listing AFUs'' [];
       State_Monad.return (OCXL_NO_MEM, None)
     } else if rc = GLOB_NOMATCH then do {
       errmsg NoAFU OCXL_NO_DEV (''No OCXL devices found in '%s' with pattern '%s'' @ squote)
         [FStr (DEVICE_PATH g), FStr pattern];
       State_Monad.return (OCXL_NO_DEV, None)
     } else do {
       errmsg NoAFU OCXL_INTERNAL_ERROR ''Glob error %d while listing AFUs'' [FInt rc];
       State_Monad.return (OCXL_INTERNAL_ERROR, None)
     }
   }"

definition ocxl_afu_open :: "'w platform \<Rightarrow> string \<Rightarrow> ('w, ocxl_err \<times> block option) prog" where
  "ocxl_afu_open K nm = ocxl_afu_open_specific K nm None (- 1)"

section \<open>Attaching\<close>

definition ocxl_afu_attach :: "'w platform \<Rightarrow> u64 \<Rightarrow> ('w, ocxl_err) prog" where
  "ocxl_afu_attach K flags = do {
     d \<leftarrow> afu_get afu_fd;
     if d = - 1 then do {
       errmsg ThisAFU OCXL_NO_CONTEXT ''Attempted to attach a closed AFU context'' [];
       State_Monad.return OCXL_NO_CONTEXT
     } else do {
       amr \<leftarrow> afu_get ppc64_amr;
       r \<leftarrow> do_attach K d (if arch_ppc64 K then amr else 0);
       if r \<noteq> 0 then do {
         e \<leftarrow> errno K;
         errmsg ThisAFU OCXL_INTERNAL_ERROR ''OCXL_IOCTL_ATTACH failed %d:%s''
           [FInt e, FStr (os_strerror K e)];
         State_Monad.return OCXL_INTERNAL_ERROR
       } else do {
         afu_set (\<lambda>a. a\<lparr>attached := True\<rparr>);
         State_Monad.return OCXL_OK
       }
     }
   }"

definition ocxl_afu_set_ppc64_amr :: "u64 \<Rightarrow> ('w, ocxl_err) prog" where
  "ocxl_afu_set_ppc64_amr amr = do {
     afu_set (\<lambda>a. a\<lparr>ppc64_amr := amr\<rparr>);
     State_Monad.return OCXL_OK
   }"

section \<open>What an open AFU holds\<close>

definition fd_owned :: "int \<Rightarrow> resource \<Rightarrow> int" where
  "fd_owned d r = of_bool (d \<noteq> - 1 \<and> r = RFd d)"

definition mem_owned :: "block option \<Rightarrow> resource \<Rightarrow> int" where
  "mem_owned b r = of_bool (map_option RMem b = Some r)"

definition irqs_owned :: "ocxl_afu \<Rightarrow> resource \<Rightarrow> int" where
  "irqs_owned a r = (\<Sum>i<unat (irq_count a).
     case live_irqs a i of None \<Rightarrow> 0 | Some q \<Rightarrow> irq_owned a q r)"

definition base_owned :: "ocxl_afu \<Rightarrow> resource \<Rightarrow> int" where
  "base_owned a r = fd_owned (afu_fd a) r + fd_owned (global_mmio_fd a) r + fd_owned (epoll_fd a) r +
     mem_owned (epoll_events a) r + mem_owned (map_option fst (device_path a)) r +
     mem_owned (map_option fst (sysfs_path a)) r + mem_owned (Some (afu_block a)) r"

definition owned :: "ocxl_afu \<Rightarrow> resource \<Rightarrow> int" where
  "owned a r = region_owned (live_regions a) r + block_owned (mmios a) r +
     irqs_owned a r + block_owned (irqs a) r + base_owned a r"

text \<open>The excess of the call record over what the AFU holds: what others hold, and what leaked.\<close>

definition debt :: "'w st \<Rightarrow> resource \<Rightarrow> int" where
  "debt s r = balance (calls s) r - owned (cur_afu s) r"

text \<open>A function of the AFU that does not look at one of the arrays does not see it change.\<close>

lemma no_mmios_cong:
  "no_mmios a' = no_mmios a \<Longrightarrow> (\<And>b. f (no_mmios b) = f b) \<Longrightarrow> f a' = f a"
  by metis

lemma no_irqs_cong:
  "no_irqs a' = no_irqs a \<Longrightarrow> (\<And>b. f (no_irqs b) = f b) \<Longrightarrow> f a' = f a"
  by metis

lemma no_mmios_owned:
  assumes "no_mmios a' = no_mmios a"
  shows "base_owned a' = base_owned a" "irqs_owned a' = irqs_owned a" "irqs a' = irqs a"
proof -
  note f = no_mmios_cong [OF assms]
  show "irqs a' = irqs a" by (rule f) (simp add: no_mmios_def)
  show "base_owned a' = base_owned a"
    by (rule f) (simp add: no_mmios_def base_owned_def fun_eq_iff)
  show "irqs_owned a' = irqs_owned a"
    by (rule f) (simp add: no_mmios_def irqs_owned_def irq_owned_def live_irqs_def fun_eq_iff
        cong: option.case_cong)
qed

lemma debt_mmios:
  assumes "no_mmios (cur_afu s') = no_mmios (cur_afu s)" "mapping_debt s' = mapping_debt s"
  shows "debt s' = debt s"
proof
  fix r
  show "debt s' r = debt s r"
    using fun_cong [OF assms(2), of r] no_mmios_owned [OF assms(1)]
    by (simp add: debt_def owned_def mapping_debt_def)
qed

lemma no_irqs_owned:
  assumes "no_irqs a' = no_irqs a"
  shows "base_owned a' = base_owned a" "live_regions a' = live_regions a" "mmios a' = mmios a"
    "irq_owned a' = irq_owned a"
proof -
  note f = no_irqs_cong [OF assms]
  show "mmios a' = mmios a" by (rule f) (simp add: no_irqs_def)
  show "base_owned a' = base_owned a"
    by (rule f) (simp add: no_irqs_def base_owned_def fun_eq_iff)
  show "live_regions a' = live_regions a"
    by (rule f) (simp add: no_irqs_def live_regions_def fun_eq_iff)
  show "irq_owned a' = irq_owned a"
    by (rule f) (simp add: no_irqs_def irq_owned_def fun_eq_iff)
qed

lemma irqs_owned_push:
  assumes "live_irqs a' = (live_irqs a)(unat (irq_count a) \<mapsto> q)"
    "unat (irq_count a') = Suc (unat (irq_count a))" "irq_owned a' = irq_owned a"
  shows "irqs_owned a' r = irqs_owned a r + irq_owned a q r"
  using assms by (simp add: irqs_owned_def cong: option.case_cong)

lemma debt_irqs:
  assumes p: "irq_alloc_post info s r s'" and x: "x \<noteq> RMap MAP_FAILED (page_size (cur_afu s))"
  shows "debt s' x = debt s x"
proof -
  have n: "no_irqs (cur_afu s') = no_irqs (cur_afu s)" using p by (simp add: irq_alloc_post_def Let_def)
  show ?thesis
  proof (cases "snd r")
    case None
    with p have "live_irqs (cur_afu s') = live_irqs (cur_afu s)" "irq_count (cur_afu s') = irq_count (cur_afu s)"
      "balance (calls s') x - block_owned (irqs (cur_afu s')) x =
        balance (calls s) x - block_owned (irqs (cur_afu s)) x"
      using x by (auto simp: irq_alloc_post_def Let_def split: prod.splits)
    with no_irqs_owned [OF n] show ?thesis
      by (simp add: debt_def owned_def irqs_owned_def cong: option.case_cong)
  next
    case (Some h)
    with p obtain q where "live_irqs (cur_afu s') = (live_irqs (cur_afu s))(unat (irq_count (cur_afu s)) \<mapsto> q)"
      "unat (irq_count (cur_afu s')) = Suc (unat (irq_count (cur_afu s)))"
      "balance (calls s') x - block_owned (irqs (cur_afu s')) x =
        balance (calls s) x - block_owned (irqs (cur_afu s)) x + irq_owned (cur_afu s) q x"
      by (auto simp: irq_alloc_post_def Let_def split: prod.splits)
    with no_irqs_owned [OF n] irqs_owned_push [of "cur_afu s'" "cur_afu s" q x] show ?thesis
      by (simp add: debt_def owned_def)
  qed
qed

section \<open>Closing\<close>

lemma unmap_debt:
  assumes u: "unmap_post h m s s'" and d: "mmio_deref (cur_afu s) h = Some m"
    and i: "snd h < unat (mmio_count (cur_afu s))"
  shows "mapping_debt s' = mapping_debt s"
proof
  fix r
  have l: "live_regions (cur_afu s) (snd h) = (if mm_start m = 0 then None else Some m)"
    using live_regions_deref [of "cur_afu s" "fst h" "snd h" m] d i by simp
  have u': "live_regions (cur_afu s') = (live_regions (cur_afu s))(snd h := None)"
    "buf_block (mmios (cur_afu s')) = buf_block (mmios (cur_afu s))"
    "calls s' = calls s @ (if mm_start m = 0 then [] else [CMunmap (mm_start m) (mm_length m)])"
    using u by (simp_all add: unmap_post_def Let_def)
  show "mapping_debt s' r = mapping_debt s r"
  proof (cases "mm_start m = 0")
    case True
    with l u' show ?thesis by (simp add: mapping_debt_def block_owned_def fun_upd_idem)
  next
    case False
    with l u' region_owned_remove [OF finite_live, of "cur_afu s" "snd h" m r] show ?thesis
      by (auto simp: mapping_debt_def block_owned_def effect_def)
  qed
qed

definition closing_post :: "nat set \<Rightarrow> 'w st \<Rightarrow> 'w st \<Rightarrow> bool" where
  "closing_post I s s' \<longleftrightarrow> mmio_ok (cur_afu s') \<and> no_mmios (cur_afu s') = no_mmios (cur_afu s) \<and>
     glb s' = glb s \<and> ub s' = ub s \<and> mmio_count (cur_afu s') = mmio_count (cur_afu s) \<and>
     buf_block (mmios (cur_afu s')) = buf_block (mmios (cur_afu s)) \<and>
     mapping_debt s' = mapping_debt s \<and>
     live_regions (cur_afu s') = (live_regions (cur_afu s)) |` (- I)"

lemma close_mmios_spec:
  assumes "mmio_ok (cur_afu s)" "set is \<subseteq> {..<unat (mmio_count (cur_afu s))}"
  shows "wp (close_mmios K is) (\<lambda>_. closing_post (set is) s) s"
  using assms
proof (induction "is" arbitrary: s)
  case Nil
  then show ?case by (simp add: wp_simps closing_post_def restrict_map_def)
next
  case (Cons i "is")
  let ?a = "cur_afu s"
  have i: "i < unat (mmio_count ?a)" using Cons.prems(2) by simp
  from table_ok_cell [OF Cons.prems(1) [unfolded mmio_ok_def] i] obtain m where
    m: "i < length (buf_cells (mmios ?a))" "buf_cells (mmios ?a) ! i = Obj m" by blast
  then obtain b where b: "buf_block (mmios ?a) = Some b" by (cases "mmios ?a") auto
  with m have d: "mmio_deref ?a (b, i) = Some m" by (simp add: mmio_deref_iff)
  have first: "wp (ocxl_mmio_unmap K (b, i)) (\<lambda>_. unmap_post (b, i) m s) s"
    using Cons.prems(1) d i by (intro unmap_spec) simp_all
  have rest: "wp (close_mmios K is) (\<lambda>_. closing_post (set (i # is)) s) s1"
    if u: "unmap_post (b, i) m s s1" for s1
  proof -
    have u': "mmio_ok (cur_afu s1)" "mmio_count (cur_afu s1) = mmio_count ?a"
      using u by (simp_all add: unmap_post_def Let_def)
    then have "wp (close_mmios K is) (\<lambda>_. closing_post (set is) s1) s1"
      using Cons.prems(2) by (intro Cons.IH) simp_all
    then show ?thesis
      by (rule wp_mono) (use u unmap_debt [OF u d] i in
        \<open>auto simp: closing_post_def unmap_post_def Let_def restrict_map_def fun_eq_iff\<close>)
  qed
  show ?case
    using wp_mono [OF first rest] by (simp add: wp_simps b)
qed

lemma wp_irqs_at:
  "i < length (buf_cells (irqs (cur_afu s))) \<Longrightarrow> buf_cells (irqs (cur_afu s)) ! i = Obj q \<Longrightarrow>
   wp (irqs_at i) Q s = Q q s"
  by (simp add: irqs_at_def wp_simps)

definition cell_owned :: "ocxl_afu \<Rightarrow> resource \<Rightarrow> nat \<Rightarrow> int" where
  "cell_owned a r i = (case buf_cells (irqs a) ! i of Obj q \<Rightarrow> irq_owned a q r | _ \<Rightarrow> 0)"

definition irqs_closing :: "nat list \<Rightarrow> 'w st \<Rightarrow> 'w st \<Rightarrow> bool" where
  "irqs_closing is s s' \<longleftrightarrow>
     table_ok (irqs (cur_afu s')) (irq_count (cur_afu s')) (irq_max_count (cur_afu s')) \<and>
     no_irqs (cur_afu s') = no_irqs (cur_afu s) \<and> irq_count (cur_afu s') = irq_count (cur_afu s) \<and>
     glb s' = glb s \<and> ub s' = ub s \<and>
     buf_block (irqs (cur_afu s')) = buf_block (irqs (cur_afu s)) \<and>
     (\<forall>r. balance (calls s') r = balance (calls s) r - sum_list (map (cell_owned (cur_afu s) r) is))"

lemma close_irqs_spec:
  assumes "table_ok (irqs (cur_afu s)) (irq_count (cur_afu s)) (irq_max_count (cur_afu s))"
    "set is \<subseteq> {..<unat (irq_count (cur_afu s))}" "distinct is"
  shows "wp (close_irqs K is) (\<lambda>_. irqs_closing is s) s"
  using assms
proof (induction "is" arbitrary: s)
  case Nil
  then show ?case by (simp add: wp_simps irqs_closing_def)
next
  case (Cons i "is")
  let ?a = "cur_afu s"
  have i: "i < unat (irq_count ?a)" using Cons.prems(2) by simp
  from table_ok_cell [OF Cons.prems(1) i] obtain q where
    q: "i < length (buf_cells (irqs ?a))" "buf_cells (irqs ?a) ! i = Obj q" by blast
  have rest: "wp (close_irqs K is) (\<lambda>_. irqs_closing (i # is) s)
      (s1\<lparr>cur_afu := ?a\<lparr>irqs := buf_update i q' (irqs ?a)\<rparr>\<rparr>)"
    if s1: "same_afu s s1" "\<forall>r. balance (calls s1) r = balance (calls s) r - irq_owned ?a q r" for s1 q'
  proof -
    let ?s2 = "s1\<lparr>cur_afu := ?a\<lparr>irqs := buf_update i q' (irqs ?a)\<rparr>\<rparr>"
    have "wp (close_irqs K is) (\<lambda>_. irqs_closing is ?s2) ?s2"
      using Cons.prems i by (intro Cons.IH) (simp_all add: table_ok_update)
    moreover have "cell_owned (cur_afu ?s2) r j = cell_owned ?a r j" if "j \<in> set is" for r j
    proof -
      have "i \<noteq> j" using that Cons.prems(3) by auto
      then show ?thesis by (simp add: cell_owned_def irq_owned_def cong: cell.case_cong)
    qed
    then have "sum_list (map (cell_owned (cur_afu ?s2) r) is) = sum_list (map (cell_owned ?a r) is)" for r
      by (intro arg_cong [of _ _ sum_list] map_cong) simp_all
    moreover have "cell_owned ?a r i = irq_owned ?a q r" for r by (simp add: cell_owned_def q)
    ultimately show ?thesis
      using s1 by (elim wp_mono) (auto simp: irqs_closing_def same_afu_def)
  qed
  show ?case
    unfolding close_irqs.simps wp_bind wp_irqs_at [OF q]
    by (rule wp_mono [OF irq_dealloc_spec])
      (use q rest in \<open>auto simp: same_afu_def wp_irqs_put\<close>)
qed

lemma irqs_owned_cells:
  assumes "table_ok (irqs a) (irq_count a) (irq_max_count a)"
  shows "sum_list (map (cell_owned a r) [0..<unat (irq_count a)]) = irqs_owned a r"
proof -
  have "cell_owned a r i = (case live_irqs a i of None \<Rightarrow> 0 | Some q \<Rightarrow> irq_owned a q r)"
    if "i < unat (irq_count a)" for i
    using that table_ok_cell [OF assms that] by (auto simp: cell_owned_def live_irqs_def)
  then show ?thesis
    by (simp add: irqs_owned_def sum_list_sum_nth atLeast0LessThan cong: sum.cong_simp)
qed

lemma fd_owned_none [simp]: "fd_owned (- 1) r = 0"
  by (simp add: fd_owned_def)

lemma base_owned_global:
  "base_owned (a\<lparr>global_mmio_fd := - 1\<rparr>) r = base_owned a r - fd_owned (global_mmio_fd a) r"
  by (simp add: base_owned_def)

lemma effect_simps:
  "effect (CFree b) r = - mem_owned b r"
  "effect (CClose d) r = - of_bool (r = RFd d)"
  by (auto simp: effect_def mem_owned_def)

text \<open>Closing an open AFU gives back everything it holds except the block of the region array.\<close>

definition closed_post :: "'w st \<Rightarrow> ocxl_err \<Rightarrow> 'w st \<Rightarrow> bool" where
  "closed_post s rc s' \<longleftrightarrow> rc = OCXL_OK \<and> ub s' = ub s \<and> glb s' = glb s \<and>
     (\<forall>r. r \<noteq> RFd (- 1) \<longrightarrow> balance (calls s') r =
        balance (calls s) r - owned (cur_afu s) r + block_owned (mmios (cur_afu s)) r) \<and>
     afu_fd (cur_afu s') = - 1 \<and> live_regions (cur_afu s') = Map.empty \<and> irq_count (cur_afu s') = 0"

lemma release_irqs_spec:
  assumes t: "table_ok (irqs (cur_afu s)) (irq_count (cur_afu s)) (irq_max_count (cur_afu s))"
  shows "wp (release_irqs K) (\<lambda>_ s'. no_irqs (cur_afu s') = no_irqs (cur_afu s) \<and> irq_count (cur_afu s') = 0 \<and>
     glb s' = glb s \<and> ub s' = ub s \<and>
     (\<forall>r. balance (calls s') r =
        balance (calls s) r - irqs_owned (cur_afu s) r - block_owned (irqs (cur_afu s)) r)) s"
proof (cases "buf_block (irqs (cur_afu s))")
  case None
  then have "irqs (cur_afu s) = NullBuf" by (cases "irqs (cur_afu s)") auto
  with t have "unat (irq_count (cur_afu s)) = 0" by (simp add: table_ok_def word_le_nat_alt)
  then have "irq_count (cur_afu s) = 0" by (simp add: unat_eq_0)
  with None show ?thesis
    by (simp add: release_irqs_def wp_simps irqs_owned_def block_owned_def)
next
  case (Some b)
  have "wp (close_irqs K [0..<unat (irq_count (cur_afu s))])
      (\<lambda>_. irqs_closing [0..<unat (irq_count (cur_afu s))] s) s"
    using t by (intro close_irqs_spec) auto
  then show ?thesis
    using Some irqs_owned_cells [OF t]
    by (auto simp: release_irqs_def wp_simps wp_call irqs_closing_def effect_simps mem_owned_def
        block_owned_def no_irqs_def elim!: wp_mono)
qed

lemma release_context_spec:
  assumes "0 \<le> afu_fd (cur_afu s)"
  shows "wp (release_context K) (\<lambda>_ s'. glb s' = glb s \<and> ub s' = ub s \<and>
     afu_fd (cur_afu s') = - 1 \<and> irq_count (cur_afu s') = irq_count (cur_afu s) \<and>
     live_regions (cur_afu s') = live_regions (cur_afu s) \<and>
     (\<forall>r. r \<noteq> RFd (- 1) \<longrightarrow> balance (calls s') r =
        balance (calls s) r - (base_owned (cur_afu s) r - fd_owned (global_mmio_fd (cur_afu s)) r))) s"
  using assms
  by (auto simp: release_context_def wp_simps wp_call effect_simps base_owned_def fd_owned_def
      mem_owned_def live_regions_def)

text \<open>After the two loops have run, the rest of the function releases what is left.\<close>

lemma close_tail_context:
  assumes a2: "0 \<le> afu_fd a2" "global_mmio_fd a2 = - 1" "live_regions a2 = Map.empty"
    and r: "no_irqs (cur_afu s3) = no_irqs a2" "irq_count (cur_afu s3) = 0" "glb s3 = glb s" "ub s3 = ub s"
    and bal: "\<And>r. balance (calls s3) r = balance (calls s) r - owned (cur_afu s) r +
      block_owned (mmios (cur_afu s)) r + base_owned a2 r"
  shows "wp (release_context K) (\<lambda>_. closed_post s OCXL_OK) s3"
proof -
  have "afu_fd (cur_afu s3) = afu_fd a2" "global_mmio_fd (cur_afu s3) = - 1"
    using no_irqs_cong [OF r(1), of afu_fd] no_irqs_cong [OF r(1), of global_mmio_fd] a2(2)
    by (simp_all add: no_irqs_def)
  with a2 r bal no_irqs_owned [OF r(1)] show ?thesis
    by (intro wp_mono [OF release_context_spec]) (auto simp: closed_post_def)
qed

lemma close_tail:
  assumes open_fd: "0 \<le> afu_fd (cur_afu s)"
    and irqs_ok: "table_ok (irqs (cur_afu s)) (irq_count (cur_afu s)) (irq_max_count (cur_afu s))"
    and c: "closing_post {0..<unat (mmio_count (cur_afu s))} s s1"
    and s2: "glb s2 = glb s" "ub s2 = ub s" "cur_afu s2 = (cur_afu s1)\<lparr>global_mmio_fd := - 1\<rparr>"
      "\<And>r. balance (calls s2) r = balance (calls s1) r - fd_owned (global_mmio_fd (cur_afu s)) r"
  shows "wp (do { release_irqs K; release_context K; State_Monad.return OCXL_OK }) (closed_post s) s2"
proof -
  let ?a = "cur_afu s" and ?a1 = "cur_afu s1" and ?a2 = "cur_afu s2"
  have n: "no_mmios ?a1 = no_mmios ?a" using c by (simp add: closing_post_def)
  note f = no_mmios_cong [OF n]
  have flds: "irqs ?a2 = irqs ?a" "irq_count ?a2 = irq_count ?a" "irq_max_count ?a2 = irq_max_count ?a"
    "afu_fd ?a2 = afu_fd ?a" "page_size ?a2 = page_size ?a"
    using f [of irqs] f [of irq_count] f [of irq_max_count] f [of afu_fd] f [of page_size] s2(3)
    by (simp_all add: no_mmios_def)
  have io: "irqs_owned ?a2 r = irqs_owned ?a r" for r
    by (simp add: irqs_owned_def live_irqs_def irq_owned_def flds cong: option.case_cong)
  have bo: "base_owned ?a2 r = base_owned ?a r - fd_owned (global_mmio_fd ?a) r" for r
    using no_mmios_owned(1) [OF n] f [of global_mmio_fd] s2(3) base_owned_global [of ?a1 r]
    by (simp add: no_mmios_def)
  have "(live_regions ?a) |` (- {0..<unat (mmio_count ?a)}) = Map.empty"
    by (auto simp: live_regions_def restrict_map_def fun_eq_iff)
  then have "live_regions ?a1 = Map.empty" using c by (simp add: closing_post_def)
  moreover have "live_regions ?a2 = live_regions ?a1" using s2(3) by (simp add: live_regions_def fun_eq_iff)
  ultimately have live: "live_regions ?a2 = Map.empty" "live_regions ?a1 = Map.empty" by simp_all
  have "balance (calls s1) r = balance (calls s) r - region_owned (live_regions ?a) r" for r
    using c live(2) by (auto simp: closing_post_def mapping_debt_def block_owned_def fun_eq_iff)
  with s2(4) io bo flds(1)
  have bal: "balance (calls s2) r - irqs_owned ?a2 r - block_owned (irqs ?a2) r =
      balance (calls s) r - owned ?a r + block_owned (mmios ?a) r + base_owned ?a2 r" for r
    by (simp add: owned_def)
  have t2: "table_ok (irqs ?a2) (irq_count ?a2) (irq_max_count ?a2)" using irqs_ok flds by simp
  show ?thesis
    unfolding wp_bind wp_return
    by (rule wp_mono [OF release_irqs_spec [OF t2]], rule close_tail_context [of ?a2])
      (use open_fd s2 flds(4) live(1) bal in auto)
qed

lemma afu_close_spec:
  assumes open_fd: "0 \<le> afu_fd (cur_afu s)" and ok: "mmio_ok (cur_afu s)"
    and irqs_ok: "table_ok (irqs (cur_afu s)) (irq_count (cur_afu s)) (irq_max_count (cur_afu s))"
  shows "wp (ocxl_afu_close K) (closed_post s) s"
proof -
  let ?n = "unat (mmio_count (cur_afu s))"
  have first: "wp (close_mmios K [0..<?n]) (\<lambda>_. closing_post {0..<?n} s) s"
    using close_mmios_spec [OF ok, of "[0..<?n]" K] by (simp add: atLeast0LessThan)
  note tail = close_tail [OF open_fd irqs_ok]
  have g: "global_mmio_fd (cur_afu s1) = global_mmio_fd (cur_afu s)" "glb s1 = glb s" "ub s1 = ub s"
    if "closing_post {0..<?n} s s1" for s1
    using that no_mmios_cong [of "cur_afu s1" "cur_afu s" global_mmio_fd]
    by (simp_all add: closing_post_def no_mmios_def)
  have rest: "wp (do {
       gfd \<leftarrow> afu_get global_mmio_fd;
       whenM (gfd \<noteq> - 1) (do { do_close K gfd; afu_set (\<lambda>a. a\<lparr>global_mmio_fd := - 1\<rparr>) });
       release_irqs K; release_context K; State_Monad.return OCXL_OK }) (closed_post s) s1"
    if c: "closing_post {0..<?n} s s1" for s1
  proof (cases "global_mmio_fd (cur_afu s) = - 1")
    case True
    with g [OF c] have "cur_afu s1 = (cur_afu s1)\<lparr>global_mmio_fd := - 1\<rparr>" by simp
    with True g [OF c] tail [OF c, of s1 K] show ?thesis
      by (simp add: wp_simps fd_owned_def)
  next
    case False
    let ?s2 = "s1\<lparr>wld := os_close K (global_mmio_fd (cur_afu s)) (wld s1),
      calls := calls s1 @ [CClose (global_mmio_fd (cur_afu s))],
      cur_afu := (cur_afu s1)\<lparr>global_mmio_fd := - 1\<rparr>\<rparr>"
    from False g [OF c] tail [OF c, of ?s2 K] show ?thesis
      by (simp add: wp_simps wp_call fd_owned_def effect_simps)
  qed
  show ?thesis
    using open_fd
    apply (simp add: ocxl_afu_close_def wp_simps)
    apply (rule wp_mono [OF first])
    subgoal for u s1
      using rest [of s1] by (cases "global_mmio_fd (cur_afu s1) = - 1") (simp_all add: wp_simps)
    done
qed

section \<open>Opening\<close>

lemma libocxl_init_frame:
  "wp (libocxl_init K) (\<lambda>_ s'. calls s' = calls s \<and> wld s' = wld s \<and> cur_afu s' = cur_afu s \<and>
     ub s' = ub s \<and> libocxl_inited (glb s')) s"
  by (auto simp: libocxl_init_def wp_simps Let_def)

text \<open>A struct that \<open>afu_init\<close> has just filled: nothing but the struct is held.\<close>

definition fresh_afu :: "ocxl_afu \<Rightarrow> bool" where
  "fresh_afu a \<longleftrightarrow> afu_fd a = - 1 \<and> global_mmio_fd a = - 1 \<and> epoll_fd a = - 1 \<and>
     epoll_events a = None \<and> irqs a = NullBuf \<and> irq_count a = 0 \<and> irq_max_count a = 0 \<and>
     mmios a = NullBuf \<and> mmio_count a = 0 \<and> mmio_max_count a = 0 \<and> \<not> attached a"

lemma fresh_afu_init: "fresh_afu (afu_init K w g a)"
  by (simp add: fresh_afu_def afu_init_def)

lemma fresh_owned:
  assumes "fresh_afu a"
  shows "owned a r = mem_owned (map_option fst (device_path a)) r +
    mem_owned (map_option fst (sysfs_path a)) r + mem_owned (Some (afu_block a)) r"
proof -
  have "live_regions a = Map.empty" using assms by (simp add: fresh_afu_def live_regions_def fun_eq_iff)
  then show ?thesis
    using assms
    by (simp add: fresh_afu_def owned_def base_owned_def irqs_owned_def block_owned_def mem_owned_def)
qed

lemma effect_malloc: "effect (CMalloc n b) r = mem_owned b r"
  by (auto simp: effect_def mem_owned_def)

lemma mem_owned_none [simp]: "mem_owned None r = 0"
  by (simp add: mem_owned_def)

definition same_handle :: "ocxl_afu \<Rightarrow> ocxl_afu \<Rightarrow> bool" where
  "same_handle a a' \<longleftrightarrow> afu_block a' = afu_block a \<and> (fresh_afu a \<longrightarrow> fresh_afu a')"

lemma populate_from_name_spec:
  assumes "device_path (cur_afu s) = None" "sysfs_path (cur_afu s) = None"
  shows "wp (populate_from_name K nm) (\<lambda>ok s'. same_handle (cur_afu s) (cur_afu s') \<and> glb s' = glb s \<and>
    ub s' = ub s \<and> (ok \<longrightarrow> device_path (cur_afu s') \<noteq> None \<and> sysfs_path (cur_afu s') \<noteq> None) \<and>
    (\<forall>r. balance (calls s') r = balance (calls s) r +
       mem_owned (map_option fst (device_path (cur_afu s'))) r +
       mem_owned (map_option fst (sysfs_path (cur_afu s'))) r)) s"
  using assms
  by (auto simp: populate_from_name_def Let_def wp_simps wp_call same_handle_def fresh_afu_def
      effect_malloc option.map_comp comp_def split: prod.splits option.splits)

lemma find_entry_frame:
  "wp (find_entry K dir dev es) (\<lambda>r s'. calls s' = calls s \<and> cur_afu s' = cur_afu s \<and> glb s' = glb s \<and>
     ub s' = ub s) s"
proof (induction es arbitrary: s)
  case Nil
  then show ?case by (simp add: wp_simps)
next
  case (Cons e es)
  have "wp (device_matches K dir e dev) (\<lambda>r s'. calls s' = calls s \<and> cur_afu s' = cur_afu s \<and>
      glb s' = glb s \<and> ub s' = ub s) s"
    by (auto simp: device_matches_def wp_simps split: prod.splits)
  then show ?case
    by (auto simp: wp_simps elim!: wp_mono intro!: wp_mono [OF Cons.IH])
qed

lemma populate_metadata_spec:
  assumes "device_path (cur_afu s) = None" "sysfs_path (cur_afu s) = None"
  shows "wp (populate_metadata K dev) (\<lambda>ok s'. same_handle (cur_afu s) (cur_afu s') \<and> glb s' = glb s \<and>
    ub s' = ub s \<and> (ok \<longrightarrow> device_path (cur_afu s') \<noteq> None \<and> sysfs_path (cur_afu s') \<noteq> None) \<and>
    (\<forall>r. balance (calls s') r = balance (calls s) r +
       mem_owned (map_option fst (device_path (cur_afu s'))) r +
       mem_owned (map_option fst (sysfs_path (cur_afu s'))) r)) s"
  using assms
  by (auto simp: populate_metadata_def wp_simps same_handle_def split: prod.splits option.splits
      intro!: wp_mono [OF find_entry_frame] wp_mono [OF populate_from_name_spec])

definition got_afu :: "'w st \<Rightarrow> ocxl_err \<times> block option \<Rightarrow> 'w st \<Rightarrow> bool" where
  "got_afu s r s' \<longleftrightarrow> glb s' = glb s \<and> ub s' = ub s \<and>
     (case r of
        (rc, None) \<Rightarrow> rc \<noteq> OCXL_OK
      | (rc, Some b) \<Rightarrow> rc = OCXL_OK \<and> b = afu_block (cur_afu s') \<and> fresh_afu (cur_afu s') \<and>
          device_path (cur_afu s') \<noteq> None \<and> sysfs_path (cur_afu s') \<noteq> None \<and>
          debt s' = balance (calls s))"

lemma got_afu_populated:
  assumes "fresh_afu a" "device_path a = None" "sysfs_path a = None"
    and "same_handle a (cur_afu s')" "glb s' = glb s" "ub s' = ub s"
      "device_path (cur_afu s') \<noteq> None" "sysfs_path (cur_afu s') \<noteq> None"
    and "\<forall>r. balance (calls s') r = balance (calls s) r + mem_owned (Some (afu_block a)) r +
       mem_owned (map_option fst (device_path (cur_afu s'))) r +
       mem_owned (map_option fst (sysfs_path (cur_afu s'))) r"
  shows "got_afu s (OCXL_OK, Some (afu_block a)) s'"
  using assms by (auto simp: got_afu_def same_handle_def debt_def fresh_owned fun_eq_iff)

lemma afu_alloc_spec:
  "wp (afu_alloc K) (\<lambda>(rc, h) s'. glb s' = glb s \<and> ub s' = ub s \<and>
     (case h of
        None \<Rightarrow> rc = OCXL_NO_MEM
      | Some b \<Rightarrow> rc = OCXL_OK \<and> b = afu_block (cur_afu s') \<and> fresh_afu (cur_afu s') \<and>
          device_path (cur_afu s') = None \<and> sysfs_path (cur_afu s') = None \<and>
          (\<forall>r. balance (calls s') r = balance (calls s) r + mem_owned (Some b) r))) s"
  by (auto simp: afu_alloc_def wp_simps wp_call effect_malloc fresh_afu_init
      split: prod.splits option.splits) (simp_all add: afu_init_def)

lemma get_afu_by_path_spec:
  "wp (get_afu_by_path K path) (got_afu s) s"
  unfolding get_afu_by_path_def wp_bind
proof (rule wp_mono [OF afu_alloc_spec], goal_cases)
  case (1 rh s1)
  obtain rc h where rh: "rh = (rc, h)" by (cases rh)
  show ?case
  proof (cases h)
    case None
    with 1 rh show ?thesis by (simp add: wp_simps got_afu_def)
  next
    case (Some b)
    with 1 rh have s1: "glb s1 = glb s" "ub s1 = ub s" "rc = OCXL_OK" "b = afu_block (cur_afu s1)"
      "fresh_afu (cur_afu s1)" "device_path (cur_afu s1) = None" "sysfs_path (cur_afu s1) = None"
      "\<forall>r. balance (calls s1) r = balance (calls s) r + mem_owned (Some b) r"
      by simp_all
    have pop: "wp (populate_metadata K rdev) (\<lambda>ok s'. glb s' = glb s \<and> ub s' = ub s \<and>
        (ok \<longrightarrow> got_afu s (OCXL_OK, Some b) s')) (s1\<lparr>wld := w\<rparr>)" for rdev w
      using s1
      by (intro wp_mono [OF populate_metadata_spec])
        (auto intro!: got_afu_populated [of "cur_afu s1"])
    show ?thesis
      using s1 by (auto simp: rh Some wp_simps wp_call got_afu_def [of s "(OCXL_NO_DEV, None)"]
          split: prod.splits intro!: wp_mono [OF pop])
  qed
qed

lemma trace_metadata_frame:
  "wp trace_metadata (\<lambda>_ s'. calls s' = calls s \<and> cur_afu s' = cur_afu s \<and> glb s' = glb s \<and>
     ub s' = ub s) s"
  by (simp add: trace_metadata_def wp_simps wp_call)

text \<open>The accounting of \<open>afu_open\<close>: whichever step fails, the struct knows every descriptor that
  has been acquired.\<close>

lemma effect_fds:
  "effect (COpen p f d) r = of_bool (0 \<le> d \<and> r = RFd d)"
  "effect (CEpollCreate d) r = of_bool (0 \<le> d \<and> r = RFd d)"
  "effect (CEpollAdd ep d ptr rc) r = 0"
  by (auto simp: effect_def)

definition opened_post :: "'w st \<Rightarrow> ocxl_err \<Rightarrow> 'w st \<Rightarrow> bool" where
  "opened_post s rc s' \<longleftrightarrow> glb s' = glb s \<and> ub s' = ub s \<and> debt s' = debt s \<and>
     afu_block (cur_afu s') = afu_block (cur_afu s) \<and>
     device_path (cur_afu s') = device_path (cur_afu s) \<and>
     mmios (cur_afu s') = NullBuf \<and> mmio_count (cur_afu s') = 0 \<and> mmio_max_count (cur_afu s') = 0 \<and>
     irqs (cur_afu s') = NullBuf \<and> irq_count (cur_afu s') = 0 \<and> irq_max_count (cur_afu s') = 0 \<and>
     \<not> attached (cur_afu s') \<and> epoll_events (cur_afu s') = None \<and>
     (afu_fd (cur_afu s') = - 1 \<or> 0 \<le> afu_fd (cur_afu s')) \<and>
     (rc = OCXL_OK \<longrightarrow> 0 \<le> afu_fd (cur_afu s') \<and> 0 \<le> global_mmio_fd (cur_afu s') \<and>
        0 \<le> epoll_fd (cur_afu s'))"

lemma debt_base:
  assumes "live_regions a' = live_regions a" "mmios a' = mmios a" "irqs a' = irqs a"
    "irq_count a = 0" "irq_count a' = 0" "cur_afu s = a" "cur_afu s' = a'"
    "\<And>r. balance (calls s') r - base_owned a' r = balance (calls s) r - base_owned a r"
  shows "debt s' = debt s"
proof
  fix r
  show "debt s' r = debt s r"
    using assms(8) [of r] assms(1-7) by (simp add: debt_def owned_def irqs_owned_def)
qed

lemma global_mmio_open_spec:
  assumes "global_mmio_fd (cur_afu s) = - 1" "sysfs_path (cur_afu s) \<noteq> None"
  shows "wp (global_mmio_open K) (\<lambda>rc s'. glb s' = glb s \<and> ub s' = ub s \<and>
     (\<exists>g. cur_afu s' = (cur_afu s)\<lparr>global_mmio_fd := g\<rparr> \<and> (rc = OCXL_OK \<longrightarrow> 0 \<le> g) \<and>
        (\<forall>r. balance (calls s') r = balance (calls s) r + fd_owned g r))) s"
proof -
  have same: "\<exists>g. cur_afu s = (cur_afu s)\<lparr>global_mmio_fd := g\<rparr> \<and> (\<forall>r. fd_owned g r = 0)"
    using assms(1) by (intro exI [of _ "- 1"]) simp
  show ?thesis
    using assms same
    by (auto simp: global_mmio_open_def Let_def wp_simps wp_call effect_fds fd_owned_def
        split: prod.splits)
qed

definition core_fields :: "ocxl_afu \<Rightarrow> ocxl_afu" where
  "core_fields a = a\<lparr>afu_fd := - 1, global_mmio_fd := - 1, epoll_fd := - 1, version_major := 0,
     version_minor := 0, pasid := 0, per_pasid_mmio := zero_area, global_mmio := zero_area\<rparr>"

lemma core_fields_upd [simp]:
  "core_fields (a\<lparr>afu_fd := d\<rparr>) = core_fields a"
  "core_fields (a\<lparr>global_mmio_fd := d\<rparr>) = core_fields a"
  "core_fields (a\<lparr>epoll_fd := d\<rparr>) = core_fields a"
  "core_fields (a\<lparr>version_major := v\<rparr>) = core_fields a"
  "core_fields (a\<lparr>version_minor := v\<rparr>) = core_fields a"
  "core_fields (a\<lparr>pasid := p\<rparr>) = core_fields a"
  "core_fields (a\<lparr>per_pasid_mmio := m\<rparr>) = core_fields a"
  "core_fields (a\<lparr>global_mmio := m\<rparr>) = core_fields a"
  by (simp_all add: core_fields_def)

lemma core_fields_cong:
  "core_fields a' = core_fields a \<Longrightarrow> (\<And>b. f (core_fields b) = f b) \<Longrightarrow> f a' = f a"
  by metis

lemma opened_postI:
  assumes fresh: "fresh_afu (cur_afu s)" and core: "core_fields (cur_afu s') = core_fields (cur_afu s)"
    and "glb s' = glb s" "ub s' = ub s"
    and bal: "\<forall>r. balance (calls s') r = balance (calls s) r + fd_owned (afu_fd (cur_afu s')) r +
      fd_owned (global_mmio_fd (cur_afu s')) r + fd_owned (epoll_fd (cur_afu s')) r"
    and "afu_fd (cur_afu s') = - 1 \<or> 0 \<le> afu_fd (cur_afu s')"
    and "rc = OCXL_OK \<longrightarrow> 0 \<le> afu_fd (cur_afu s') \<and> 0 \<le> global_mmio_fd (cur_afu s') \<and>
      0 \<le> epoll_fd (cur_afu s')"
  shows "opened_post s rc s'"
proof -
  let ?a = "cur_afu s" and ?a' = "cur_afu s'"
  note f = core_fields_cong [OF core]
  have eqs: "afu_block ?a' = afu_block ?a" "device_path ?a' = device_path ?a" "sysfs_path ?a' = sysfs_path ?a"
    "epoll_events ?a' = epoll_events ?a" "mmios ?a' = mmios ?a" "mmio_count ?a' = mmio_count ?a"
    "mmio_max_count ?a' = mmio_max_count ?a" "irqs ?a' = irqs ?a" "irq_count ?a' = irq_count ?a"
    "irq_max_count ?a' = irq_max_count ?a" "attached ?a' = attached ?a"
    by (rule f, simp add: core_fields_def)+
  have live: "live_regions ?a' = live_regions ?a" by (simp add: live_regions_def eqs fun_eq_iff)
  have "debt s' = debt s"
    using fresh bal
    by (intro debt_base [OF live eqs(5,8) _ _ refl refl])
      (simp_all add: fresh_afu_def eqs base_owned_def)
  with assms eqs show ?thesis by (simp add: opened_post_def fresh_afu_def)
qed

lemma open_context_spec:
  assumes fresh: "fresh_afu (cur_afu s)" and core: "core_fields (cur_afu s1) = core_fields (cur_afu s)"
    and fds: "0 \<le> afu_fd (cur_afu s1)" "0 \<le> global_mmio_fd (cur_afu s1)" "epoll_fd (cur_afu s1) = - 1"
    and g: "glb s1 = glb s" "ub s1 = ub s"
    and bal: "\<forall>r. balance (calls s1) r = balance (calls s) r + fd_owned (afu_fd (cur_afu s1)) r +
      fd_owned (global_mmio_fd (cur_afu s1)) r"
  shows "wp (open_context K) (opened_post s) s1"
proof -
  obtain ep w1 where 1: "os_epoll_create K (wld s1) = (ep, w1)" by fastforce
  obtain r w2 where 2: "os_epoll_add K ep (afu_fd (cur_afu s1)) (AfuInfo (afu_block (cur_afu s1))) w1 = (r, w2)"
    by fastforce
  obtain rc md w3 where 3: "os_ioctl_get_metadata K (afu_fd (cur_afu s1)) w2 = ((rc, md), w3)"
    by (metis surj_pair)
  show ?thesis
  proof (cases "ep < 0")
    case True
    with 1 fds g bal core show ?thesis
      by (auto simp: open_context_def wp_simps wp_call effect_fds intro!: opened_postI [OF fresh])
  next
    case False
    then have "fd_owned ep x = of_bool (x = RFd ep)" for x by (simp add: fd_owned_def)
    with False 1 2 3 fds g bal core show ?thesis
      by (auto simp: open_context_def wp_simps wp_call effect_fds intro!: opened_postI [OF fresh]
          wp_mono [OF trace_metadata_frame])
  qed
qed

lemma afu_open_spec:
  assumes fresh: "fresh_afu (cur_afu s)" and dp: "device_path (cur_afu s) = Some (b, p)"
    and sp: "sysfs_path (cur_afu s) \<noteq> None"
  shows "wp (afu_open K) (opened_post s) s"
proof -
  let ?flags = "O_RDWR + O_CLOEXEC + O_NONBLOCK"
  have f: "afu_fd (cur_afu s) = - 1" "global_mmio_fd (cur_afu s) = - 1" "epoll_fd (cur_afu s) = - 1"
    using fresh by (simp_all add: fresh_afu_def)
  obtain d w where o: "os_open K p ?flags (wld s) = (d, w)" by fastforce
  have t: "path_text (Some (b, p)) = p" by (simp add: path_text_def)
  show ?thesis
  proof (cases "d < 0")
    case True
    with f dp o show ?thesis
      by (auto simp: afu_open_def wp_simps wp_call effect_fds t intro!: opened_postI [OF fresh])
  next
    case False
    let ?s1 = "s\<lparr>wld := w, calls := calls s @ [COpen p ?flags d], cur_afu := (cur_afu s)\<lparr>afu_fd := d\<rparr>\<rparr>"
    have mm: "wp (global_mmio_open K) (\<lambda>rc s'. glb s' = glb s \<and> ub s' = ub s \<and>
        (\<exists>g. cur_afu s' = (cur_afu s)\<lparr>afu_fd := d, global_mmio_fd := g\<rparr> \<and> (rc = OCXL_OK \<longrightarrow> 0 \<le> g) \<and>
          (\<forall>r. balance (calls s') r = balance (calls s) r + fd_owned d r + fd_owned g r))) ?s1"
      using f sp False
      by (intro wp_mono [OF global_mmio_open_spec]) (auto simp: effect_fds fd_owned_def)
    show ?thesis
      using False f dp o
      by (auto simp: afu_open_def wp_simps wp_call t intro!: wp_mono [OF mm]
          opened_postI [OF fresh] open_context_spec [OF fresh])
  qed
qed

definition dev_post :: "'w st \<Rightarrow> ocxl_err \<times> block option \<Rightarrow> 'w st \<Rightarrow> bool" where
  "dev_post s r s' \<longleftrightarrow> ub s' = ub s \<and>
     (case r of
        (rc, None) \<Rightarrow> rc \<noteq> OCXL_OK
      | (rc, Some b) \<Rightarrow> rc = OCXL_OK \<and> b = afu_block (cur_afu s') \<and> 0 \<le> afu_fd (cur_afu s') \<and>
          \<not> attached (cur_afu s') \<and> mmio_ok (cur_afu s') \<and> irq_ok (cur_afu s') \<and>
          mmio_count (cur_afu s') = 0 \<and> irq_count (cur_afu s') = 0 \<and>
          (\<forall>r. balance (calls s') r = balance (calls s) r + owned (cur_afu s') r))"

lemma opened_tables:
  assumes "opened_post s rc s'"
  shows "mmio_ok (cur_afu s')" "irq_ok (cur_afu s')"
    "table_ok (irqs (cur_afu s')) (irq_count (cur_afu s')) (irq_max_count (cur_afu s'))"
  using assms by (simp_all add: opened_post_def mmio_ok_def irq_ok_def table_ok_def live_irqs_def)

lemma close_opened:
  assumes "opened_post s1 rc s2"
  shows "wp (ocxl_afu_close K) (\<lambda>_ s'. ub s' = ub s2) s2"
proof (cases "0 \<le> afu_fd (cur_afu s2)")
  case True
  show ?thesis
    by (rule wp_mono [OF afu_close_spec [OF True opened_tables(1,3) [OF assms]]])
      (simp add: closed_post_def)
next
  case False
  then show ?thesis by (simp add: ocxl_afu_close_def wp_simps)
qed

lemma open_then_close:
  assumes o: "opened_post s2 rc s3" and s2: "debt s2 = balance (calls s)" "ub s2 = ub s"
    "b = afu_block (cur_afu s2)"
  shows "wp (if rc \<noteq> OCXL_OK then do { ocxl_afu_close K; State_Monad.return (rc, None) }
    else State_Monad.return (OCXL_OK, Some b)) (dev_post s) s3"
proof (cases "rc = OCXL_OK")
  case True
  have "debt s3 = balance (calls s)" using o s2(1) by (simp add: opened_post_def)
  then have "balance (calls s3) r = balance (calls s) r + owned (cur_afu s3) r" for r
    by (simp add: debt_def fun_eq_iff algebra_simps)
  with True o opened_tables [OF o] s2 show ?thesis
    by (simp add: wp_simps dev_post_def opened_post_def)
next
  case False
  with o close_opened [OF o, of K] s2 show ?thesis
    by (auto simp: wp_simps dev_post_def opened_post_def elim!: wp_mono)
qed

lemma open_from_dev_spec:
  "wp (ocxl_afu_open_from_dev K path) (dev_post s) s"
proof -
  have step: "wp (case r of (rc, afu) \<Rightarrow> if rc \<noteq> OCXL_OK then State_Monad.return (rc, None)
      else do { rc \<leftarrow> afu_open K;
        if rc \<noteq> OCXL_OK then do { ocxl_afu_close K; State_Monad.return (rc, None) }
        else State_Monad.return (OCXL_OK, afu) }) (dev_post s) s2"
    if g: "got_afu s1 r s2" and s1: "calls s1 = calls s" "ub s1 = ub s" for r s1 s2
  proof (cases "snd r")
    case None
    with g s1 show ?thesis by (cases r) (simp add: wp_simps got_afu_def dev_post_def)
  next
    case (Some b)
    with g s1 obtain bl p where fr: "fresh_afu (cur_afu s2)" "device_path (cur_afu s2) = Some (bl, p)"
      "sysfs_path (cur_afu s2) \<noteq> None" and s2: "debt s2 = balance (calls s)" "ub s2 = ub s"
      "b = afu_block (cur_afu s2)" and r: "r = (OCXL_OK, Some b)"
      by (cases r) (auto simp: got_afu_def)
    have "wp (afu_open K) (\<lambda>rc s3. wp (if rc \<noteq> OCXL_OK
        then do { ocxl_afu_close K; State_Monad.return (rc, None) }
        else State_Monad.return (OCXL_OK, Some b)) (dev_post s) s3) s2"
      by (rule wp_mono [OF afu_open_spec [OF fr]]) (rule open_then_close [OF _ s2])
    then show ?thesis by (simp add: r wp_bind)
  qed
  show ?thesis
    unfolding ocxl_afu_open_from_dev_def wp_bind
    by (rule wp_mono [OF libocxl_init_frame], rule wp_mono [OF get_afu_by_path_spec],
        erule step) auto
qed

lemma open_first_spec:
  "snd ret = None \<Longrightarrow> fst ret \<noteq> OCXL_OK \<Longrightarrow> wp (open_first K ps ret) (\<lambda>r s'. ub s' = ub s \<and>
     (case r of
        (rc, None) \<Rightarrow> rc \<noteq> OCXL_OK
      | (rc, Some b) \<Rightarrow> rc = OCXL_OK \<and> b = afu_block (cur_afu s') \<and> 0 \<le> afu_fd (cur_afu s') \<and>
          mmio_ok (cur_afu s') \<and> irq_ok (cur_afu s') \<and>
          mmio_count (cur_afu s') = 0 \<and> irq_count (cur_afu s') = 0)) s"
proof (induction ps arbitrary: s ret)
  case Nil
  then show ?case by (cases ret) (simp add: wp_simps)
next
  case (Cons p ps)
  show ?case
    unfolding open_first.simps wp_bind
  proof (rule wp_mono [OF open_from_dev_spec], goal_cases)
    case (1 r s1)
    show ?case
    proof (cases "fst r = OCXL_NO_MORE_CONTEXTS")
      case True
      then have "snd r = None" using 1 by (cases "snd r") (auto simp: dev_post_def split: prod.splits)
      with True 1 show ?thesis
        using Cons.IH [of r s1] by (simp add: dev_post_def)
    next
      case False
      with 1 show ?thesis
        by (cases r) (auto simp: wp_simps dev_post_def split: option.splits)
    qed
  qed
qed

lemma open_specific_spec:
  "wp (ocxl_afu_open_specific K nm pf idx) (\<lambda>(rc, h) s'. ub s' = ub s \<and> (rc = OCXL_OK \<longleftrightarrow> h \<noteq> None) \<and>
     (\<forall>b. h = Some b \<longrightarrow> b = afu_block (cur_afu s') \<and> 0 \<le> afu_fd (cur_afu s') \<and>
        mmio_ok (cur_afu s') \<and> irq_ok (cur_afu s') \<and>
        mmio_count (cur_afu s') = 0 \<and> irq_count (cur_afu s') = 0)) s"
  (is "wp _ ?Q s")
proof -
  have first: "wp (open_first K ps (OCXL_INTERNAL_ERROR, None)) ?Q s1" if "ub s1 = ub s" for ps s1
    using that by (intro wp_mono [OF open_first_spec]) (auto split: option.splits)
  show ?thesis
    unfolding ocxl_afu_open_specific_def wp_bind
    by (rule wp_mono [OF libocxl_init_frame])
      (simp add: wp_simps wp_call Let_def first [simplified] split: prod.splits)
qed

text \<open>Opening every device of a list in turn: what each attempt gives, and the state after it.\<close>

primrec attempts ::
  "'w platform \<Rightarrow> string list \<Rightarrow> 'w st \<Rightarrow> ((ocxl_err \<times> block option) \<times> 'w st) list" where
  "attempts K [] s = []"
| "attempts K (p # ps) s =
     run_state (ocxl_afu_open_from_dev K p) s # attempts K ps (snd (run_state (ocxl_afu_open_from_dev K p) s))"

definition busy :: "(ocxl_err \<times> block option) \<times> 'w st \<Rightarrow> bool" where
  "busy a \<longleftrightarrow> fst (fst a) = OCXL_NO_MORE_CONTEXTS"

lemma busy_iff [simp]: "busy ((rc, h), s) \<longleftrightarrow> rc = OCXL_NO_MORE_CONTEXTS"
  by (simp add: busy_def)

lemma busy_no_handle:
  assumes "run_state (ocxl_afu_open_from_dev K p) s = ((OCXL_NO_MORE_CONTEXTS, h), s')"
  shows "h = None"
  using wpD [OF open_from_dev_spec assms] by (auto simp: dev_post_def split: option.splits)

lemma open_first_attempts:
  assumes "fst ret = OCXL_NO_MORE_CONTEXTS \<longrightarrow> snd ret = None"
  shows "wp (open_first K ps ret) (\<lambda>r s'. case find (\<lambda>a. \<not> busy a) (attempts K ps s) of
    Some a \<Rightarrow> (r, s') = a
  | None \<Rightarrow> r = (if ps = [] then ret else (OCXL_NO_MORE_CONTEXTS, None))) s"
  using assms
proof (induction ps arbitrary: s ret)
  case Nil
  then show ?case by (simp add: wp_return)
next
  case (Cons p ps)
  obtain rc h s1 where o: "run_state (ocxl_afu_open_from_dev K p) s = ((rc, h), s1)" by (metis surj_pair)
  have step: "wp (open_first K (p # ps) ret) Q s =
      (if rc = OCXL_NO_MORE_CONTEXTS then wp (open_first K ps (rc, h)) Q s1 else Q (rc, h) s1)" for Q
    by (simp add: wp_bind wp_def [of "ocxl_afu_open_from_dev K p"] o wp_simps)
  show ?case
  proof (cases "rc = OCXL_NO_MORE_CONTEXTS")
    case True
    with o busy_no_handle have "h = None" by blast
    with True o show ?thesis
      unfolding step if_P [OF True]
      by (intro wp_mono [OF Cons.IH]) (auto split: option.splits if_splits)
  next
    case False
    with o show ?thesis unfolding step by simp
  qed
qed

section \<open>Device names\<close>

lemma not_digit_sep:
  "\<not> is_digit b CHR '':''" "\<not> is_digit b CHR ''.''"
  by (simp_all add: is_digit_def digit_val_def Let_def)

lemma scan_field:
  assumes "b \<le> 16" "all_digits b ds"
  shows "scan_unsigned b k (ds @ CHR '':'' # ys) = Some (min (value_of b ds) ULONG_MAX mod 2 ^ k, CHR '':'' # ys)"
    "scan_unsigned b k (ds @ CHR ''.'' # ys) = Some (min (value_of b ds) ULONG_MAX mod 2 ^ k, CHR ''.'' # ys)"
    "scan_unsigned b k ds = Some (min (value_of b ds) ULONG_MAX mod 2 ^ k, [])"
  using scan_unsigned_digits [OF assms, of "CHR '':'' # ys"] scan_unsigned_digits [OF assms, of "CHR ''.'' # ys"]
    scan_unsigned_digits [OF assms, of "[]"]
  by (simp_all add: not_digit_sep)

text \<open>A location and index as the kernel writes them.\<close>

definition location :: "string \<Rightarrow> string \<Rightarrow> string \<Rightarrow> string \<Rightarrow> string \<Rightarrow> string" where
  "location domain bus dev fn idx = domain @ '':'' @ bus @ '':'' @ dev @ ''.'' @ fn @ ''.'' @ idx"

lemma scan_pci:
  assumes "all_digits 16 domain" "all_digits 10 bus" "all_digits 10 dev" "all_digits 10 fn" "all_digits 10 idx"
  shows "scan_items pci_format (location domain bus dev fn idx) =
    min (value_of 16 domain) ULONG_MAX mod 2 ^ 32 #
    map (\<lambda>ds. min (value_of 10 ds) ULONG_MAX mod 2 ^ 8) [bus, dev, fn, idx]"
  unfolding pci_format_def location_def
  using scan_field [OF _ assms(1)] scan_field [OF _ assms(2)] scan_field [OF _ assms(3)]
    scan_field [OF _ assms(4)] scan_field [OF _ assms(5)]
  by simp

text \<open>C34: \<open>populate_metadata\<close> takes the name of a device file apart. Given the AFU name, a dot, the PCI
  domain in hexadecimal digits, bus, device and function in decimal digits and the AFU index, with any number of
  leading zeros - as in \<open>IBM,Dummy.0001:00:00.1.0\<close> - and an index that fits a byte, it fails only when the AFU name
  is too long or one of its two allocations fails; otherwise the AFU has exactly the name and the index of
  the file, and its device and sysfs paths are the name of the file below the two directories.\<close>

theorem device_name_parsed:
  assumes "CHR ''.'' \<notin> set nm" "all_digits 16 domain" "all_digits 10 bus" "all_digits 10 dev" "all_digits 10 fn"
    and "all_digits 10 idx" "value_of 10 idx < 256"
    and "d_name = nm @ ''.'' @ domain @ '':'' @ bus @ '':'' @ dev @ ''.'' @ fn @ ''.'' @ idx"
    and "os_malloc K (length (DEVICE_PATH (glb s)) + 1 + length d_name + 1) (wld s) = (b1, w1)"
    and "os_malloc K (length (SYS_PATH (glb s)) + 1 + length d_name + 1) w1 = (b2, w2)"
  shows "wp (populate_from_name K d_name) (\<lambda>ok s'.
    (ok \<longleftrightarrow> length nm \<le> AFU_NAME_MAX \<and> b1 \<noteq> None \<and> b2 \<noteq> None) \<and>
    (ok \<longrightarrow> afu_identifier (cur_afu s') = \<lparr>afu_index = of_nat (value_of 10 idx), afu_name = nm\<rparr> \<and>
      device_path (cur_afu s') = Some (the b1, DEVICE_PATH (glb s) @ ''/'' @ d_name) \<and>
      sysfs_path (cur_afu s') = Some (the b2, SYS_PATH (glb s) @ ''/'' @ d_name))) s"
proof -
  let ?pf = "location domain bus dev fn idx"
  have dn: "d_name = nm @ CHR ''.'' # ?pf" by (simp add: assms(8) location_def)
  have c: "strchr d_name CHR ''.'' = Some (length nm)" unfolding dn by (rule strchr_append [OF assms(1)])
  have pf: "drop (Suc (length nm)) d_name = ?pf" "take (length nm) d_name = nm" unfolding dn by simp_all
  note scan = scan_pci [OF assms(2-6)]
  then have cnt: "sscanf_count pci_format ?pf = 5" by (simp add: sscanf_count_def)
  have idx: "scan_items pci_format ?pf ! 4 = value_of 10 idx" "length (scan_items pci_format ?pf) = 5"
    using assms(7) by (simp_all add: scan ULONG_MAX_def)
  show ?thesis
    using assms(9,10)
    by (auto simp: populate_from_name_def c pf cnt idx Let_def wp_simps wp_call split: option.splits)
qed

theorem device_name_parsed_witness:
  "wp (populate_from_name demo ''IBM,Dummy.0001:00:00.1.0'') (\<lambda>ok s'. ok \<and>
    afu_identifier (cur_afu s') = \<lparr>afu_index = 0, afu_name = ''IBM,Dummy''\<rparr> \<and>
    map_option snd (sysfs_path (cur_afu s')) =
      Some (SYS_PATH (glb demo_state) @ ''/IBM,Dummy.0001:00:00.1.0'')) demo_state"
proof -
  have d: "all_digits 16 ''0001''" "all_digits 10 ''00''" "all_digits 10 ''1''" "all_digits 10 ''0''"
    by (simp_all add: all_digits_def is_digit_def digit_val_def)
  have v: "value_of 10 ''0'' = 0" by (simp add: value_of_def digit_val_def)
  then have v': "value_of 10 ''0'' < 256" by simp
  have n: "CHR ''.'' \<notin> set ''IBM,Dummy''" by simp
  obtain b1 w1 where b1: "os_malloc demo (length (DEVICE_PATH (glb demo_state)) + 1 +
      length ''IBM,Dummy.0001:00:00.1.0'' + 1) (wld demo_state) = (Some b1, w1)" "\<not> dw_no_memory w1"
    by (simp add: demo_state_def demo_world_def demo_alloc_def)
  obtain b2 w2 where b2: "os_malloc demo (length (SYS_PATH (glb demo_state)) + 1 +
      length ''IBM,Dummy.0001:00:00.1.0'' + 1) w1 = (Some b2, w2)"
    using b1(2) by (simp add: demo_alloc_def)
  show ?thesis
    by (rule wp_mono [OF device_name_parsed [OF n d(1,2,2,3,4) v' _ b1(1) b2]]) (auto simp: AFU_NAME_MAX_def v)
qed

lemma scan_letter:
  assumes "is_digit 16 c" "\<not> is_digit 10 c"
  shows "scan_unsigned 10 k (c # ys) = None"
  using is_digit_plain [OF assms(1)] assms(2) by (simp add: scan_unsigned_def)

text \<open>Bus, device and function are read as decimal numbers although PCI names print them in
  hexadecimal: a device whose bus number starts with a letter is not recognised at all.\<close>

lemma hex_bus_rejected:
  assumes "CHR ''.'' \<notin> set nm" "length nm \<le> AFU_NAME_MAX" "all_digits 16 domain"
    and "is_digit 16 c" "\<not> is_digit 10 c"
  shows "wp (populate_from_name K (nm @ ''.'' @ domain @ '':'' @ c # rest)) (\<lambda>ok s'.
     \<not> ok \<and> calls s' = calls s \<and> device_path (cur_afu s') = device_path (cur_afu s)) s"
proof -
  let ?pf = "domain @ '':'' @ c # rest"
  let ?dn = "nm @ CHR ''.'' # ?pf"
  have ch: "strchr ?dn CHR ''.'' = Some (length nm)" by (rule strchr_append [OF assms(1)])
  have pf: "drop (Suc (length nm)) ?dn = ?pf" by simp
  have v: "length (scan_items pci_format ?pf) = 1"
    using scan_field [OF _ assms(3)] scan_letter [OF assms(4,5)] by (simp add: pci_format_def)
  then have n: "sscanf_count pci_format ?pf = 1" by (auto simp: sscanf_count_def)
  show ?thesis
    using assms(2)
    by (simp add: populate_from_name_def ch [simplified] pf [simplified] v [simplified] n [simplified]
        Let_def wp_simps wp_call)
qed

lemma hex_bus_rejected_witness:
  "wp (populate_from_name demo (''IBM,MEMCPY3'' @ ''.'' @ ''0004'' @ '':'' @ CHR ''a'' # ''0:00.1.0''))
     (\<lambda>ok s'. \<not> ok) demo_state"
  by (rule wp_mono [OF hex_bus_rejected])
    (simp_all add: AFU_NAME_MAX_def all_digits_def is_digit_def digit_val_def)

text \<open>C32: opening an AFU by device path gives a handle exactly when it reports success. The AFU
  behind the handle is open, not attached, has no region and no interrupt, and holds exactly
  the resources the call acquired: struct, two paths, three descriptors.\<close>

theorem open_from_dev_contract:
  "wp (ocxl_afu_open_from_dev K path) (\<lambda>(rc, h) s'. ub s' = ub s \<and> (rc = OCXL_OK \<longleftrightarrow> h \<noteq> None) \<and>
     (\<forall>b. h = Some b \<longrightarrow> b = afu_block (cur_afu s') \<and> 0 \<le> afu_fd (cur_afu s') \<and>
        \<not> attached (cur_afu s') \<and> mmio_ok (cur_afu s') \<and> irq_ok (cur_afu s') \<and>
        mmio_count (cur_afu s') = 0 \<and> irq_count (cur_afu s') = 0 \<and>
        (\<forall>r. balance (calls s') r = balance (calls s) r + owned (cur_afu s') r))) s"
  by (rule wp_mono [OF open_from_dev_spec]) (auto simp: dev_post_def split: option.splits)

theorem open_from_dev_contract_witness:
  "wp (ocxl_afu_open_from_dev demo ''/dev/ocxl/AFU.1:0:0.1.0'') (\<lambda>(rc, h) s'. ub s' = [] \<and>
     (rc = OCXL_OK \<longleftrightarrow> h \<noteq> None)) (demo_state\<lparr>wld := demo_world\<lparr>dw_devices := [''AFU.1:0:0.1.0'']\<rparr>\<rparr>)"
  by (rule wp_mono [OF open_from_dev_contract]) (auto simp: demo_state_def)

text \<open>C31: closing an open AFU gives back every mapping, every interrupt with its page and
  descriptor, the three descriptors and the heap blocks it holds, and nothing else - with
  one exception: the block of the region array is never freed.\<close>

theorem close_releases:
  assumes "0 \<le> afu_fd (cur_afu s)" "mmio_ok (cur_afu s)" "irq_ok (cur_afu s)"
  shows "wp (ocxl_afu_close K) (\<lambda>rc s'. rc = OCXL_OK \<and> ub s' = ub s \<and>
     afu_fd (cur_afu s') = - 1 \<and> live_regions (cur_afu s') = Map.empty \<and> irq_count (cur_afu s') = 0 \<and>
     (\<forall>r. r \<noteq> RFd (- 1) \<longrightarrow> balance (calls s') r =
        balance (calls s) r - owned (cur_afu s) r + block_owned (mmios (cur_afu s)) r)) s"
  using assms
  by (intro wp_mono [OF afu_close_spec]) (auto simp: closed_post_def irq_ok_def)

theorem close_releases_witness:
  "wp (ocxl_afu_close demo) (\<lambda>rc s'. rc = OCXL_OK \<and> balance (calls s') (RMap 0x300000 4096) = - 1 \<and>
     balance (calls s') (RMem 50) = 0 \<and> balance (calls s') (RFd 5) = - 1) demo_mapped"
proof -
  have s: "0 \<le> afu_fd (cur_afu demo_mapped)" "irq_ok (cur_afu demo_mapped)" "calls demo_mapped = []"
    by (simp_all add: demo_mapped_def demo_state_def demo_afu_def irq_ok_def table_ok_def live_irqs_def)
  have l: "live_regions (cur_afu demo_mapped) = [0 \<mapsto> demo_region]"
    by (auto simp: live_regions_def demo_mapped_def demo_region_def fun_eq_iff)
  have "{i. i = 0 \<and> demo_region = m} = {0}" if "demo_region = m" for m using that by auto
  then have o: "owned (cur_afu demo_mapped) (RMap 0x300000 4096) = 1"
    "owned (cur_afu demo_mapped) (RMem 50) = 1" "owned (cur_afu demo_mapped) (RFd 5) = 1"
    "block_owned (mmios (cur_afu demo_mapped)) (RMap 0x300000 4096) = 0"
    "block_owned (mmios (cur_afu demo_mapped)) (RMem 50) = 1"
    "block_owned (mmios (cur_afu demo_mapped)) (RFd 5) = 0"
    unfolding owned_def l region_owned_def
    by (simp_all add: demo_mapped_def demo_state_def demo_afu_def demo_region_def base_owned_def
        block_owned_def irqs_owned_def fd_owned_def mem_owned_def cong: conj_cong)
  show ?thesis
    by (rule wp_mono [OF close_releases [OF s(1) demo_mapped_ok(1) s(2)]]) (simp add: o s(3))
qed

text \<open>When the device file cannot be opened, the AFU struct and its two path strings leak:
  the cleanup calls \<open>ocxl_afu_close\<close>, which returns at once because the descriptor is
  not open, and nothing is freed.\<close>

lemma open_failure_leaks:
  assumes "afu_fd (cur_afu s) = - 1" "device_path (cur_afu s) = Some (b, p)"
    and "fst (os_open K p (O_RDWR + O_CLOEXEC + O_NONBLOCK) (wld s)) < 0"
  shows "wp (do { rc \<leftarrow> afu_open K; rc' \<leftarrow> ocxl_afu_close K; State_Monad.return (rc, rc') })
    (\<lambda>(rc, rc') s'. rc \<noteq> OCXL_OK \<and> rc' = OCXL_ALREADY_DONE \<and> cur_afu s' = cur_afu s \<and>
       (\<forall>r. balance (calls s') r = balance (calls s) r)) s"
  using assms
  by (auto simp: afu_open_def ocxl_afu_close_def path_text_def wp_simps wp_call effect_fds split: prod.splits)

lemma open_failure_leaks_witness:
  "wp (do { rc \<leftarrow> afu_open demo; rc' \<leftarrow> ocxl_afu_close demo; State_Monad.return (rc, rc') })
    (\<lambda>(rc, rc') s'. rc \<noteq> OCXL_OK \<and> rc' = OCXL_ALREADY_DONE \<and> balance (calls s') (RMem 2) = 1)
    (demo_state\<lparr>calls := [CMalloc 28 (Some 2)], cur_afu := demo_afu\<lparr>afu_fd := - 1,
       device_path := Some (2, ''/dev/ocxl/x'')\<rparr>, wld := demo_world\<lparr>dw_open_fails := [''/dev/ocxl/x'']\<rparr>\<rparr>)"
  by (rule wp_mono [OF open_failure_leaks]) (auto simp: effect_def)

text \<open>Attaching is refused on a closed AFU without a call to the kernel, and otherwise makes
  exactly one attach call, with the AMR on PowerPC and 0 elsewhere; the AFU is attached
  exactly when the kernel accepts.\<close>

lemma attach_contract:
  "wp (ocxl_afu_attach K flags) (\<lambda>rc s'. ub s' = ub s \<and>
     (if afu_fd (cur_afu s) = - 1 then rc = OCXL_NO_CONTEXT \<and> calls s' = calls s \<and> cur_afu s' = cur_afu s
      else (\<exists>r. calls s' = calls s @ [CAttach (afu_fd (cur_afu s))
               (if arch_ppc64 K then ppc64_amr (cur_afu s) else 0) r] \<and>
             rc = (if r = 0 then OCXL_OK else OCXL_INTERNAL_ERROR) \<and>
             cur_afu s' = (cur_afu s)\<lparr>attached := attached (cur_afu s) \<or> r = 0\<rparr>))) s"
  by (auto simp: ocxl_afu_attach_def wp_simps wp_call split: prod.splits)

text \<open>C33: opening by name and location. The library asks for the devices that match one pattern, made of the device
  directory, the AFU name, the location or \<open>*\<close>, and the index or \<open>*\<close> when it is -1, cut at \<open>PATH_MAX\<close>. It tries the
  devices of the list in order: those whose contexts are all in use are skipped, and the first other one
  decides - its result is the result, and the devices behind it are not touched. When all of them are in use
  the result is \<open>OCXL_NO_MORE_CONTEXTS\<close>; when the list cannot be had, the error says why. There is a handle
  exactly with success, and it is that of an open AFU with well-formed, empty tables.\<close>

theorem open_specific_contract:
  assumes "run_state (libocxl_init K) s = ((), s0)"
    and "os_glob K (take (PATH_MAX - 1) (DEVICE_PATH (glb s0) @ ''/'' @ nm @ ''.'' @
        (case pf of None \<Rightarrow> ''*'' | Some p \<Rightarrow> p) @ ''.'' @ (if idx = - 1 then ''*'' else signed_text idx))) (wld s0) =
      ((rc, paths), w)"
  shows "wp (ocxl_afu_open_specific K nm pf idx) (\<lambda>r s'.
    (if rc = 0 then
       (case find (\<lambda>a. \<not> busy a) (attempts K paths (s0\<lparr>wld := w\<rparr>)) of
          Some a \<Rightarrow> (r, s') = a
        | None \<Rightarrow> r = (if paths = [] then OCXL_INTERNAL_ERROR else OCXL_NO_MORE_CONTEXTS, None))
     else r = (if rc = GLOB_NOSPACE then OCXL_NO_MEM else if rc = GLOB_NOMATCH then OCXL_NO_DEV
         else OCXL_INTERNAL_ERROR, None) \<and> calls s' = calls s) \<and>
    ub s' = ub s \<and> (fst r = OCXL_OK \<longleftrightarrow> snd r \<noteq> None) \<and>
    (\<forall>b. snd r = Some b \<longrightarrow> b = afu_block (cur_afu s') \<and> 0 \<le> afu_fd (cur_afu s') \<and>
        mmio_ok (cur_afu s') \<and> irq_ok (cur_afu s') \<and>
        mmio_count (cur_afu s') = 0 \<and> irq_count (cur_afu s') = 0)) s"
proof -
  have s0: "calls s0 = calls s" using wpD [OF libocxl_init_frame assms(1)] by simp
  have g: "os_glob K (open_pattern (glb s0) nm pf idx) (wld s0) = ((rc, paths), w)"
    unfolding open_pattern_def by (rule assms(2))
  have step: "wp (ocxl_afu_open_specific K nm pf idx) Q s = wp (if rc = 0 then open_first K paths (OCXL_INTERNAL_ERROR, None)
      else if rc = GLOB_NOSPACE then do {
        errmsg NoAFU OCXL_NO_MEM ''No memory for glob while listing AFUs'' [];
        State_Monad.return (OCXL_NO_MEM, None)
      } else if rc = GLOB_NOMATCH then do {
        errmsg NoAFU OCXL_NO_DEV (''No OCXL devices found in '%s' with pattern '%s'' @ squote)
          [FStr (DEVICE_PATH (glb s0)), FStr (open_pattern (glb s0) nm pf idx)];
        State_Monad.return (OCXL_NO_DEV, None)
      } else do {
        errmsg NoAFU OCXL_INTERNAL_ERROR ''Glob error %d while listing AFUs'' [FInt rc];
        State_Monad.return (OCXL_INTERNAL_ERROR, None)
      }) Q (s0\<lparr>wld := w\<rparr>)" for Q
    unfolding ocxl_afu_open_specific_def wp_bind [of "libocxl_init K"] wp_def [of "libocxl_init K"] assms(1) prod.case
    by (simp only: wp_bind wp_gets wp_Let Let_def wp_sys g prod.case)
  have "wp (ocxl_afu_open_specific K nm pf idx) (\<lambda>r s'.
    if rc = 0 then
       (case find (\<lambda>a. \<not> busy a) (attempts K paths (s0\<lparr>wld := w\<rparr>)) of
          Some a \<Rightarrow> (r, s') = a
        | None \<Rightarrow> r = (if paths = [] then OCXL_INTERNAL_ERROR else OCXL_NO_MORE_CONTEXTS, None))
     else r = (if rc = GLOB_NOSPACE then OCXL_NO_MEM else if rc = GLOB_NOMATCH then OCXL_NO_DEV
         else OCXL_INTERNAL_ERROR, None) \<and> calls s' = calls s) s"
  proof (cases "rc = 0")
    case True
    show ?thesis
      unfolding step if_P [OF True]
      by (rule wp_mono [OF open_first_attempts]) (auto split: option.splits if_splits)
  next
    case False
    show ?thesis
      unfolding step if_not_P [OF False] by (simp add: wp_simps wp_call s0)
  qed
  moreover have "wp (ocxl_afu_open_specific K nm pf idx) (\<lambda>r s'. ub s' = ub s \<and> (fst r = OCXL_OK \<longleftrightarrow> snd r \<noteq> None) \<and>
    (\<forall>b. snd r = Some b \<longrightarrow> b = afu_block (cur_afu s') \<and> 0 \<le> afu_fd (cur_afu s') \<and>
        mmio_ok (cur_afu s') \<and> irq_ok (cur_afu s') \<and>
        mmio_count (cur_afu s') = 0 \<and> irq_count (cur_afu s') = 0)) s"
    by (rule wp_mono [OF open_specific_spec]) (simp add: split_beta)
  ultimately show ?thesis unfolding wp_conj [symmetric] by (rule conjI [THEN iffD2 [OF wp_conj]])
qed

theorem open_specific_contract_witness:
  "wp (ocxl_afu_open_specific demo ''AFU'' None (- 1)) (\<lambda>(rc, h) s'. ub s' = [] \<and>
     (rc = OCXL_OK \<longleftrightarrow> h \<noteq> None)) (demo_state\<lparr>wld := demo_world\<lparr>dw_devices := [''AFU.1:0:0.1.0'']\<rparr>\<rparr>)"
proof -
  let ?s = "demo_state\<lparr>wld := demo_world\<lparr>dw_devices := [''AFU.1:0:0.1.0'']\<rparr>\<rparr>"
  define s0 where "s0 = snd (run_state (libocxl_init demo) ?s)"
  then have s0: "run_state (libocxl_init demo) ?s = ((), s0)" by (simp add: prod_eq_iff)
  have "\<exists>rc paths w. os_glob demo pat w0 = ((rc, paths), w)" for pat w0 by (metis surj_pair)
  then obtain rc paths w where g: "os_glob demo (take (PATH_MAX - 1) (DEVICE_PATH (glb s0) @ ''/'' @ ''AFU'' @ ''.'' @
        (case None of None \<Rightarrow> ''*'' | Some p \<Rightarrow> p) @ ''.'' @ (if (- 1 :: int) = - 1 then ''*'' else signed_text (- 1)))) (wld s0) =
      ((rc, paths), w)" by blast
  show ?thesis
    by (rule wp_mono [OF open_specific_contract [OF s0 g]]) (auto simp: demo_state_def)
qed

end
