(* ===== verification/Ocxl_Lifecycle.thy ===== *)
theory Ocxl_Lifecycle
  imports Ocxl_Afu
begin

text \<open>
  The library as a state machine over the calls an application makes on an open AFU: mapping
  and unmapping, register accesses, interrupts, events, attaching and message control. Every
  run of such calls keeps the tables well formed, and the resources of the call record are,
  at every moment, exactly those the AFU holds and those that were held before.
\<close>

section \<open>Programs that leave the AFU and its resources alone\<close>

named_theorems quiet_intros \<open>programs that only look, or write messages\<close>

definition untouched :: "'w st \<Rightarrow> 'w st \<Rightarrow> bool" where
  "untouched s s' \<longleftrightarrow> cur_afu s' = cur_afu s \<and> glb s' = glb s \<and> balance (calls s') = balance (calls s)"

definition quiet :: "('w, 'a) prog \<Rightarrow> bool" where
  "quiet m \<longleftrightarrow> (\<forall>s. wp m (\<lambda>_. untouched s) s)"

lemma quietD: "quiet m \<Longrightarrow> wp m (\<lambda>_. untouched s) s"
  by (simp add: quiet_def)

lemma quiet_return [quiet_intros]: "quiet (State_Monad.return x)"
  by (simp add: quiet_def untouched_def wp_simps)

lemma quiet_skip [quiet_intros]: "quiet skip"
  by (simp add: quiet_def untouched_def wp_simps)

lemma quiet_bind [quiet_intros]:
  assumes "quiet m" "\<And>x. quiet (f x)"
  shows "quiet (State_Monad.bind m f)"
  unfolding quiet_def wp_bind
  by (intro allI wp_mono [OF quietD [OF assms(1)]] wp_mono [OF quietD [OF assms(2)]])
    (simp add: untouched_def)

lemma quiet_if [quiet_intros]: "quiet m \<Longrightarrow> quiet n \<Longrightarrow> quiet (if b then m else n)"
  by simp

lemma quiet_whenM [quiet_intros]: "quiet m \<Longrightarrow> quiet (whenM b m)"
  by (simp add: whenM_def quiet_intros)

lemma quiet_Let [quiet_intros]: "(\<And>x. quiet (f x)) \<Longrightarrow> quiet (let x = e in f x)"
  by (simp add: Let_def)

lemma quiet_option [quiet_intros]:
  "quiet m \<Longrightarrow> (\<And>x. quiet (f x)) \<Longrightarrow> quiet (case z of None \<Rightarrow> m | Some x \<Rightarrow> f x)"
  by (cases z) simp_all

lemma quiet_sum [quiet_intros]:
  "(\<And>x. quiet (f x)) \<Longrightarrow> (\<And>x. quiet (g x)) \<Longrightarrow> quiet (case z of Inl x \<Rightarrow> f x | Inr x \<Rightarrow> g x)"
  by (cases z) simp_all

lemma quiet_prod [quiet_intros]: "(\<And>x y. quiet (f x y)) \<Longrightarrow> quiet (case z of (x, y) \<Rightarrow> f x y)"
  by (cases z) simp

lemma quiet_cell [quiet_intros]:
  "(\<And>x. quiet (f x)) \<Longrightarrow> quiet m \<Longrightarrow> quiet n \<Longrightarrow>
   quiet (case z of Obj x \<Rightarrow> f x | Zeroed \<Rightarrow> m | Indet \<Rightarrow> n)"
  by (cases z) simp_all

lemma quiet_source [quiet_intros]:
  "quiet m \<Longrightarrow> quiet n \<Longrightarrow> quiet (case z of EPOLL_SOURCE_OCXL \<Rightarrow> m | EPOLL_SOURCE_IRQ \<Rightarrow> n)"
  by (cases z) simp_all

lemma quiet_basic [quiet_intros]:
  "quiet (afu_get f)" "quiet (gets g)" "quiet (undefined_behaviour k)" "quiet (sys h)"
  "quiet (errno K)" "quiet (errmsg org err fmt args)" "quiet (TRACE file line func fmt args)"
  by (auto simp: quiet_def untouched_def wp_simps wp_call split: prod.splits)

lemma quiet_platform [quiet_intros]:
  "quiet (do_load K a n)" "quiet (do_store K a bs)" "quiet (do_attach K d amr)"
  "quiet (do_epoll_wait K ep cnt timeout)"
  by (auto simp: quiet_def untouched_def wp_simps wp_call fun_eq_iff effect_def split: prod.splits)

lemma quiet_populate [quiet_intros]: "quiet (populate_xsl_fault_error K body)"
  unfolding populate_xsl_fault_error_def by (intro quiet_intros)

lemma quiet_read_afu_event [quiet_intros]: "quiet (read_afu_event K ver)"
  unfolding read_afu_event_def by (intro quiet_intros)

lemma quiet_put_event [quiet_intros]: "quiet (put_event t ev events)"
  unfolding put_event_def by (intro quiet_intros)

lemma quiet_drain [quiet_intros]: "quiet (drain_events K fuel ver events t)"
  by (induction fuel arbitrary: events t) (auto simp del: split_paired_All intro!: quiet_intros)

lemma quiet_irq_ptr [quiet_intros]: "quiet (irq_ptr p)"
  unfolding irq_ptr_def by (intro quiet_intros)

lemma quiet_source_at [quiet_intros]: "quiet (source_at p)"
  unfolding source_at_def by (cases p) (auto intro!: quiet_intros)

lemma quiet_irq_event [quiet_intros]: "quiet (irq_event K p events t)"
  unfolding irq_event_def by (intro quiet_intros)

lemma quiet_event_loop [quiet_intros]: "quiet (event_loop K fuel ver ptrs events t)"
  by (induction ptrs arbitrary: events t) (auto intro!: quiet_intros)

lemma quiet_region_at [quiet_intros]: "quiet (region_at h)"
  unfolding region_at_def by (intro quiet_intros)

lemma quiet_region_ptr [quiet_intros]: "quiet (region_ptr h)"
  unfolding region_ptr_def by (intro quiet_intros)

lemma quiet_mmio_check [quiet_intros]: "quiet (mmio_check h off sz)"
  unfolding mmio_check_def by (intro quiet_intros)

lemma quiet_accessors [quiet_intros]:
  "quiet (ocxl_mmio_read32 K h off e)" "quiet (ocxl_mmio_read64 K h off e)"
  "quiet (ocxl_mmio_write32 K h off e v)" "quiet (ocxl_mmio_write64 K h off e v')"
  unfolding ocxl_mmio_read32_def ocxl_mmio_read64_def ocxl_mmio_write32_def ocxl_mmio_write64_def
    mmio_read32_native_def mmio_read64_native_def mmio_write32_native_def mmio_write64_native_def
  by (intro quiet_intros)+

lemma quiet_irqs_at [quiet_intros]: "quiet (irqs_at i)"
  unfolding irqs_at_def by (intro quiet_intros)

lemma quiet_irq_queries [quiet_intros]:
  "quiet (ocxl_irq_get_handle n)" "quiet (ocxl_irq_get_fd n)" "quiet (ocxl_afu_get_p9_thread_id K)"
  unfolding ocxl_irq_get_handle_def ocxl_irq_get_fd_def ocxl_afu_get_p9_thread_id_def
  by (intro quiet_intros)+

section \<open>Calls of the application\<close>

datatype api_call =
    ApiMap map_request
  | ApiUnmap "block \<times> nat"
  | ApiRead32 ocxl_mmio_h u64 ocxl_endian
  | ApiRead64 ocxl_mmio_h u64 ocxl_endian
  | ApiWrite32 ocxl_mmio_h u64 ocxl_endian u32
  | ApiWrite64 ocxl_mmio_h u64 ocxl_endian u64
  | ApiIrqAlloc u64
  | ApiIrqHandle ocxl_irq_h
  | ApiIrqFd ocxl_irq_h
  | ApiEventCheck nat int event_array u16 u16
  | ApiP9Thread
  | ApiAttach u64
  | ApiMessages u64
  | ApiHandler handler
  | ApiAmr u64

definition void :: "('w, 'a) prog \<Rightarrow> ('w, unit) prog" where
  "void m = State_Monad.bind m (\<lambda>_. skip)"

primrec api_prog :: "'w platform \<Rightarrow> api_call \<Rightarrow> ('w, unit) prog" where
  "api_prog K (ApiMap q) = void (ocxl_mmio_map_advanced K (rq_type q) (rq_size q) (rq_prot q)
     (rq_flags q) (rq_offset q))"
| "api_prog K (ApiUnmap h) = ocxl_mmio_unmap K h"
| "api_prog K (ApiRead32 h off e) = void (ocxl_mmio_read32 K h off e)"
| "api_prog K (ApiRead64 h off e) = void (ocxl_mmio_read64 K h off e)"
| "api_prog K (ApiWrite32 h off e v) = void (ocxl_mmio_write32 K h off e v)"
| "api_prog K (ApiWrite64 h off e v) = void (ocxl_mmio_write64 K h off e v)"
| "api_prog K (ApiIrqAlloc info) = void (ocxl_irq_alloc K info)"
| "api_prog K (ApiIrqHandle n) = void (ocxl_irq_get_handle n)"
| "api_prog K (ApiIrqFd n) = void (ocxl_irq_get_fd n)"
| "api_prog K (ApiEventCheck fuel timeout events count ver) =
     void (ocxl_afu_event_check_versioned K fuel timeout events count ver)"
| "api_prog K ApiP9Thread = void (ocxl_afu_get_p9_thread_id K)"
| "api_prog K (ApiAttach flags) = void (ocxl_afu_attach K flags)"
| "api_prog K (ApiMessages sources) = ocxl_afu_enable_messages sources"
| "api_prog K (ApiHandler h) = ocxl_afu_set_error_message_handler h"
| "api_prog K (ApiAmr amr) = void (ocxl_afu_set_ppc64_amr amr)"

text \<open>What a caller has to see to: tables below the limit of their counter, and unmapping through a
  handle that still points into the region array.\<close>

definition api_ok :: "api_call \<Rightarrow> ocxl_afu \<Rightarrow> bool" where
  "api_ok c a = (case c of
      ApiMap q \<Rightarrow> unat (mmio_count a) < table_limit
    | ApiUnmap h \<Rightarrow> mmio_deref a h \<noteq> None \<and> snd h < unat (mmio_count a)
    | ApiIrqAlloc info \<Rightarrow> unat (irq_count a) < table_limit
    | _ \<Rightarrow> True)"

inductive api_run :: "'w platform \<Rightarrow> api_call list \<Rightarrow> 'w st \<Rightarrow> 'w st \<Rightarrow> bool" for K where
  done_run: "api_run K [] s s"
| step_run: "api_ok c (cur_afu s) \<Longrightarrow> run_state (api_prog K c) s = (u, s1) \<Longrightarrow> api_run K cs s1 s' \<Longrightarrow>
    api_run K (c # cs) s s'"

inductive_cases api_run_nilE: "api_run K [] s s'"
inductive_cases api_run_consE: "api_run K (c # cs) s s'"
inductive_simps api_run_simps: "api_run K [] s s'" "api_run K (c # cs) s s'"

section \<open>What every call keeps\<close>

definition afu_inv :: "ocxl_afu \<Rightarrow> bool" where
  "afu_inv a \<longleftrightarrow> 0 \<le> afu_fd a \<and> mmio_ok a \<and> irq_ok a"

definition kept :: "'w st \<Rightarrow> 'w st \<Rightarrow> bool" where
  "kept s s' \<longleftrightarrow> afu_inv (cur_afu s') \<and> page_size (cur_afu s') = page_size (cur_afu s) \<and>
     (\<forall>r. r \<noteq> RMap MAP_FAILED (page_size (cur_afu s)) \<longrightarrow> debt s' r = debt s r)"

lemma kept_refl: "afu_inv (cur_afu s) \<Longrightarrow> kept s s"
  by (simp add: kept_def)

lemma kept_trans: "kept s s1 \<Longrightarrow> kept s1 s2 \<Longrightarrow> kept s s2"
  by (simp add: kept_def)

lemma untouched_kept: "afu_inv (cur_afu s) \<Longrightarrow> untouched s s' \<Longrightarrow> kept s s'"
  by (simp add: kept_def untouched_def debt_def)

lemma quiet_kept: "quiet m \<Longrightarrow> afu_inv (cur_afu s) \<Longrightarrow> wp m (\<lambda>_. kept s) s"
  by (rule wp_mono [OF quietD]) (simp_all add: untouched_kept)

lemma wp_void: "wp (void m) Q s = wp m (\<lambda>_. Q ()) s"
  by (simp add: void_def wp_simps)

definition book_kept :: "'w st \<Rightarrow> 'w st \<Rightarrow> bool" where
  "book_kept s s' \<longleftrightarrow> afu_inv (cur_afu s') \<and> page_size (cur_afu s') = page_size (cur_afu s) \<and>
     debt s' = debt s"

lemma book_kept_kept: "book_kept s s' \<Longrightarrow> kept s s'"
  by (simp add: book_kept_def kept_def)

lemma no_mmios_inv:
  assumes "no_mmios a' = no_mmios a" "mmio_ok a'" "afu_inv a"
  shows "afu_inv a'" "page_size a' = page_size a"
proof -
  note f = no_mmios_cong [OF assms(1)]
  have "afu_fd a' = afu_fd a" "irq_ok a' = irq_ok a"
    by (rule f, simp add: no_mmios_def irq_ok_def live_irqs_def cong: option.case_cong)+
  then show "afu_inv a'" using assms by (simp add: afu_inv_def)
  show "page_size a' = page_size a" by (rule f) (simp add: no_mmios_def)
qed

lemma no_irqs_inv:
  assumes "no_irqs a' = no_irqs a" "irq_ok a'" "afu_inv a"
  shows "afu_inv a'" "page_size a' = page_size a"
proof -
  note f = no_irqs_cong [OF assms(1)]
  have "afu_fd a' = afu_fd a" "mmio_ok a' = mmio_ok a"
    by (rule f, simp add: no_irqs_def mmio_ok_def)+
  then show "afu_inv a'" using assms by (simp add: afu_inv_def)
  show "page_size a' = page_size a" by (rule f) (simp add: no_irqs_def)
qed

lemma mmios_book_kept:
  assumes "no_mmios (cur_afu s') = no_mmios (cur_afu s)" "mmio_ok (cur_afu s')" "afu_inv (cur_afu s)"
    "mapping_debt s' = mapping_debt s"
  shows "kept s s'"
  using no_mmios_inv [OF assms(1-3)] debt_mmios [OF assms(1,4)]
  by (simp add: book_kept_kept book_kept_def)

lemma map_kept:
  assumes "irq_laws K" "afu_inv (cur_afu s)" "unat (mmio_count (cur_afu s)) < table_limit"
  shows "wp (ocxl_mmio_map_advanced K ty sz prot flags off) (\<lambda>_. kept s) s"
proof -
  have pre: "mmio_pre (cur_afu s)" "mmap_nonnull K"
    using assms by (auto simp: mmio_pre_def afu_inv_def mmio_room_def table_limit_def irq_laws_def)
  have "kept s s'" if "map_post x ty s r s'" for x r s'
    by (rule mmios_book_kept) (use that assms(2) in \<open>simp_all add: map_post_def Let_def\<close>)
  then show ?thesis by (rule wp_mono [OF map_advanced_spec [OF pre]])
qed

lemma unmap_kept:
  assumes "afu_inv (cur_afu s)" "mmio_deref (cur_afu s) h \<noteq> None" "snd h < unat (mmio_count (cur_afu s))"
  shows "wp (ocxl_mmio_unmap K h) (\<lambda>_. kept s) s"
proof -
  obtain m where m: "mmio_deref (cur_afu s) h = Some m" using assms(2) by blast
  have ok: "mmio_ok (cur_afu s)" using assms(1) by (simp add: afu_inv_def)
  have "kept s s'" if u: "unmap_post h m s s'" for s'
    using u by (intro mmios_book_kept [OF _ _ assms(1) unmap_debt [OF u m assms(3)]])
      (simp_all add: unmap_post_def Let_def)
  then show ?thesis by (rule wp_mono [OF unmap_spec [OF ok m assms(3)]])
qed

lemma irq_alloc_kept:
  assumes "irq_laws K" "afu_inv (cur_afu s)" "unat (irq_count (cur_afu s)) < table_limit"
  shows "wp (ocxl_irq_alloc K info) (\<lambda>_. kept s) s"
proof -
  have "irq_ok (cur_afu s)" using assms(2) by (simp add: afu_inv_def)
  moreover have "kept s s'" if "irq_alloc_post info s r s'" for r s'
    using that assms(2) debt_irqs [OF that] no_irqs_inv [of "cur_afu s'" "cur_afu s"]
    by (auto simp: irq_alloc_post_def kept_def Let_def)
  ultimately show ?thesis
    using assms(1,3) by (intro wp_mono [OF irq_alloc_spec]) (simp_all add: table_limit_def)
qed

text \<open>Fields that no resource depends on.\<close>

definition light_fields :: "ocxl_afu \<Rightarrow> ocxl_afu" where
  "light_fields a = a\<lparr>afu_verbose_errors := False, afu_tracing := False,
     afu_error_handler := DefaultHandler, attached := False, ppc64_amr := 0, epoll_event_count := 0\<rparr>"

lemma light_fields_upd [simp]:
  "light_fields (a\<lparr>afu_verbose_errors := b\<rparr>) = light_fields a"
  "light_fields (a\<lparr>afu_tracing := b\<rparr>) = light_fields a"
  "light_fields (a\<lparr>afu_error_handler := h\<rparr>) = light_fields a"
  "light_fields (a\<lparr>attached := b\<rparr>) = light_fields a"
  "light_fields (a\<lparr>ppc64_amr := r\<rparr>) = light_fields a"
  "light_fields (a\<lparr>epoll_event_count := n\<rparr>) = light_fields a"
  by (simp_all add: light_fields_def)

lemma live_regions_light [simp]:
  "live_regions (light_fields a) = live_regions a" "live_regions (a\<lparr>epoll_events := b\<rparr>) = live_regions a"
  by (simp_all add: live_regions_def light_fields_def fun_eq_iff)

lemma light_book:
  assumes "light_fields a' = light_fields a"
  shows "owned a' = owned a" "afu_inv a' = afu_inv a" "page_size a' = page_size a"
proof -
  have f: "g a' = g a" if "\<And>b. g (light_fields b) = g b" for g :: "ocxl_afu \<Rightarrow> 'a"
    using that assms by metis
  show "page_size a' = page_size a" by (rule f) (simp add: light_fields_def)
  show "afu_inv a' = afu_inv a"
    by (rule f) (simp add: light_fields_def afu_inv_def mmio_ok_def irq_ok_def live_irqs_def
        cong: option.case_cong)
  show "owned a' = owned a"
    by (rule f, simp add: owned_def fun_eq_iff)
      (simp add: light_fields_def base_owned_def irqs_owned_def irq_owned_def live_irqs_def
        cong: option.case_cong)
qed

lemma light_kept:
  assumes "afu_inv (cur_afu s)" "light_fields (cur_afu s') = light_fields (cur_afu s)"
    "balance (calls s') = balance (calls s)"
  shows "kept s s'"
  using assms light_book [OF assms(2)] by (simp add: kept_def debt_def)

text \<open>The event buffer changes hands.\<close>

lemma owned_events:
  "owned (a\<lparr>epoll_events := b\<rparr>) r = owned a r - mem_owned (epoll_events a) r + mem_owned b r"
  by (simp add: owned_def base_owned_def irqs_owned_def irq_owned_def live_irqs_def
      cong: option.case_cong)

lemma afu_inv_events [simp]: "afu_inv (a\<lparr>epoll_events := b\<rparr>) = afu_inv a"
  by (simp add: afu_inv_def mmio_ok_def irq_ok_def live_irqs_def cong: option.case_cong)

lemma events_book:
  assumes "light_fields a' = light_fields (a\<lparr>epoll_events := b\<rparr>)"
  shows "owned a' r = owned a r - mem_owned (epoll_events a) r + mem_owned b r"
    "afu_inv a' = afu_inv a" "page_size a' = page_size a"
  using light_book [OF assms] by (simp_all add: owned_events)

lemma epoll_reserve_kept:
  assumes "afu_inv (cur_afu s)"
  shows "wp (epoll_reserve K n) (\<lambda>_. kept s) s"
proof -
  have "kept s s'" if "light_fields (cur_afu s') = light_fields ((cur_afu s)\<lparr>epoll_events := b\<rparr>)"
    "\<And>r. balance (calls s') r = balance (calls s) r - mem_owned (epoll_events (cur_afu s)) r + mem_owned b r"
    for b s'
    using that(2) events_book [OF that(1)] assms by (simp add: kept_def debt_def)
  note none = this [of _ None] and some = this [of _ "Some x" for x]
  show ?thesis
    by (auto simp: epoll_reserve_def wp_simps wp_call effect_simps effect_malloc kept_refl [OF assms]
        intro: none some split: prod.splits option.splits)
qed

lemma kept_then_quiet:
  assumes "kept s s1" "quiet m"
  shows "wp m (\<lambda>_. kept s) s1"
  using assms by (intro wp_mono [OF quiet_kept]) (auto simp: kept_def intro: kept_trans)

lemma event_check_kept:
  assumes "afu_inv (cur_afu s)"
  shows "wp (ocxl_afu_event_check_versioned K fuel timeout events count ver) (\<lambda>_. kept s) s"
proof -
  let ?s1 = "trace_state (afu_tracing (cur_afu s)) ''src/irq.c'' 398 ''ocxl_afu_event_check_versioned''
     ''Waiting up to %dms for AFU events'' [FInt timeout] s"
  have "kept s ?s1" using assms by (intro untouched_kept) (simp_all add: untouched_def)
  then have res: "wp (epoll_reserve K count) (\<lambda>_. kept s) ?s1"
    using assms by (intro wp_mono [OF epoll_reserve_kept]) (auto intro: kept_trans)
  show ?thesis
    unfolding ocxl_afu_event_check_versioned_def wp_bind wp_TRACE
    by (rule wp_mono [OF res]) (erule kept_then_quiet, intro quiet_intros)
qed

lemma attach_kept: "afu_inv (cur_afu s) \<Longrightarrow> wp (ocxl_afu_attach K flags) (\<lambda>_. kept s) s"
  by (auto simp: ocxl_afu_attach_def wp_simps wp_call effect_def fun_eq_iff split: prod.splits
      intro!: light_kept)

text \<open>Every call of the interface, on every path through it.\<close>

lemma api_kept:
  assumes "irq_laws K" "afu_inv (cur_afu s)" "api_ok c (cur_afu s)"
  shows "wp (api_prog K c) (\<lambda>_. kept s) s"
proof (cases c)
  case (ApiMap q)
  with assms show ?thesis by (auto simp: wp_void api_ok_def intro!: map_kept)
next
  case (ApiUnmap h)
  with assms show ?thesis by (auto simp: api_ok_def intro!: unmap_kept)
next
  case (ApiIrqAlloc info)
  with assms show ?thesis by (auto simp: wp_void api_ok_def intro!: irq_alloc_kept)
next
  case (ApiEventCheck fuel timeout events count ver)
  with assms show ?thesis by (simp add: wp_void event_check_kept)
next
  case (ApiAttach flags)
  with assms show ?thesis by (simp add: wp_void attach_kept)
qed (use assms(2) in \<open>auto simp: wp_void ocxl_afu_enable_messages_def ocxl_afu_set_error_message_handler_def
      ocxl_afu_set_ppc64_amr_def wp_simps intro!: quiet_kept quiet_intros light_kept\<close>)

lemma api_run_kept:
  assumes "irq_laws K"
  shows "api_run K cs s s' \<Longrightarrow> afu_inv (cur_afu s) \<Longrightarrow> kept s s'"
proof (induction rule: api_run.induct)
  case (done_run s)
  then show ?case by (rule kept_refl)
next
  case (step_run c s u s1 cs s')
  have "kept s s1" using wpD [OF api_kept [OF assms step_run.prems step_run.hyps(1)] step_run.hyps(2)] .
  moreover from this have "kept s1 s'" by (intro step_run.IH) (simp add: kept_def)
  ultimately show ?case by (rule kept_trans)
qed

section \<open>Sessions\<close>

text \<open>A device to open, for the examples.\<close>

definition demo_irq_platform :: "demo_w platform" where
  "demo_irq_platform = demo\<lparr>os_ioctl_irq_alloc := (\<lambda>d w. ((0, Some 4096), w))\<rparr>"

definition demo_start :: "demo_w st" where
  "demo_start = demo_state\<lparr>wld := demo_world\<lparr>dw_devices := [''AFU.1:0:0.1.0'']\<rparr>\<rparr>"

definition demo_session :: "api_call list" where
  "demo_session = [ApiMap \<lparr>rq_type = OCXL_PER_PASID_MMIO, rq_size = 0, rq_prot = 3, rq_flags = 0,
     rq_offset = 0\<rparr>, ApiAttach 0, ApiEventCheck 1 0 [None] 1 0]"

lemma demo_scan: "scan_items pci_format ''1:0:0.1.0'' = [1, 0, 0, 1, 0]"
proof -
  have d: "all_digits 16 ''1''" "all_digits 10 ''0''" "all_digits 10 ''1''"
    by (simp_all add: all_digits_def is_digit_def digit_val_def)
  from scan_pci [OF d(1,2,2,3,2)] show ?thesis
    by (simp add: location_def value_of_def digit_val_def ULONG_MAX_def)
qed

lemma demo_opens:
  "wp (ocxl_afu_open_from_dev demo_irq_platform ''/dev/ocxl/AFU.1:0:0.1.0'')
     (\<lambda>r s'. r = (OCXL_OK, Some 100)) demo_start"
proof -
  have c: "strchr ''AFU.1:0:0.1.0'' CHR ''.'' = Some 3" by code_simp
  have n: "sscanf_count pci_format ''1:0:0.1.0'' = 5" by (simp add: sscanf_count_def demo_scan)
  note library = ocxl_afu_open_from_dev_def libocxl_init_def get_afu_by_path_def afu_alloc_def
    populate_metadata_def device_matches_def populate_from_name_def afu_open_def global_mmio_open_def
    open_context_def trace_metadata_def env_yes_def AFU_NAME_MAX_def afu_init_def PATH_MAX_def
    SYS_PATH_def DEVICE_PATH_def
  note example = demo_start_def demo_state_def demo_world_def demo_globals_def demo_irq_platform_def
    demo_alloc_def demo_new_fd_def
  show ?thesis
    by (simp add: library example wp_simps wp_call c demo_scan n Let_def)
qed

lemma demo_opened:
  obtains s1 where
    "run_state (ocxl_afu_open_from_dev demo_irq_platform ''/dev/ocxl/AFU.1:0:0.1.0'') demo_start =
       ((OCXL_OK, Some 100), s1)"
    "afu_inv (cur_afu s1)" "mmio_count (cur_afu s1) = 0"
proof -
  obtain s1 where s1: "run_state (ocxl_afu_open_from_dev demo_irq_platform ''/dev/ocxl/AFU.1:0:0.1.0'')
      demo_start = ((OCXL_OK, Some 100), s1)"
    using demo_opens by (auto simp: wp_def split: prod.splits)
  from wpD [OF open_from_dev_spec s1] show ?thesis
    by (intro that [OF s1]) (simp_all add: dev_post_def afu_inv_def)
qed

lemma demo_session_runs: "mmio_count (cur_afu s1) = 0 \<Longrightarrow> \<exists>s2. api_run K demo_session s1 s2"
  unfolding demo_session_def
  by (rule exI, (rule step_run [OF _ surjective_pairing], simp add: api_ok_def table_limit_def)+) (rule done_run)

text \<open>C2: however an application uses an open AFU - any sequence of mapping, unmapping, register
  accesses, interrupt allocations, event checks, attaching and message control, each of them
  succeeding or failing - the descriptor stays open, the region and interrupt tables stay well
  formed, and the resources acquired and not released are at every moment exactly those the
  AFU struct records, plus those that were held before the run. The single exception is the
  address \<open>MAP_FAILED\<close>, which the cleanup of a failed interrupt allocation unmaps.\<close>

theorem session_invariant:
  assumes "irq_laws K" "0 \<le> afu_fd (cur_afu s)" "mmio_ok (cur_afu s)" "irq_ok (cur_afu s)"
    and "api_run K cs s s'"
  shows "0 \<le> afu_fd (cur_afu s') \<and> mmio_ok (cur_afu s') \<and> irq_ok (cur_afu s') \<and>
    (\<forall>r. r \<noteq> RMap MAP_FAILED (page_size (cur_afu s)) \<longrightarrow>
       balance (calls s') r - owned (cur_afu s') r = balance (calls s) r - owned (cur_afu s) r)"
  using api_run_kept [OF assms(1,5)] assms(2-4) by (simp add: kept_def afu_inv_def debt_def)

theorem session_invariant_witness:
  "\<exists>s1 s2. 0 \<le> afu_fd (cur_afu s1) \<and> api_run demo_irq_platform demo_session s1 s2 \<and>
     mmio_ok (cur_afu s2) \<and> irq_ok (cur_afu s2) \<and>
     balance (calls s2) (RMem 100) - owned (cur_afu s2) (RMem 100) =
       balance (calls s1) (RMem 100) - owned (cur_afu s1) (RMem 100)"
proof -
  obtain s1 :: "demo_w st" where s1: "afu_inv (cur_afu s1)" "mmio_count (cur_afu s1) = 0"
    using demo_opened by blast
  obtain s2 where s2: "api_run demo_irq_platform demo_session s1 s2" using demo_session_runs [OF s1(2)] ..
  have "irq_laws demo_irq_platform" by (simp add: demo_irq_platform_def demo_irq_laws)
  from session_invariant [OF this _ _ _ s2] s1(1) s2 show ?thesis
    by (intro exI [of _ s1] exI [of _ s2]) (simp add: afu_inv_def)
qed

text \<open>C1: a session gives back what it took. From opening a device file, through any sequence of
  calls on the AFU, to closing it, every mapping, descriptor, interrupt and heap block that
  was acquired has been released - except the block of the region array, which
  \<open>ocxl_afu_close\<close> does not free.\<close>

theorem session_balances:
  assumes "irq_laws K"
    and "run_state (ocxl_afu_open_from_dev K path) s0 = ((OCXL_OK, Some b), s1)"
    and "api_run K cs s1 s2"
  shows "wp (ocxl_afu_close K) (\<lambda>rc s3. rc = OCXL_OK \<and>
    (\<forall>r. r \<noteq> RFd (- 1) \<and> r \<noteq> RMap MAP_FAILED (page_size (cur_afu s1)) \<longrightarrow>
       balance (calls s3) r = balance (calls s0) r + block_owned (mmios (cur_afu s2)) r)) s2"
proof -
  have o: "afu_inv (cur_afu s1)" "\<forall>r. balance (calls s1) r = balance (calls s0) r + owned (cur_afu s1) r"
    using wpD [OF open_from_dev_spec assms(2)] by (simp_all add: dev_post_def afu_inv_def)
  then have "kept s1 s2" by (intro api_run_kept [OF assms(1,3)])
  then have k: "afu_inv (cur_afu s2)" "\<forall>r. r \<noteq> RMap MAP_FAILED (page_size (cur_afu s1)) \<longrightarrow>
      balance (calls s2) r - owned (cur_afu s2) r = balance (calls s0) r"
    using o(2) by (simp_all add: kept_def debt_def)
  then show ?thesis
    by (intro wp_mono [OF afu_close_spec])
      (auto simp: afu_inv_def irq_ok_def closed_post_def)
qed

theorem session_balances_witness:
  "\<exists>s1 s2. run_state (ocxl_afu_open_from_dev demo_irq_platform ''/dev/ocxl/AFU.1:0:0.1.0'') demo_start =
       ((OCXL_OK, Some 100), s1) \<and> api_run demo_irq_platform demo_session s1 s2 \<and>
     wp (ocxl_afu_close demo_irq_platform) (\<lambda>rc s3. rc = OCXL_OK \<and>
       balance (calls s3) (RFd 10) = balance (calls demo_start) (RFd 10)) s2"
proof -
  obtain s1 where s1: "run_state (ocxl_afu_open_from_dev demo_irq_platform ''/dev/ocxl/AFU.1:0:0.1.0'')
      demo_start = ((OCXL_OK, Some 100), s1)" "mmio_count (cur_afu s1) = 0"
    by (rule demo_opened)
  obtain s2 where s2: "api_run demo_irq_platform demo_session s1 s2" using demo_session_runs [OF s1(2)] ..
  have "irq_laws demo_irq_platform" by (simp add: demo_irq_platform_def demo_irq_laws)
  from wp_mono [OF session_balances [OF this s1(1) s2]] s1(1) s2 show ?thesis
    by (intro exI [of _ s1] exI [of _ s2]) (simp add: block_owned_def)
qed

end
