(* ===== verification/Ocxl_Contract.thy ===== *)
theory Ocxl_Contract
  imports Ocxl_Lifecycle
begin

text \<open>
  What an application sees of an open AFU, without arrays, counters and descriptors: whether it
  is attached, its MMIO windows by handle, and its interrupts in the order they were allocated.
  The calls of the library refine this view.
\<close>

section \<open>The view\<close>

record window =
  win_type :: ocxl_mmio_type
  win_addr :: u64
  win_size :: u64

record afu_view =
  view_attached :: bool
  view_windows :: "nat \<rightharpoonup> window"
  view_irqs :: "u64 list" \<comment> \<open>the user data of each\<close>

definition window_of :: "ocxl_mmio_area \<Rightarrow> window" where
  "window_of m = \<lparr>win_type = mm_type m, win_addr = mm_start m, win_size = mm_length m\<rparr>"

definition view :: "ocxl_afu \<Rightarrow> afu_view" where
  "view a = \<lparr>view_attached = attached a, view_windows = map_option window_of \<circ> live_regions a,
     view_irqs = map (\<lambda>i. case live_irqs a i of None \<Rightarrow> 0 | Some q \<Rightarrow> irq_info q) [0..<unat (irq_count a)]\<rparr>"

text \<open>The calls that may change the view. All but unmapping may be refused.\<close>

fun changes :: "api_call \<Rightarrow> bool" where
  "changes (ApiMap q) = True"
| "changes (ApiUnmap h) = True"
| "changes (ApiIrqAlloc info) = True"
| "changes (ApiAttach flags) = True"
| "changes c = False"

fun unmaps :: "api_call \<Rightarrow> bool" where
  "unmaps (ApiUnmap h) = True"
| "unmaps c = False"

text \<open>What a call that returns \<open>rc\<close> does to the view; \<open>area\<close> is the size of the MMIO areas. A window
  takes a handle that is not in use; per-PASID windows need an attached AFU.\<close>

inductive view_step ::
  "(ocxl_mmio_type \<Rightarrow> u64) \<Rightarrow> api_call \<Rightarrow> ocxl_err \<Rightarrow> afu_view \<Rightarrow> afu_view \<Rightarrow> bool" for area where
  refused: "\<not> unmaps c \<Longrightarrow> rc \<noteq> OCXL_OK \<Longrightarrow> view_step area c rc v v"
| no_effect: "\<not> changes c \<Longrightarrow> view_step area c rc v v"
| map_window: "view_windows v i = None \<Longrightarrow> addr \<noteq> 0 \<Longrightarrow> rq_flags q = 0 \<Longrightarrow>
    (rq_type q = OCXL_PER_PASID_MMIO \<Longrightarrow> view_attached v) \<Longrightarrow>
    view_step area (ApiMap q) OCXL_OK v (v\<lparr>view_windows := (view_windows v)(i \<mapsto>
      \<lparr>win_type = rq_type q, win_addr = addr,
       win_size = if rq_size q = 0 then area (rq_type q) - rq_offset q else rq_size q\<rparr>)\<rparr>)"
| unmap_window: "view_step area (ApiUnmap h) OCXL_OK v (v\<lparr>view_windows := (view_windows v)(snd h := None)\<rparr>)"
| new_irq: "view_step area (ApiIrqAlloc info) OCXL_OK v (v\<lparr>view_irqs := view_irqs v @ [info]\<rparr>)"
| attach: "view_step area (ApiAttach flags) OCXL_OK v (v\<lparr>view_attached := True\<rparr>)"

inductive view_run ::
  "(ocxl_mmio_type \<Rightarrow> u64) \<Rightarrow> (api_call \<times> ocxl_err) list \<Rightarrow> afu_view \<Rightarrow> afu_view \<Rightarrow> bool" for area where
  view_done: "view_run area [] v v"
| view_next: "view_step area c rc v v1 \<Longrightarrow> view_run area cs v1 v' \<Longrightarrow> view_run area ((c, rc) # cs) v v'"

section \<open>Calls and what they return\<close>

text \<open>\<open>OCXL_OK\<close> for the functions without an error code.\<close>

primrec api_result :: "'w platform \<Rightarrow> api_call \<Rightarrow> ('w, ocxl_err) prog" where
  "api_result K (ApiMap q) = do {
     (rc, _) \<leftarrow> ocxl_mmio_map_advanced K (rq_type q) (rq_size q) (rq_prot q) (rq_flags q) (rq_offset q);
     State_Monad.return rc }"
| "api_result K (ApiUnmap h) = do { ocxl_mmio_unmap K h; State_Monad.return OCXL_OK }"
| "api_result K (ApiRead32 h off e) = do { (rc, _) \<leftarrow> ocxl_mmio_read32 K h off e; State_Monad.return rc }"
| "api_result K (ApiRead64 h off e) = do { (rc, _) \<leftarrow> ocxl_mmio_read64 K h off e; State_Monad.return rc }"
| "api_result K (ApiWrite32 h off e v) = ocxl_mmio_write32 K h off e v"
| "api_result K (ApiWrite64 h off e v) = ocxl_mmio_write64 K h off e v"
| "api_result K (ApiIrqAlloc info) = do { (rc, _) \<leftarrow> ocxl_irq_alloc K info; State_Monad.return rc }"
| "api_result K (ApiIrqHandle n) = do { ocxl_irq_get_handle n; State_Monad.return OCXL_OK }"
| "api_result K (ApiIrqFd n) = do { ocxl_irq_get_fd n; State_Monad.return OCXL_OK }"
| "api_result K (ApiEventCheck fuel timeout events count ver) = do {
     ocxl_afu_event_check_versioned K fuel timeout events count ver; State_Monad.return OCXL_OK }"
| "api_result K ApiP9Thread = do { (rc, _) \<leftarrow> ocxl_afu_get_p9_thread_id K; State_Monad.return rc }"
| "api_result K (ApiAttach flags) = ocxl_afu_attach K flags"
| "api_result K (ApiMessages sources) = do { ocxl_afu_enable_messages sources; State_Monad.return OCXL_OK }"
| "api_result K (ApiHandler h) = do { ocxl_afu_set_error_message_handler h; State_Monad.return OCXL_OK }"
| "api_result K (ApiAmr amr) = ocxl_afu_set_ppc64_amr amr"

lemma api_result_prog: "wp (api_result K c) (\<lambda>_. Q) s = wp (api_prog K c) (\<lambda>_. Q) s"
  by (cases c) (simp_all add: wp_void wp_simps case_prod_unfold)

inductive api_reports :: "'w platform \<Rightarrow> (api_call \<times> ocxl_err) list \<Rightarrow> 'w st \<Rightarrow> 'w st \<Rightarrow> bool" for K where
  no_report: "api_reports K [] s s"
| report: "api_ok c (cur_afu s) \<Longrightarrow> run_state (api_result K c) s = (rc, s1) \<Longrightarrow> api_reports K cs s1 s' \<Longrightarrow>
    api_reports K ((c, rc) # cs) s s'"

section \<open>One call\<close>

definition steps_view :: "api_call \<Rightarrow> 'w st \<Rightarrow> ocxl_err \<Rightarrow> 'w st \<Rightarrow> bool" where
  "steps_view c s rc s' \<longleftrightarrow> view_step (mmio_length (cur_afu s)) c rc (view (cur_afu s)) (view (cur_afu s')) \<and>
     mmio_length (cur_afu s') = mmio_length (cur_afu s)"

lemma same_view:
  "view (cur_afu s') = view (cur_afu s) \<Longrightarrow> mmio_length (cur_afu s') = mmio_length (cur_afu s) \<Longrightarrow>
   \<not> changes c \<or> \<not> unmaps c \<and> rc \<noteq> OCXL_OK \<Longrightarrow> steps_view c s rc s'"
  by (auto simp: steps_view_def intro: no_effect refused)

lemma quiet_view: "quiet m \<Longrightarrow> \<not> changes c \<Longrightarrow> wp m (\<lambda>r. steps_view c s (f r)) s"
  by (rule wp_mono [OF quietD]) (auto simp: untouched_def intro: same_view)

lemmas case_congs = option.case_cong cell.case_cong ocxl_mmio_type.case_cong

lemma view_mmios:
  assumes "no_mmios a' = no_mmios a"
  shows "view a' = (view a)\<lparr>view_windows := map_option window_of \<circ> live_regions a'\<rparr>"
    "mmio_length a' = mmio_length a"
proof -
  note f = no_mmios_cong [OF assms]
  have "attached a' = attached a" "irq_count a' = irq_count a" "live_irqs a' = live_irqs a"
    by (rule f, simp add: no_mmios_def live_irqs_def fun_eq_iff cong: case_congs)+
  then show "view a' = (view a)\<lparr>view_windows := map_option window_of \<circ> live_regions a'\<rparr>" by (simp add: view_def)
  show "mmio_length a' = mmio_length a" by (rule f) (simp add: no_mmios_def mmio_length_def fun_eq_iff cong: case_congs)
qed

lemma irqs_frame:
  assumes "no_irqs a' = no_irqs a"
  shows "view a' = (view a)\<lparr>view_irqs := view_irqs (view a')\<rparr>" "mmio_length a' = mmio_length a"
proof -
  note f = no_irqs_cong [OF assms]
  have "attached a' = attached a" "live_regions a' = live_regions a"
    by (rule f, simp add: no_irqs_def live_regions_def fun_eq_iff cong: case_congs)+
  then show "view a' = (view a)\<lparr>view_irqs := view_irqs (view a')\<rparr>" by (simp add: view_def)
  show "mmio_length a' = mmio_length a" by (rule f) (simp add: no_irqs_def mmio_length_def fun_eq_iff cong: case_congs)
qed

lemma view_light [simp]:
  "view (a\<lparr>epoll_events := b\<rparr>) = view a" "view (a\<lparr>epoll_event_count := n\<rparr>) = view a"
  "view (a\<lparr>epoll_events := b, epoll_event_count := n\<rparr>) = view a"
  "view (a\<lparr>afu_verbose_errors := v\<rparr>) = view a" "view (a\<lparr>afu_tracing := v\<rparr>) = view a"
  "view (a\<lparr>afu_error_handler := h\<rparr>) = view a" "view (a\<lparr>ppc64_amr := r\<rparr>) = view a"
  by (simp_all add: view_def live_irqs_def live_regions_def fun_eq_iff cong: case_congs)

lemma view_attached_upd [simp]: "view (a\<lparr>attached := b\<rparr>) = (view a)\<lparr>view_attached := b\<rparr>"
  by (simp add: view_def live_irqs_def live_regions_def fun_eq_iff cong: case_congs)

lemma mmio_length_light [simp]:
  "mmio_length (a\<lparr>attached := b\<rparr>) = mmio_length a" "mmio_length (a\<lparr>epoll_events := e\<rparr>) = mmio_length a"
  "mmio_length (a\<lparr>epoll_event_count := n\<rparr>) = mmio_length a"
  "mmio_length (a\<lparr>afu_verbose_errors := v\<rparr>) = mmio_length a" "mmio_length (a\<lparr>afu_tracing := v\<rparr>) = mmio_length a"
  "mmio_length (a\<lparr>afu_error_handler := h\<rparr>) = mmio_length a" "mmio_length (a\<lparr>ppc64_amr := r\<rparr>) = mmio_length a"
  by (simp_all add: mmio_length_def fun_eq_iff cong: case_congs)

lemma mmio_granted:
  "wp (ocxl_mmio_map_advanced K ty sz prot flags off) (\<lambda>(rc, h) s'. rc = OCXL_OK \<longrightarrow>
     flags = 0 \<and> (ty = OCXL_PER_PASID_MMIO \<longrightarrow> attached (cur_afu s))) s"
  by (cases ty) (auto simp: ocxl_mmio_map_advanced_def mmio_map_def global_mmio_map_def wp_simps wp_call wp_True Let_def
      split: prod.splits)

lemma map_view:
  assumes "irq_laws K" "afu_inv (cur_afu s)" "unat (mmio_count (cur_afu s)) < table_limit"
  shows "wp (ocxl_mmio_map_advanced K (rq_type q) (rq_size q) (rq_prot q) (rq_flags q) (rq_offset q))
    (\<lambda>r. steps_view (ApiMap q) s (fst r)) s"
proof -
  let ?sz = "map_size (cur_afu s) (rq_type q) (rq_size q) (rq_offset q)"
  have pre: "mmio_pre (cur_afu s)" "mmap_nonnull K"
    using assms by (auto simp: mmio_pre_def afu_inv_def mmio_room_def table_limit_def irq_laws_def)
  have "steps_view (ApiMap q) s rc s'" if p: "map_post ?sz (rq_type q) s (rc, h) s'"
    and g: "rc = OCXL_OK \<longrightarrow> rq_flags q = 0 \<and> (rq_type q = OCXL_PER_PASID_MMIO \<longrightarrow> attached (cur_afu s))" for rc h s'
  proof (cases h)
    case None
    with p show ?thesis by (intro same_view) (auto simp: map_post_def Let_def)
  next
    case (Some bi)
    with p obtain addr where m: "no_mmios (cur_afu s') = no_mmios (cur_afu s)" "rc = OCXL_OK"
      "live_regions (cur_afu s) (snd bi) = None" "addr \<noteq> 0"
      "live_regions (cur_afu s') = (live_regions (cur_afu s))(snd bi \<mapsto> new_area (cur_afu s) addr ?sz (rq_type q))"
      by (cases bi) (auto simp: map_post_def Let_def)
    let ?w = "\<lparr>win_type = rq_type q, win_addr = addr, win_size =
      if rq_size q = 0 then mmio_length (cur_afu s) (rq_type q) - rq_offset q else rq_size q\<rparr>"
    have "map_option window_of \<circ> live_regions (cur_afu s') = (view_windows (view (cur_afu s)))(snd bi \<mapsto> ?w)"
      by (simp add: view_def m(5) window_of_def new_area_def map_size_def fun_eq_iff)
    moreover have "view_step (mmio_length (cur_afu s)) (ApiMap q) OCXL_OK (view (cur_afu s))
        ((view (cur_afu s))\<lparr>view_windows := (view_windows (view (cur_afu s)))(snd bi \<mapsto> ?w)\<rparr>)"
      by (rule map_window) (use m g in \<open>simp_all add: view_def\<close>)
    ultimately show ?thesis using view_mmios [OF m(1)] m(2) by (simp add: steps_view_def)
  qed
  then show ?thesis
    using map_advanced_spec [OF pre, of "rq_type q" "rq_size q" "rq_prot q" "rq_flags q" "rq_offset q"]
      mmio_granted [of K "rq_type q" "rq_size q" "rq_prot q" "rq_flags q" "rq_offset q" s]
    by (auto simp: wp_def split: prod.splits)
qed

lemma unmap_view:
  assumes "afu_inv (cur_afu s)" "mmio_deref (cur_afu s) h \<noteq> None" "snd h < unat (mmio_count (cur_afu s))"
  shows "wp (ocxl_mmio_unmap K h) (\<lambda>_. steps_view (ApiUnmap h) s OCXL_OK) s"
proof -
  obtain m where m: "mmio_deref (cur_afu s) h = Some m" using assms(2) by blast
  have ok: "mmio_ok (cur_afu s)" using assms(1) by (simp add: afu_inv_def)
  have "steps_view (ApiUnmap h) s OCXL_OK s'" if u: "unmap_post h m s s'" for s'
  proof -
    from u have "no_mmios (cur_afu s') = no_mmios (cur_afu s)"
      "live_regions (cur_afu s') = (live_regions (cur_afu s))(snd h := None)"
      by (simp_all add: unmap_post_def Let_def)
    moreover from this(2) have "map_option window_of \<circ> live_regions (cur_afu s') =
        (view_windows (view (cur_afu s)))(snd h := None)" by (simp add: view_def fun_eq_iff)
    ultimately show ?thesis
      using view_mmios [of "cur_afu s'" "cur_afu s"] unmap_window [of "mmio_length (cur_afu s)" h "view (cur_afu s)"]
      by (simp add: steps_view_def)
  qed
  then show ?thesis by (rule wp_mono [OF unmap_spec [OF ok m assms(3)]])
qed

lemma irq_view:
  assumes "irq_laws K" "afu_inv (cur_afu s)" "unat (irq_count (cur_afu s)) < table_limit"
  shows "wp (ocxl_irq_alloc K info) (\<lambda>r. steps_view (ApiIrqAlloc info) s (fst r)) s"
proof -
  have ok: "irq_ok (cur_afu s)" using assms(2) by (simp add: afu_inv_def)
  have "steps_view (ApiIrqAlloc info) s rc s'" if p: "irq_alloc_post info s (rc, h) s'" for rc h s'
  proof -
    from p have frame: "no_irqs (cur_afu s') = no_irqs (cur_afu s)" by (simp add: irq_alloc_post_def Let_def)
    show ?thesis
    proof (cases h)
      case None
      with p have same: "view_irqs (view (cur_afu s')) = view_irqs (view (cur_afu s))" "rc \<noteq> OCXL_OK"
        by (simp_all add: irq_alloc_post_def Let_def view_def)
      show ?thesis by (rule same_view) (use irqs_frame [OF frame] same in simp_all)
    next
      case (Some n)
      with p obtain q where q: "rc = OCXL_OK" "n = irq_count (cur_afu s)" "unat (irq_count (cur_afu s')) = Suc (unat (irq_count (cur_afu s)))"
        "live_irqs (cur_afu s') = (live_irqs (cur_afu s))(unat n \<mapsto> q)" "irq_info q = info"
        by (auto simp: irq_alloc_post_def Let_def)
      then have "view_irqs (view (cur_afu s')) = view_irqs (view (cur_afu s)) @ [info]" by (simp add: view_def)
      with irqs_frame [OF frame] new_irq [of "mmio_length (cur_afu s)" info "view (cur_afu s)"]
      show ?thesis by (simp add: steps_view_def q(1))
    qed
  qed
  then have "steps_view (ApiIrqAlloc info) s (fst r) s'" if "irq_alloc_post info s r s'" for r s'
    using that by (cases r) simp
  then show ?thesis
    using assms(3) by (intro wp_mono [OF irq_alloc_spec [OF assms(1) ok]]) (simp_all add: table_limit_def)
qed

lemma attach_view: "wp (ocxl_afu_attach K flags) (steps_view (ApiAttach flags) s) s"
proof -
  have "steps_view (ApiAttach flags) s OCXL_OK s'" if "cur_afu s' = (cur_afu s)\<lparr>attached := True\<rparr>" for s'
    using attach [of "mmio_length (cur_afu s)" flags "view (cur_afu s)"] that
    by (simp add: steps_view_def view_attached_upd)
  then show ?thesis
    by (auto simp: ocxl_afu_attach_def wp_simps wp_call split: prod.splits intro: same_view)
qed

lemma event_check_view:
  "wp (ocxl_afu_event_check_versioned K fuel timeout events count ver)
    (\<lambda>_. steps_view (ApiEventCheck fuel timeout events count ver) s OCXL_OK) s"
proof -
  let ?c = "ApiEventCheck fuel timeout events count ver"
  have res: "wp (epoll_reserve K count) (\<lambda>_. steps_view ?c s OCXL_OK) s1" if "cur_afu s1 = cur_afu s" for s1
    by (auto simp: epoll_reserve_def wp_simps wp_call that view_light mmio_length_def
        split: prod.splits option.splits intro!: same_view)
  have "steps_view ?c s OCXL_OK s2" if "steps_view ?c s OCXL_OK s1" "untouched s1 s2" for s1 s2
    using that by (simp add: steps_view_def untouched_def)
  then have rest: "wp m (\<lambda>_. steps_view ?c s OCXL_OK) s1" if "quiet m" "steps_view ?c s OCXL_OK s1" for m :: "('a, 'c) prog" and s1
    using that by (blast intro: wp_mono [OF quietD])
  show ?thesis
    unfolding ocxl_afu_event_check_versioned_def wp_bind wp_TRACE
    by (rule wp_mono [OF res]) (simp, erule rest [rotated], intro quiet_intros)
qed

lemma wp_fst: "wp (do { (rc, _) \<leftarrow> m; State_Monad.return rc }) Q s = wp m (\<lambda>r. Q (fst r)) s"
  by (simp add: wp_simps case_prod_unfold)

lemma api_view:
  assumes "irq_laws K" "afu_inv (cur_afu s)" "api_ok c (cur_afu s)"
  shows "wp (api_result K c) (steps_view c s) s"
proof (cases c)
  case (ApiMap q)
  with assms show ?thesis by (simp add: wp_fst api_ok_def map_view)
next
  case (ApiUnmap h)
  with assms show ?thesis by (simp add: wp_bind wp_return api_ok_def unmap_view)
next
  case (ApiIrqAlloc info)
  with assms show ?thesis by (simp add: wp_fst api_ok_def irq_view)
next
  case (ApiEventCheck fuel timeout events count ver)
  then show ?thesis by (simp add: wp_bind wp_return event_check_view)
next
  case (ApiAttach flags)
  then show ?thesis by (simp add: attach_view)
qed (auto simp: case_prod_unfold ocxl_afu_enable_messages_def ocxl_afu_set_error_message_handler_def
      ocxl_afu_set_ppc64_amr_def wp_simps intro!: quiet_view quiet_intros same_view)

section \<open>Sessions\<close>

text \<open>C3: the calls of the library on an open AFU refine the view an application has of it. Whatever
  the platform answers, a call that reports success changes the view in the way its documentation
  says, and a call that reports an error leaves it alone: a mapping adds one window under a handle
  that is not in use, of the type and size that were asked for, and needs an attached AFU for the
  per-PASID area; unmapping removes that window alone; an interrupt is added at the end; attaching is
  for good; every other call, the reading of events and registers included, leaves the view as it is.\<close>

theorem api_refines_view:
  assumes "irq_laws K" "api_reports K cs s s'" "afu_inv (cur_afu s)"
  shows "view_run (mmio_length (cur_afu s)) cs (view (cur_afu s)) (view (cur_afu s'))"
  using assms(2,3)
proof (induction rule: api_reports.induct)
  case (no_report s)
  then show ?case by (simp add: view_done)
next
  case (report c s rc s1 cs s')
  note inv = report.prems
  have "steps_view c s rc s1" using wpD [OF api_view [OF assms(1) inv report.hyps(1)] report.hyps(2)] .
  moreover have "wp (api_result K c) (\<lambda>_. kept s) s"
    using api_kept [OF assms(1) inv report.hyps(1)] by (simp add: api_result_prog)
  then have "kept s s1" using report.hyps(2) by (rule wpD)
  ultimately show ?case using report.IH by (auto simp: steps_view_def kept_def intro: view_next)
qed

definition demo_request :: map_request where
  "demo_request = \<lparr>rq_type = OCXL_PER_PASID_MMIO, rq_size = 0, rq_prot = 3, rq_flags = 0, rq_offset = 0\<rparr>"

theorem api_refines_view_witness:
  "\<exists>(s1 :: demo_w st) s2 rc rc'. api_reports demo_irq_platform [(ApiAttach 0, rc), (ApiMap demo_request, rc')] s1 s2 \<and>
     view_run (mmio_length (cur_afu s1)) [(ApiAttach 0, rc), (ApiMap demo_request, rc')]
       (view (cur_afu s1)) (view (cur_afu s2))"
proof -
  obtain s1 :: "demo_w st" where s1: "afu_inv (cur_afu s1)" "mmio_count (cur_afu s1) = 0"
    using demo_opened by blast
  obtain rc s where a: "run_state (api_result demo_irq_platform (ApiAttach 0)) s1 = (rc, s)" by force
  obtain rc' s2 where b: "run_state (api_result demo_irq_platform (ApiMap demo_request)) s = (rc', s2)" by force
  have "wp (api_result demo_irq_platform (ApiAttach 0)) (\<lambda>_ s. mmio_count (cur_afu s) = 0) s1"
    using s1(2) by (auto simp: ocxl_afu_attach_def wp_simps wp_call split: prod.splits)
  from wpD [OF this a] have "mmio_count (cur_afu s) = 0" .
  then have r: "api_reports demo_irq_platform [(ApiAttach 0, rc), (ApiMap demo_request, rc')] s1 s2"
    using a b by (intro report) (auto simp: api_ok_def table_limit_def intro: no_report)
  have "irq_laws demo_irq_platform" by (simp add: demo_irq_platform_def demo_irq_laws)
  from api_refines_view [OF this r s1(1)] r show ?thesis by blast
qed

end
