(* ===== verification/Ocxl_Steps.thy ===== *)
theory Ocxl_Steps
  imports Ocxl_Prelude
begin

text \<open>
  Contracts of step relations, shared by the threads of the library and the processes of the
  memcpy test: a forward simulation, whose runs are carried over to the abstract system, and
  a system that always moves on until it is final.
\<close>

section \<open>Forward simulation\<close>

locale simulation =
  fixes step :: "'c \<Rightarrow> 'c \<Rightarrow> bool"
    and astep :: "'a \<Rightarrow> 'a \<Rightarrow> bool"
    and R :: "'c \<Rightarrow> 'a \<Rightarrow> bool"
  assumes simulated: "R c a \<Longrightarrow> step c c' \<Longrightarrow> \<exists>a'. astep\<^sup>*\<^sup>* a a' \<and> R c' a'"
begin

lemma run_simulated:
  assumes "step\<^sup>*\<^sup>* c c'" "R c a"
  shows "\<exists>a'. astep\<^sup>*\<^sup>* a a' \<and> R c' a'"
  using assms
proof (induction rule: rtranclp_induct)
  case (step y z)
  then obtain b where "astep\<^sup>*\<^sup>* a b" "R y b" by blast
  moreover from simulated [OF this(2) step(2)] obtain b' where "astep\<^sup>*\<^sup>* b b'" "R z b'" by blast
  ultimately show ?case by (blast intro: rtranclp_trans)
qed blast

end

section \<open>Systems that come to an end\<close>

locale progressing =
  fixes step :: "'c \<Rightarrow> 'c \<Rightarrow> bool"
    and inv :: "'c \<Rightarrow> bool"
    and final :: "'c \<Rightarrow> bool"
    and work :: "'c \<Rightarrow> nat"
  assumes inv_step: "inv c \<Longrightarrow> step c c' \<Longrightarrow> inv c'"
    and work_step: "inv c \<Longrightarrow> step c c' \<Longrightarrow> work c' < work c"
    and not_stuck: "inv c \<Longrightarrow> \<not> final c \<Longrightarrow> \<exists>c'. step c c'"
begin

lemma run_inv: "step\<^sup>*\<^sup>* c c' \<Longrightarrow> inv c \<Longrightarrow> inv c'"
  by (induction rule: rtranclp_induct) (auto intro: inv_step)

lemma run_bounded: "(step ^^ n) c c' \<Longrightarrow> inv c \<Longrightarrow> inv c' \<and> n + work c' \<le> work c"
proof (induction n arbitrary: c')
  case (Suc n)
  then obtain d where "(step ^^ n) c d" "step d c'" by auto
  with Suc inv_step [of d c'] work_step [of d c'] show ?case by fastforce
qed simp

lemma reaches_final: "inv c \<Longrightarrow> \<exists>c'. step\<^sup>*\<^sup>* c c' \<and> final c'"
proof (induction "work c" arbitrary: c rule: less_induct)
  case less
  show ?case
  proof (cases "final c")
    case False
    with not_stuck less.prems obtain d where d: "step c d" by blast
    with less inv_step work_step obtain c' where "step\<^sup>*\<^sup>* d c'" "final c'" by meson
    with d show ?thesis by (blast intro: converse_rtranclp_into_rtranclp)
  qed blast
qed

end

end
