(* ===== verification/Ocxl_Threads.thy ===== *)
theory Ocxl_Threads
  imports Ocxl_Internal Ocxl_Steps Ocxl_Demo
begin

text \<open>
  The two mutexes of \<open>internal.c\<close>. The functions that take one are written out statement by
  statement, as code a thread runs; any number of threads run their calls in every interleaving
  of these statements. The other theories run each function in one piece: the simulation of this
  theory says that they may.

  A single \<open>fprintf\<close> is one statement: stdio locks the stream for the length of a call.
\<close>

section \<open>Code of a thread\<close>

datatype mutex = libocxl_inited_mutex | stderr_mutex

text \<open>A statement writes text to standard error, or assigns to the globals.\<close>

datatype stmt = Print string | Assign "globals \<Rightarrow> globals"

datatype code =
    Return
  | Lock mutex code
  | Unlock mutex code
  | Stmt stmt code
  | Branch "globals \<Rightarrow> bool" code code

primrec stmts :: "stmt list \<Rightarrow> code \<Rightarrow> code" where
  "stmts [] k = k"
| "stmts (a # as) k = Stmt a (stmts as k)"

section \<open>The functions\<close>

definition libocxl_init_stmts :: "'w platform \<Rightarrow> 'w \<Rightarrow> stmt list" where
  "libocxl_init_stmts K w =
     (if env_yes (os_getenv K ''LIBOCXL_INFO'' w) then [Print (libocxl_info K @ [CHR 0x0A])] else []) @
     (if env_yes (os_getenv K ''LIBOCXL_TRACE_ALL'' w)
      then [Assign (\<lambda>g. g\<lparr>tracing_all := True\<rparr>), Assign (\<lambda>g. g\<lparr>tracing := True\<rparr>)] else []) @
     (if env_yes (os_getenv K ''LIBOCXL_VERBOSE_ERRORS_ALL'' w)
      then [Assign (\<lambda>g. g\<lparr>verbose_errors_all := True\<rparr>), Assign (\<lambda>g. g\<lparr>verbose_errors := True\<rparr>)] else []) @
     (case os_getenv K ''LIBOCXL_SYSPATH'' w of
        None \<Rightarrow> [] | Some val \<Rightarrow> [Assign (\<lambda>g. g\<lparr>sys_path := Some val\<rparr>)]) @
     [Assign (\<lambda>g. g\<lparr>libocxl_inited := True\<rparr>)]"

definition libocxl_init_code :: "'w platform \<Rightarrow> 'w \<Rightarrow> code" where
  "libocxl_init_code K w =
     Lock libocxl_inited_mutex
       (Branch libocxl_inited
         (Unlock libocxl_inited_mutex Return)
         (stmts (libocxl_init_stmts K w) (Unlock libocxl_inited_mutex Return)))"

definition trace_message_stmts :: "string \<Rightarrow> string \<Rightarrow> nat \<Rightarrow> string \<Rightarrow> string \<Rightarrow> farg list \<Rightarrow> stmt list" where
  "trace_message_stmts label file line func fmt args =
     [Print (label @ '': '' @ file @ '':'' @ digits_of 10 line @ [CHR 0x09] @ func @ ''():'' @ [CHR 0x09, CHR 0x09]),
      Print (case c_format fmt args of None \<Rightarrow> '''' | Some t \<Rightarrow> t),
      Print [CHR 0x0A]]"

definition event_text :: "out_event \<Rightarrow> string" where
  "event_text e = (case e of Stderr t \<Rightarrow> t | _ \<Rightarrow> '''')"

text \<open>What a thread calls.\<close>

datatype lib_call =
    Call_init
  | Call_trace string string nat string string "farg list"
  | Call_error ocxl_err string
  | Call_afu_error ocxl_afu ocxl_err string

primrec call_stmts :: "'w platform \<Rightarrow> 'w \<Rightarrow> lib_call \<Rightarrow> stmt list" where
  "call_stmts K w Call_init = libocxl_init_stmts K w"
| "call_stmts K w (Call_trace label file line func fmt args) = trace_message_stmts label file line func fmt args"
| "call_stmts K w (Call_error err message) = [Print (event_text (ocxl_default_error_handler err message))]"
| "call_stmts K w (Call_afu_error a err message) =
     [Print (event_text (ocxl_default_afu_error_handler a err message))]"

primrec call_mutex :: "lib_call \<Rightarrow> mutex" where
  "call_mutex Call_init = libocxl_inited_mutex"
| "call_mutex (Call_trace label file line func fmt args) = stderr_mutex"
| "call_mutex (Call_error err message) = stderr_mutex"
| "call_mutex (Call_afu_error a err message) = stderr_mutex"

definition call_code :: "'w platform \<Rightarrow> 'w \<Rightarrow> lib_call \<Rightarrow> code" where
  "call_code K w c =
     (if c = Call_init then libocxl_init_code K w
      else Lock (call_mutex c) (stmts (call_stmts K w c) (Unlock (call_mutex c) Return)))"

section \<open>Threads\<close>

record shared =
  sh_glb :: globals
  sh_stderr :: string

record config =
  owner :: "mutex \<Rightarrow> nat option"
  shared :: shared
  threads :: "(code \<times> lib_call list) list" \<comment> \<open>the code a thread runs, and the calls it makes then\<close>

primrec run_stmt :: "stmt \<Rightarrow> shared \<Rightarrow> shared" where
  "run_stmt (Print t) s = s\<lparr>sh_stderr := sh_stderr s @ t\<rparr>"
| "run_stmt (Assign f) s = s\<lparr>sh_glb := f (sh_glb s)\<rparr>"

text \<open>One step of thread \<open>i\<close>. A thread that locks a mutex owned by a thread, itself included, waits.\<close>

inductive thread_step :: "'w platform \<Rightarrow> 'w \<Rightarrow> config \<Rightarrow> config \<Rightarrow> bool" for K w where
  enter: "i < length (threads C) \<Longrightarrow> threads C ! i = (Return, c # cs) \<Longrightarrow>
    thread_step K w C (C\<lparr>threads := (threads C)[i := (call_code K w c, cs)]\<rparr>)"
| acquire: "i < length (threads C) \<Longrightarrow> threads C ! i = (Lock m k, cs) \<Longrightarrow> owner C m = None \<Longrightarrow>
    thread_step K w C (C\<lparr>owner := (owner C)(m := Some i), threads := (threads C)[i := (k, cs)]\<rparr>)"
| release: "i < length (threads C) \<Longrightarrow> threads C ! i = (Unlock m k, cs) \<Longrightarrow>
    thread_step K w C (C\<lparr>owner := (owner C)(m := None), threads := (threads C)[i := (k, cs)]\<rparr>)"
| statement: "i < length (threads C) \<Longrightarrow> threads C ! i = (Stmt a k, cs) \<Longrightarrow>
    thread_step K w C (C\<lparr>shared := run_stmt a (shared C), threads := (threads C)[i := (k, cs)]\<rparr>)"
| branch: "i < length (threads C) \<Longrightarrow> threads C ! i = (Branch b k k', cs) \<Longrightarrow>
    thread_step K w C (C\<lparr>threads := (threads C)[i := (if b (sh_glb (shared C)) then k else k', cs)]\<rparr>)"

definition start :: "globals \<Rightarrow> lib_call list list \<Rightarrow> config" where
  "start g ps = \<lparr>owner = \<lambda>m. None, shared = \<lparr>sh_glb = g, sh_stderr = ''''\<rparr>, threads = map (Pair Return) ps\<rparr>"

definition all_returned :: "config \<Rightarrow> bool" where
  "all_returned C = list_all (\<lambda>t. t = (Return, [])) (threads C)"

section \<open>The calls in one piece\<close>

primrec exec_call :: "'w platform \<Rightarrow> lib_call \<Rightarrow> 'w st \<Rightarrow> 'w st" where
  "exec_call K Call_init s = snd (run_state (libocxl_init K) s)"
| "exec_call K (Call_trace label file line func fmt args) s = trace_message label file line func fmt args s"
| "exec_call K (Call_error err message) s = s\<lparr>outs := outs s @ [ocxl_default_error_handler err message]\<rparr>"
| "exec_call K (Call_afu_error a err message) s =
     s\<lparr>outs := outs s @ [ocxl_default_afu_error_handler a err message]\<rparr>"

inductive call_step :: "'w platform \<Rightarrow> 'w st \<times> lib_call list list \<Rightarrow> 'w st \<times> lib_call list list \<Rightarrow> bool" for K where
  "i < length ps \<Longrightarrow> ps ! i = c # cs \<Longrightarrow> call_step K (s, ps) (exec_call K c s, ps[i := cs])"

definition stderr_text :: "out_event list \<Rightarrow> string" where
  "stderr_text es = concat (map event_text es)"

text \<open>A trace has a format that fits its arguments, and its thread has initialised the library
  before, unless this was done already.\<close>

fun call_ok :: "lib_call \<Rightarrow> bool" where
  "call_ok (Call_trace label file line func fmt args) = (c_format fmt args \<noteq> None)"
| "call_ok c = True"

fun is_trace :: "lib_call \<Rightarrow> bool" where
  "is_trace (Call_trace label file line func fmt args) = True"
| "is_trace c = False"

primrec traces_inited :: "lib_call list \<Rightarrow> bool" where
  "traces_inited [] = True"
| "traces_inited (c # cs) = (c = Call_init \<or> \<not> is_trace c \<and> traces_inited cs)"

definition calls_ok :: "globals \<Rightarrow> lib_call list \<Rightarrow> bool" where
  "calls_ok g cs \<longleftrightarrow> list_all call_ok cs \<and> (libocxl_inited g \<or> traces_inited cs)"

section \<open>Where a thread is\<close>

text \<open>Outside the functions, waiting for the mutex of a call, testing \<open>libocxl_inited\<close>, holding
  the mutex with nothing done, or with the statements that are left.\<close>

datatype place = Outside | Waiting lib_call | Testing | Ready lib_call | Begun lib_call "stmt list"

primrec place_code :: "'w platform \<Rightarrow> 'w \<Rightarrow> place \<Rightarrow> code" where
  "place_code K w Outside = Return"
| "place_code K w (Waiting c) = call_code K w c"
| "place_code K w Testing = Branch libocxl_inited (Unlock libocxl_inited_mutex Return)
     (stmts (libocxl_init_stmts K w) (Unlock libocxl_inited_mutex Return))"
| "place_code K w (Ready c) = stmts (call_stmts K w c) (Unlock (call_mutex c) Return)"
| "place_code K w (Begun c as) = stmts as (Unlock (call_mutex c) Return)"

text \<open>The call a thread is in; the same, as long as it had no effect; the mutex held; the statements
  that are left of an effect that began.\<close>

primrec current_call :: "place \<Rightarrow> lib_call list" where
  "current_call Outside = []"
| "current_call (Waiting c) = [c]"
| "current_call Testing = [Call_init]"
| "current_call (Ready c) = [c]"
| "current_call (Begun c as) = [c]"

primrec unbegun :: "place \<Rightarrow> lib_call list" where
  "unbegun Outside = []"
| "unbegun (Waiting c) = [c]"
| "unbegun Testing = [Call_init]"
| "unbegun (Ready c) = [c]"
| "unbegun (Begun c as) = []"

primrec held :: "place \<Rightarrow> mutex option" where
  "held Outside = None"
| "held (Waiting c) = None"
| "held Testing = Some libocxl_inited_mutex"
| "held (Ready c) = Some (call_mutex c)"
| "held (Begun c as) = Some (call_mutex c)"

primrec pending :: "place \<Rightarrow> stmt list" where
  "pending Outside = []"
| "pending (Waiting c) = []"
| "pending Testing = []"
| "pending (Ready c) = []"
| "pending (Begun c as) = as"

primrec place_ok :: "'w platform \<Rightarrow> 'w \<Rightarrow> bool \<Rightarrow> place \<Rightarrow> bool" where
  "place_ok K w inited Outside = True"
| "place_ok K w inited (Waiting c) = True"
| "place_ok K w inited Testing = True"
| "place_ok K w inited (Ready c) = (c = Call_init \<longrightarrow> \<not> inited)"
| "place_ok K w inited (Begun c as) =
     ((c = Call_init \<longrightarrow> inited = (as = [])) \<and>
      (as = [] \<or> (\<exists>ds. ds \<noteq> [] \<and> call_stmts K w c = ds @ as)))"

lemma call_mutex_init [simp]: "call_mutex c = libocxl_inited_mutex \<longleftrightarrow> c = Call_init"
  by (cases c) auto

lemma call_mutex_stderr [simp]: "call_mutex c = stderr_mutex \<longleftrightarrow> c \<noteq> Call_init"
  by (cases c) auto

lemma call_mutex_if: "call_mutex c = (if c = Call_init then libocxl_inited_mutex else stderr_mutex)"
  by (cases c) auto

lemma call_stmts_nonempty [simp]: "call_stmts K w c \<noteq> []" "libocxl_init_stmts K w \<noteq> []"
  by (cases c) (auto simp: libocxl_init_stmts_def trace_message_stmts_def)

lemma call_code_Lock: "call_code K w c = Lock (call_mutex c) (place_code K w (if c = Call_init then Testing else Ready c))"
  by (auto simp: call_code_def libocxl_init_code_def)

lemma stmts_eq [simp]:
  "stmts as (Unlock m k) \<noteq> Return" "stmts as (Unlock m k) \<noteq> Lock m' k'" "stmts as (Unlock m k) \<noteq> Branch b k' k''"
  "stmts as (Unlock m k) = Unlock m' k' \<longleftrightarrow> as = [] \<and> m' = m \<and> k' = k"
  "stmts as (Unlock m k) = Stmt a k' \<longleftrightarrow> (\<exists>bs. as = a # bs \<and> k' = stmts bs (Unlock m k))"
  by (cases as; auto)+

lemma place_code_Return: "place_code K w l = Return \<longleftrightarrow> l = Outside"
  by (cases l) (auto simp: call_code_Lock)

lemma place_code_Lock:
  "place_code K w l = Lock m k \<longleftrightarrow> (\<exists>c. l = Waiting c \<and> m = call_mutex c \<and>
     k = place_code K w (if c = Call_init then Testing else Ready c))"
  by (cases l) (simp_all add: call_code_Lock del: place_code.simps(3,4), auto)

lemma place_code_Unlock:
  "place_code K w l = Unlock m k \<longleftrightarrow> (\<exists>c. l = Begun c [] \<and> m = call_mutex c \<and> k = Return)"
  by (cases l) (auto simp: call_code_Lock)

lemma place_code_Stmt:
  "place_code K w l = Stmt a k \<longleftrightarrow> (\<exists>c as. (l = Ready c \<and> call_stmts K w c = a # as \<or> l = Begun c (a # as)) \<and>
     k = place_code K w (Begun c as))"
  by (cases l) (auto simp: call_code_Lock)

lemma place_code_Branch:
  "place_code K w l = Branch b k k' \<longleftrightarrow> l = Testing \<and> b = libocxl_inited \<and>
     k = place_code K w (Begun Call_init []) \<and> k' = place_code K w (Ready Call_init)"
  by (cases l) (auto simp: call_code_Lock)

lemmas place_code_cases = place_code_Return place_code_Lock place_code_Unlock place_code_Stmt place_code_Branch

section \<open>Statements\<close>

primrec is_print :: "stmt \<Rightarrow> bool" where
  "is_print (Print t) = True"
| "is_print (Assign f) = False"

abbreviation run_stmts :: "stmt list \<Rightarrow> shared \<Rightarrow> shared" where
  "run_stmts \<equiv> fold run_stmt"

lemma run_stmt_commute: "\<not> is_print a \<Longrightarrow> is_print b \<Longrightarrow> run_stmt a (run_stmt b s) = run_stmt b (run_stmt a s)"
  by (cases a; cases b) auto

lemma run_stmts_commute1:
  "\<not> is_print a \<Longrightarrow> list_all is_print bs \<Longrightarrow> run_stmt a (run_stmts bs s) = run_stmts bs (run_stmt a s)"
  by (induction bs arbitrary: s) (auto simp: run_stmt_commute)

lemma run_stmts_commute:
  "list_all (Not \<circ> is_print) as \<Longrightarrow> list_all is_print bs \<Longrightarrow>
   run_stmts as (run_stmts bs s) = run_stmts bs (run_stmts as s)"
  by (induction as arbitrary: s) (auto simp: run_stmts_commute1)

text \<open>Only the first statement of the initialisation prints, and only the last sets the flag.\<close>

lemma init_stmts_tail: "libocxl_init_stmts K w = ds @ as \<Longrightarrow> ds \<noteq> [] \<Longrightarrow> list_all (Not \<circ> is_print) as"
proof -
  have "list_all (Not \<circ> is_print) (tl (libocxl_init_stmts K w))"
    by (auto simp: libocxl_init_stmts_def split: option.splits)
  then show "libocxl_init_stmts K w = ds @ as \<Longrightarrow> ds \<noteq> [] \<Longrightarrow> list_all (Not \<circ> is_print) as"
    by (cases ds) auto
qed

lemma message_stmts: "c \<noteq> Call_init \<Longrightarrow> list_all is_print (call_stmts K w c)"
  by (cases c) (auto simp: trace_message_stmts_def)

definition sets_flag :: "stmt \<Rightarrow> bool \<Rightarrow> bool" where
  "sets_flag a b \<longleftrightarrow> (\<forall>s. libocxl_inited (sh_glb (run_stmt a s)) = (b \<or> libocxl_inited (sh_glb s)))"

lemma init_stmts_flag: "libocxl_init_stmts K w = ds @ a # as \<Longrightarrow> sets_flag a (as = [])"
proof -
  have "list_all (\<lambda>a. sets_flag a False) (butlast (libocxl_init_stmts K w))"
    "sets_flag (last (libocxl_init_stmts K w)) True"
    by (auto simp: libocxl_init_stmts_def butlast_append sets_flag_def split: option.splits)
  then show "libocxl_init_stmts K w = ds @ a # as \<Longrightarrow> sets_flag a (as = [])"
    by (auto simp: butlast_append split: if_splits)
qed

lemma trace_started:
  "c \<noteq> Call_init \<Longrightarrow> call_stmts K w c = ds @ as \<Longrightarrow> ds \<noteq> [] \<Longrightarrow> as \<noteq> [] \<Longrightarrow> is_trace c"
  by (cases c) (auto simp: Cons_eq_append_conv)

lemma traces_inited_before: "traces_inited (pre @ c # cs) \<Longrightarrow> is_trace c \<Longrightarrow> Call_init \<in> set pre"
  by (induction pre) auto

definition abs_shared :: "'w st \<Rightarrow> shared" where
  "abs_shared s = \<lparr>sh_glb = glb s, sh_stderr = stderr_text (outs s)\<rparr>"

lemma libocxl_init_run:
  "\<not> libocxl_inited (glb s) \<Longrightarrow>
   abs_shared (snd (run_state (libocxl_init K) s)) = run_stmts (libocxl_init_stmts K (wld s)) (abs_shared s)"
  "libocxl_inited (glb s) \<Longrightarrow> snd (run_state (libocxl_init K) s) = s"
  "wld (snd (run_state (libocxl_init K) s)) = wld s"
  "libocxl_inited (glb (snd (run_state (libocxl_init K) s)))"
proof -
  have "wp (libocxl_init K) (\<lambda>_ s'. wld s' = wld s \<and> libocxl_inited (glb s') \<and> (if libocxl_inited (glb s) then s' = s
      else abs_shared s' = run_stmts (libocxl_init_stmts K (wld s)) (abs_shared s))) s"
    by (auto simp: libocxl_init_def libocxl_init_stmts_def wp_simps abs_shared_def stderr_text_def event_text_def)
  then show "\<not> libocxl_inited (glb s) \<Longrightarrow>
      abs_shared (snd (run_state (libocxl_init K) s)) = run_stmts (libocxl_init_stmts K (wld s)) (abs_shared s)"
    "libocxl_inited (glb s) \<Longrightarrow> snd (run_state (libocxl_init K) s) = s"
    "wld (snd (run_state (libocxl_init K) s)) = wld s"
    "libocxl_inited (glb (snd (run_state (libocxl_init K) s)))"
    by (auto simp: wp_def split: prod.splits)
qed

lemma exec_call_stmts:
  "call_ok c \<Longrightarrow> (c = Call_init \<Longrightarrow> \<not> libocxl_inited (glb s)) \<Longrightarrow>
   abs_shared (exec_call K c s) = run_stmts (call_stmts K (wld s) c) (abs_shared s)"
  by (cases "c = Call_init", simp add: libocxl_init_run, cases c)
    (auto simp: abs_shared_def stderr_text_def event_text_def trace_message_def
      trace_message_stmts_def ocxl_default_error_handler_def ocxl_default_afu_error_handler_def)

lemma exec_call_wld [simp]: "wld (exec_call K c s) = wld s"
  by (cases c) (auto simp: libocxl_init_run trace_message_def split: option.split)

section \<open>The simulation\<close>

definition inited :: "config \<Rightarrow> bool" where
  "inited C = libocxl_inited (sh_glb (shared C))"

text \<open>Thread \<open>i\<close> of program \<open>p\<close> is at place \<open>l\<close>, and has the calls \<open>q\<close> to execute in one piece.\<close>

definition thread_at ::
  "'w platform \<Rightarrow> 'w \<Rightarrow> config \<Rightarrow> nat \<Rightarrow> lib_call list \<Rightarrow> lib_call list \<Rightarrow> place \<Rightarrow> bool" where
  "thread_at K w C i p q l \<longleftrightarrow>
     fst (threads C ! i) = place_code K w l \<and> q = unbegun l @ snd (threads C ! i) \<and>
     (\<exists>pre. p = pre @ current_call l @ snd (threads C ! i) \<and> (Call_init \<in> set pre \<longrightarrow> inited C)) \<and>
     (\<forall>m. owner C m = Some i \<longleftrightarrow> held l = Some m) \<and> place_ok K w (inited C) l"

definition pending_of :: "config \<Rightarrow> place list \<Rightarrow> mutex \<Rightarrow> stmt list" where
  "pending_of C ls m = (case owner C m of None \<Rightarrow> [] | Some i \<Rightarrow> pending (ls ! i))"

definition places_ok ::
  "'w platform \<Rightarrow> 'w \<Rightarrow> globals \<Rightarrow> lib_call list list \<Rightarrow> config \<Rightarrow> lib_call list list \<Rightarrow> place list \<Rightarrow> bool" where
  "places_ok K w g ps C qs ls \<longleftrightarrow>
     length (threads C) = length ps \<and> length qs = length ps \<and> length ls = length ps \<and>
     (\<forall>m i. owner C m = Some i \<longrightarrow> i < length ps) \<and> (libocxl_inited g \<longrightarrow> inited C) \<and>
     (\<forall>i < length ps. thread_at K w C i (ps ! i) (qs ! i) (ls ! i))"

definition sim ::
  "'w platform \<Rightarrow> 'w \<Rightarrow> globals \<Rightarrow> lib_call list list \<Rightarrow> config \<Rightarrow> 'w st \<times> lib_call list list \<Rightarrow> bool" where
  "sim K w g ps C A \<longleftrightarrow> list_all (calls_ok g) ps \<and> wld (fst A) = w \<and>
     (\<exists>ls. places_ok K w g ps C (snd A) ls \<and>
       abs_shared (fst A) = run_stmts (pending_of C ls libocxl_inited_mutex)
         (run_stmts (pending_of C ls stderr_mutex) (shared C)))"

lemma place_ok_other:
  "place_ok K w b l \<Longrightarrow> held l \<noteq> Some libocxl_inited_mutex \<Longrightarrow> place_ok K w b' l"
  by (cases l) auto

text \<open>A step of thread \<open>i\<close> leaves the others where they are, and raises the flag at most when it
  holds the mutex of the flag.\<close>

definition moves :: "nat \<Rightarrow> config \<Rightarrow> config \<Rightarrow> bool" where
  "moves i C C' \<longleftrightarrow> (\<exists>t. threads C' = (threads C)[i := t]) \<and>
     (\<forall>j m. j \<noteq> i \<longrightarrow> (owner C' m = Some j \<longleftrightarrow> owner C m = Some j)) \<and>
     (inited C' = inited C \<or> inited C' \<and> owner C libocxl_inited_mutex = Some i)"

lemma thread_at_other:
  assumes at: "thread_at K w C j p q l" and m: "moves i C C'" and "j \<noteq> i"
  shows "thread_at K w C' j p q l"
proof -
  have t: "threads C' ! j = threads C ! j" and own: "\<And>m. owner C' m = Some j \<longleftrightarrow> owner C m = Some j"
    using m \<open>j \<noteq> i\<close> by (auto simp: moves_def)
  have "held l = Some libocxl_inited_mutex \<Longrightarrow> owner C libocxl_inited_mutex = Some j"
    using at by (simp add: thread_at_def)
  then have "inited C \<Longrightarrow> inited C'" and "inited C' = inited C \<or> held l \<noteq> Some libocxl_inited_mutex"
    using m \<open>j \<noteq> i\<close> by (auto simp: moves_def)
  then have "place_ok K w (inited C') l" "inited C \<Longrightarrow> inited C'"
    using at place_ok_other by (auto simp: thread_at_def)
  with at show ?thesis unfolding thread_at_def t own by blast
qed

lemma places_ok_move:
  assumes "places_ok K w g ps C qs ls" "moves i C C'" "i < length ps"
    and "thread_at K w C' i (ps ! i) q l"
  shows "places_ok K w g ps C' (qs[i := q]) (ls[i := l])"
proof -
  have "owner C' m = Some j \<Longrightarrow> j < length ps" for m j
    using assms(1-3) by (cases "j = i") (auto simp: places_ok_def moves_def)
  moreover have "libocxl_inited g \<Longrightarrow> inited C'"
    using assms(1,2) by (auto simp: places_ok_def moves_def)
  moreover have "thread_at K w C' j (ps ! j) (qs[i := q] ! j) (ls[i := l] ! j)" if "j < length ps" for j
    using assms that by (cases "j = i") (auto simp: places_ok_def intro: thread_at_other)
  ultimately show ?thesis using assms(1,2) by (auto simp: places_ok_def moves_def)
qed

lemma pending_of_move:
  assumes "places_ok K w g ps C qs ls" "moves i C C'" "i < length ps"
    and "thread_at K w C' i (ps ! i) q l"
  shows "pending_of C' (ls[i := l]) m =
    (if held l = Some m then pending l else if held (ls ! i) = Some m then [] else pending_of C ls m)"
proof -
  have i: "owner C m = Some i \<longleftrightarrow> held (ls ! i) = Some m" "owner C' m = Some i \<longleftrightarrow> held l = Some m"
    using assms by (auto simp: places_ok_def thread_at_def)
  have j: "j \<noteq> i \<Longrightarrow> owner C' m = Some j \<longleftrightarrow> owner C m = Some j" for j
    using assms(2) by (auto simp: moves_def)
  have len: "length ls = length ps" using assms(1) by (simp add: places_ok_def)
  show ?thesis
  proof (cases "owner C' m")
    case None
    with i j show ?thesis by (cases "owner C m") (auto simp: pending_of_def)
  next
    case (Some k)
    with i j [of k] len assms(3) show ?thesis by (cases "k = i") (auto simp: pending_of_def)
  qed
qed

lemma init_pending:
  assumes "places_ok K w g ps C qs ls"
  shows "list_all (Not \<circ> is_print) (pending_of C ls libocxl_inited_mutex)"
proof (cases "owner C libocxl_inited_mutex")
  case (Some i)
  with assms have "thread_at K w C i (ps ! i) (qs ! i) (ls ! i)" by (auto simp: places_ok_def)
  with Some have "held (ls ! i) = Some libocxl_inited_mutex" "place_ok K w (inited C) (ls ! i)"
    by (auto simp: thread_at_def)
  with Some show ?thesis
    by (cases "ls ! i") (auto simp: pending_of_def dest: init_stmts_tail)
qed (simp add: pending_of_def)

lemma stderr_pending:
  assumes "places_ok K w g ps C qs ls" "list_all (calls_ok g) ps"
  shows "list_all is_print (pending_of C ls stderr_mutex)"
    and "\<not> inited C \<Longrightarrow> pending_of C ls stderr_mutex = []"
proof -
  have "list_all is_print (pending_of C ls stderr_mutex) \<and> (\<not> inited C \<longrightarrow> pending_of C ls stderr_mutex = [])"
  proof (cases "owner C stderr_mutex")
    case (Some i)
    with assms have i: "i < length ps" and at: "thread_at K w C i (ps ! i) (qs ! i) (ls ! i)"
      by (auto simp: places_ok_def)
    show ?thesis
    proof (cases "ls ! i")
      case (Begun c as)
      with at Some obtain pre where c: "c \<noteq> Call_init" "place_ok K w (inited C) (Begun c as)"
        and p: "ps ! i = pre @ c # snd (threads C ! i)" "Call_init \<in> set pre \<longrightarrow> inited C"
        by (auto simp: thread_at_def)
      from assms(2) i have "calls_ok g (ps ! i)" by (simp add: list_all_length)
      with p assms(1) have "is_trace c \<Longrightarrow> inited C"
        using traces_inited_before [of pre c] by (auto simp: calls_ok_def places_ok_def)
      moreover have "as \<noteq> [] \<Longrightarrow> is_trace c" using c trace_started by fastforce
      moreover have "list_all is_print as" using c message_stmts [OF c(1), of K w] by auto
      ultimately show ?thesis using Some Begun by (auto simp: pending_of_def)
    qed (use Some in \<open>auto simp: pending_of_def\<close>)
  qed (simp add: pending_of_def)
  then show "list_all is_print (pending_of C ls stderr_mutex)"
    and "\<not> inited C \<Longrightarrow> pending_of C ls stderr_mutex = []" by auto
qed

lemma held_owner:
  "places_ok K w g ps C qs ls \<Longrightarrow> i < length ps \<Longrightarrow> owner C m = Some i \<longleftrightarrow> held (ls ! i) = Some m"
  by (simp add: places_ok_def thread_at_def)

lemma thread_place: "places_ok K w g ps C qs ls \<Longrightarrow> i < length ps \<Longrightarrow> thread_at K w C i (ps ! i) (qs ! i) (ls ! i)"
  by (simp add: places_ok_def)

text \<open>A mutex whose holder moves is free, or the mover's, before.\<close>

lemma pending_mover:
  assumes ok: "places_ok K w g ps C qs ls" and i: "i < length ps" and "moves i C C'"
    and "thread_at K w C' i p q l" and "held l = Some m \<or> held (ls ! i) = Some m"
  shows "pending_of C ls m = (if held (ls ! i) = Some m then pending (ls ! i) else [])"
proof (cases "owner C m")
  case (Some j)
  have "owner C' m = Some i \<or> owner C m = Some i" using assms(4,5) held_owner [OF ok i] by (auto simp: thread_at_def)
  moreover have "j \<noteq> i \<Longrightarrow> owner C' m = Some j" using Some assms(3) by (auto simp: moves_def)
  ultimately have "j = i" using Some by (cases "j = i") auto
  with Some show ?thesis using held_owner [OF ok i, of m] by (simp add: pending_of_def)
qed (use held_owner [OF ok i, of m] in \<open>auto simp: pending_of_def\<close>)

text \<open>The state of the calls in one piece: what is pending, done.\<close>

definition abs_of :: "config \<Rightarrow> place list \<Rightarrow> shared" where
  "abs_of C ls = run_stmts (pending_of C ls libocxl_inited_mutex)
     (run_stmts (pending_of C ls stderr_mutex) (shared C))"

lemma sim_placeE:
  assumes "sim K w g ps C (s, qs)" "i < length (threads C)" "threads C ! i = (k, cs)"
  obtains ls pre where "places_ok K w g ps C qs ls" "abs_shared s = abs_of C ls"
    "list_all (calls_ok g) ps" "wld s = w" "i < length ps"
    "place_code K w (ls ! i) = k" "qs ! i = unbegun (ls ! i) @ cs" "i < length qs" "i < length ls"
    "ps ! i = pre @ current_call (ls ! i) @ cs" "Call_init \<in> set pre \<longrightarrow> inited C"
    "\<And>m. owner C m = Some i \<longleftrightarrow> held (ls ! i) = Some m" "place_ok K w (inited C) (ls ! i)"
proof -
  from assms(1) obtain ls where ls: "places_ok K w g ps C qs ls"
    and "abs_shared s = abs_of C ls" "list_all (calls_ok g) ps" "wld s = w" by (auto simp: sim_def abs_of_def)
  moreover from ls assms(2) have "i < length ps" "i < length qs" "i < length ls" by (auto simp: places_ok_def)
  moreover from ls this(1) have "thread_at K w C i (ps ! i) (qs ! i) (ls ! i)" by (simp add: places_ok_def)
  ultimately show thesis using that [of ls] assms(3) by (auto simp: thread_at_def)
qed

lemma simI:
  assumes "places_ok K w g ps C qs ls" "list_all (calls_ok g) ps" "wld s' = w"
    and "moves i C C'" "i < length ps" "thread_at K w C' i (ps ! i) q l"
    and "abs_shared s' = abs_of C' (ls[i := l])"
  shows "sim K w g ps C' (s', qs[i := q])"
  using places_ok_move [OF assms(1,4-6)] assms by (auto simp: sim_def abs_of_def)

lemma sim_silent:
  assumes ok: "places_ok K w g ps C qs ls" and "list_all (calls_ok g) ps" "wld s = w"
    and "abs_shared s = abs_of C ls"
    and i: "i < length ps" and m: "moves i C C'" and at: "thread_at K w C' i (ps ! i) (qs ! i) l"
    and "shared C' = shared C" "pending (ls ! i) = []" "pending l = []"
  shows "sim K w g ps C' (s, qs)"
proof -
  have "pending_of C' (ls[i := l]) m = pending_of C ls m" for m
    unfolding pending_of_move [OF ok m i at] using pending_mover [OF ok i m at] assms(9,10) by auto
  then have "abs_shared s = abs_of C' (ls[i := l])" using assms(4,8) by (simp add: abs_of_def)
  from simI [OF ok assms(2,3) m i at this] show ?thesis by simp
qed

lemma moves_simps [simp]:
  "inited (C\<lparr>threads := ts\<rparr>) = inited C" "inited (C\<lparr>owner := ow\<rparr>) = inited C"
  "inited (C\<lparr>owner := ow, threads := ts\<rparr>) = inited C"
  "inited (C\<lparr>shared := s, threads := ts\<rparr>) = libocxl_inited (sh_glb s)"
  by (simp_all add: inited_def)

lemma sim_enter:
  assumes S: "sim K w g ps C (s, qs)" and i: "i < length (threads C)" and t: "threads C ! i = (Return, c # cs)"
  shows "sim K w g ps (C\<lparr>threads := (threads C)[i := (call_code K w c, cs)]\<rparr>) (s, qs)"
proof (rule sim_placeE [OF S i t], goal_cases)
  case (1 ls pre)
  then have "ls ! i = Outside" by (simp add: place_code_cases)
  with 1 i show ?case
    by (intro sim_silent [OF 1(1,3,4,2,5), of _ "Waiting c"]) (auto simp: moves_def thread_at_def)
qed

lemma sim_acquire:
  assumes S: "sim K w g ps C (s, qs)" and i: "i < length (threads C)" and t: "threads C ! i = (Lock m k, cs)"
    and "owner C m = None"
  shows "sim K w g ps (C\<lparr>owner := (owner C)(m := Some i), threads := (threads C)[i := (k, cs)]\<rparr>) (s, qs)"
proof (rule sim_placeE [OF S i t], goal_cases)
  case (1 ls pre)
  then obtain c where "ls ! i = Waiting c" "m = call_mutex c"
    "k = place_code K w (if c = Call_init then Testing else Ready c)" by (auto simp: place_code_cases)
  with 1 i \<open>owner C m = None\<close> show ?case
    by (intro sim_silent [OF 1(1,3,4,2,5), of _ "if c = Call_init then Testing else Ready c"])
      (auto simp: moves_def thread_at_def)
qed

lemma sim_release:
  assumes S: "sim K w g ps C (s, qs)" and i: "i < length (threads C)" and t: "threads C ! i = (Unlock m k, cs)"
  shows "sim K w g ps (C\<lparr>owner := (owner C)(m := None), threads := (threads C)[i := (k, cs)]\<rparr>) (s, qs)"
proof (rule sim_placeE [OF S i t], goal_cases)
  case (1 ls pre)
  then obtain c where l: "ls ! i = Begun c []" "m = call_mutex c" "k = Return" by (auto simp: place_code_cases)
  with 1(12) have "owner C m = Some i" by simp
  then have "moves i C (C\<lparr>owner := (owner C)(m := None), threads := (threads C)[i := (k, cs)]\<rparr>)"
    by (auto simp: moves_def)
  then show ?case
    by (rule sim_silent [OF 1(1,3,4,2,5), of _ Outside]) (use 1 i l in \<open>auto simp: thread_at_def\<close>)
qed

lemma run_stmts_glb: "list_all is_print as \<Longrightarrow> sh_glb (run_stmts as s) = sh_glb s"
proof (induction as arbitrary: s)
  case (Cons a as)
  then show ?case by (cases a) auto
qed simp

lemma abs_of_inited:
  assumes "places_ok K w g ps C qs ls" "list_all (calls_ok g) ps" "pending_of C ls libocxl_inited_mutex = []"
  shows "libocxl_inited (sh_glb (abs_of C ls)) = inited C"
  using run_stmts_glb [OF stderr_pending(1) [OF assms(1,2)]] assms(3) by (simp add: abs_of_def inited_def)

lemma pending_held:
  "places_ok K w g ps C qs ls \<Longrightarrow> i < length ps \<Longrightarrow> held (ls ! i) = Some m \<Longrightarrow> pending_of C ls m = pending (ls ! i)"
  by (simp add: pending_of_def held_owner [symmetric])

lemma call_stepI: "i < length qs \<Longrightarrow> qs ! i = c # cs \<Longrightarrow> (call_step K)\<^sup>*\<^sup>* (s, qs) (exec_call K c s, qs[i := cs])"
  by (intro r_into_rtranclp call_step.intros)

lemma sim_branch:
  assumes S: "sim K w g ps C (s, qs)" and i: "i < length (threads C)" and t: "threads C ! i = (Branch b k k', cs)"
  shows "\<exists>A. (call_step K)\<^sup>*\<^sup>* (s, qs) A \<and>
    sim K w g ps (C\<lparr>threads := (threads C)[i := (if b (sh_glb (shared C)) then k else k', cs)]\<rparr>) A"
proof (rule sim_placeE [OF S i t], goal_cases)
  case (1 ls pre)
  then have l: "ls ! i = Testing" "b = libocxl_inited" "k = place_code K w (Begun Call_init [])"
    "k' = place_code K w (Ready Call_init)" by (auto simp: place_code_cases)
  let ?C = "C\<lparr>threads := (threads C)[i := (if b (sh_glb (shared C)) then k else k', cs)]\<rparr>"
  let ?l = "if inited C then Begun Call_init [] else Ready Call_init"
  have mv: "moves i C ?C" by (auto simp: moves_def)
  have at: "thread_at K w ?C i (ps ! i) (if inited C then cs else qs ! i) ?l"
    using 1 i l by (auto simp: thread_at_def inited_def)
  show ?case
  proof (cases "inited C")
    case False
    then have "sim K w g ps ?C (s, qs)" using at l by (intro sim_silent [OF 1(1,3,4,2,5) mv, of ?l]) auto
    then show ?thesis by blast
  next
    case True
    have "pending_of C ls libocxl_inited_mutex = []" using pending_held [OF 1(1,5)] l by simp
    with abs_of_inited [OF 1(1,3)] 1(2) True have "libocxl_inited (glb s)" by (simp add: abs_shared_def flip: 1(2))
    then have s: "exec_call K Call_init s = s" by (simp add: libocxl_init_run)
    have "pending_of ?C (ls[i := ?l]) m = pending_of C ls m" for m
      unfolding pending_of_move [OF 1(1) mv 1(5) at] using pending_mover [OF 1(1,5) mv at] l True by auto
    then have "abs_shared s = abs_of ?C (ls[i := ?l])" using 1(2) by (simp add: abs_of_def)
    from simI [OF 1(1,3,4) mv 1(5) at this] True have "sim K w g ps ?C (s, qs[i := cs])" by simp
    moreover have "(call_step K)\<^sup>*\<^sup>* (s, qs) (s, qs[i := cs])"
      using call_stepI [of i qs Call_init cs K s] 1 l s by simp
    ultimately show ?thesis by blast
  qed
qed


text \<open>A statement in the middle of a call.\<close>

lemma sim_continue:
  assumes S: "places_ok K w g ps C qs ls" "list_all (calls_ok g) ps" "wld s = w" "abs_shared s = abs_of C ls"
    and i: "i < length ps" "i < length (threads C)" and l: "ls ! i = Begun c (a # as)"
    and t: "threads C ! i = (place_code K w (ls ! i), cs)"
  shows "sim K w g ps (C\<lparr>shared := run_stmt a (shared C),
    threads := (threads C)[i := (place_code K w (Begun c as), cs)]\<rparr>) (s, qs)"
proof -
  let ?C = "C\<lparr>shared := run_stmt a (shared C), threads := (threads C)[i := (place_code K w (Begun c as), cs)]\<rparr>"
  from thread_place [OF S(1) i(1)] l t obtain pre where at:
    "qs ! i = cs" "ps ! i = pre @ c # cs" "Call_init \<in> set pre \<longrightarrow> inited C"
    "\<And>m. owner C m = Some i \<longleftrightarrow> call_mutex c = m" "place_ok K w (inited C) (Begun c (a # as))"
    by (auto simp: thread_at_def)
  then obtain ds where ds: "ds \<noteq> []" "call_stmts K w c = ds @ a # as" by auto
  have flag: "inited ?C = (if c = Call_init then as = [] else inited C)"
    and kind: "is_print a = (c \<noteq> Call_init)"
    using at(5) ds init_stmts_flag [of K w ds a as] init_stmts_tail [of K w ds "a # as"] message_stmts [of c K w]
    by (cases a; auto simp: sets_flag_def inited_def)+
  then have mv: "moves i C ?C" using at(4,5) by (auto simp: moves_def)
  have at': "thread_at K w ?C i (ps ! i) (qs ! i) (Begun c as)"
    using at i ds flag by (auto simp: thread_at_def intro: exI [of _ "ds @ [a]"])
  have "run_stmt a (run_stmts (pending_of C ls stderr_mutex) (shared C)) =
      run_stmts (pending_of C ls stderr_mutex) (run_stmt a (shared C))" if "c = Call_init"
    using that kind stderr_pending(1) [OF S(1,2)] by (simp add: run_stmts_commute1)
  then have "abs_of C ls = abs_of ?C (ls[i := Begun c as])"
    using pending_held [OF S(1) i(1)] l unfolding abs_of_def pending_of_move [OF S(1) mv i(1) at']
    by (cases "c = Call_init") (auto simp: call_mutex_if)
  with simI [OF S(1-3) mv i(1) at'] S(4) show ?thesis by simp
qed

text \<open>The first statement of a call: the call is executed in one piece.\<close>

lemma sim_begin:
  assumes S: "places_ok K w g ps C qs ls" "list_all (calls_ok g) ps" "wld s = w" "abs_shared s = abs_of C ls"
    and i: "i < length ps" "i < length (threads C)" and l: "ls ! i = Ready c" "call_stmts K w c = a # as"
    and t: "threads C ! i = (place_code K w (ls ! i), cs)"
  shows "sim K w g ps (C\<lparr>shared := run_stmt a (shared C),
    threads := (threads C)[i := (place_code K w (Begun c as), cs)]\<rparr>) (exec_call K c s, qs[i := cs])"
proof -
  let ?C = "C\<lparr>shared := run_stmt a (shared C), threads := (threads C)[i := (place_code K w (Begun c as), cs)]\<rparr>"
  from thread_place [OF S(1) i(1)] l t obtain pre where at:
    "ps ! i = pre @ c # cs" "Call_init \<in> set pre \<longrightarrow> inited C"
    "\<And>m. owner C m = Some i \<longleftrightarrow> call_mutex c = m" "c = Call_init \<longrightarrow> \<not> inited C"
    by (auto simp: thread_at_def)
  have flag: "inited ?C = (if c = Call_init then as = [] else inited C)"
    using at(4) l(2) init_stmts_flag [of K w "[]" a as] message_stmts [of c K w]
    by (cases a; auto simp: sets_flag_def inited_def)
  then have mv: "moves i C ?C" using at(3,4) by (auto simp: moves_def)
  have at': "thread_at K w ?C i (ps ! i) cs (Begun c as)"
    using at i l flag by (auto simp: thread_at_def intro: exI [of _ "[a]"])
  have own: "pending_of C ls (call_mutex c) = []" using pending_held [OF S(1) i(1)] l by simp
  have "calls_ok g (ps ! i)" using S(2) i(1) by (simp add: list_all_length)
  then have "call_ok c" using at(1) by (simp add: calls_ok_def)
  moreover have "c = Call_init \<Longrightarrow> \<not> libocxl_inited (glb s)"
    using own at(4) abs_of_inited [OF S(1,2)] by (simp add: abs_shared_def flip: S(4))
  ultimately have exec: "abs_shared (exec_call K c s) = run_stmts (a # as) (abs_of C ls)"
    using exec_call_stmts [of c s K] S(3,4) l(2) by simp
  also have "\<dots> = abs_of ?C (ls[i := Begun c as])"
  proof (cases "c = Call_init")
    case True
    then have "pending_of C ls stderr_mutex = []" using stderr_pending(2) [OF S(1,2)] at(4) by simp
    with True own l show ?thesis unfolding abs_of_def pending_of_move [OF S(1) mv i(1) at'] by simp
  next
    case False
    then have "run_stmts (pending_of C ls libocxl_inited_mutex) (run_stmts (a # as) (shared C)) =
        run_stmts (a # as) (run_stmts (pending_of C ls libocxl_inited_mutex) (shared C))"
      using message_stmts [of c K w] l(2) init_pending [OF S(1)] by (intro run_stmts_commute) auto
    with False own l show ?thesis unfolding abs_of_def pending_of_move [OF S(1) mv i(1) at']
      by (simp add: call_mutex_if)
  qed
  finally show ?thesis using simI [OF S(1,2) _ mv i(1) at', of "exec_call K c s"] S(3) by simp
qed

lemma sim_statement:
  assumes S: "sim K w g ps C (s, qs)" and i: "i < length (threads C)" and t: "threads C ! i = (Stmt a k, cs)"
  shows "\<exists>A. (call_step K)\<^sup>*\<^sup>* (s, qs) A \<and>
    sim K w g ps (C\<lparr>shared := run_stmt a (shared C), threads := (threads C)[i := (k, cs)]\<rparr>) A"
proof (rule sim_placeE [OF S i t], goal_cases)
  case (1 ls pre)
  then obtain c as where k: "k = place_code K w (Begun c as)"
    and "ls ! i = Ready c \<and> call_stmts K w c = a # as \<or> ls ! i = Begun c (a # as)" by (auto simp: place_code_cases)
  from this(2) show ?case
  proof (elim disjE conjE)
    assume l: "ls ! i = Ready c" "call_stmts K w c = a # as"
    with sim_begin [OF 1(1,3,4,2,5) i this] 1(6) t k
    have "sim K w g ps (C\<lparr>shared := run_stmt a (shared C), threads := (threads C)[i := (k, cs)]\<rparr>)
      (exec_call K c s, qs[i := cs])" by simp
    then show ?thesis using call_stepI [of i qs c cs K s] 1(7,8) l by auto
  next
    assume "ls ! i = Begun c (a # as)"
    with sim_continue [OF 1(1,3,4,2,5) i this] 1(6) t k show ?thesis by auto
  qed
qed


lemma sim_step:
  assumes "sim K w g ps C A" "thread_step K w C C'"
  shows "\<exists>A'. (call_step K)\<^sup>*\<^sup>* A A' \<and> sim K w g ps C' A'"
proof (cases A)
  case (Pair s qs)
  from assms(2) assms(1) [unfolded Pair] show ?thesis
    unfolding Pair by cases (blast intro: sim_enter sim_acquire sim_release sim_statement sim_branch)+
qed

interpretation thread_sim: simulation "thread_step K w" "call_step K" "sim K w g ps" for K w g ps
  by unfold_locales (rule sim_step)

lemma sim_start:
  assumes "list_all (calls_ok (glb s)) ps" "outs s = []"
  shows "sim K (wld s) (glb s) ps (start (glb s) ps) (s, ps)"
proof -
  have "places_ok K (wld s) (glb s) ps (start (glb s) ps) ps (replicate (length ps) Outside)"
    by (auto simp: places_ok_def thread_at_def start_def inited_def)
  moreover have "abs_shared s = shared (start (glb s) ps)"
    using assms(2) by (simp add: abs_shared_def start_def stderr_text_def)
  ultimately show ?thesis using assms(1) by (auto simp: sim_def pending_of_def start_def)
qed

lemma sim_returned:
  assumes "sim K w g ps C (s, qs)" "all_returned C"
  shows "qs = map (\<lambda>p. []) ps" "abs_shared s = shared C"
proof -
  from assms(1) obtain ls where ls: "places_ok K w g ps C qs ls" "abs_shared s = abs_of C ls"
    by (auto simp: sim_def abs_of_def)
  have t: "i < length ps \<Longrightarrow> threads C ! i = (Return, [])" for i
    using assms(2) ls(1) by (auto simp: all_returned_def list_all_length places_ok_def)
  have out: "i < length ps \<Longrightarrow> ls ! i = Outside" for i
    using thread_place [OF ls(1), of i] t [of i] place_code_Return [of K w "ls ! i"] by (auto simp: thread_at_def)
  show "qs = map (\<lambda>p. []) ps"
    using ls(1) thread_place [OF ls(1)] t out by (intro nth_equalityI) (auto simp: places_ok_def thread_at_def)
  have "owner C m = None" for m
  proof (cases "owner C m")
    case (Some i)
    then have "i < length ps" using ls(1) by (simp add: places_ok_def)
    with Some held_owner [OF ls(1) this, of m] out show ?thesis by simp
  qed
  with ls(2) show "abs_shared s = shared C" by (simp add: abs_of_def pending_of_def)
qed

lemma inited_settled:
  assumes ok: "places_ok K w g ps C qs ls" and "list_all (calls_ok g) ps" "inited C"
  shows "sh_glb (abs_of C ls) = sh_glb (shared C)"
proof -
  have "pending_of C ls libocxl_inited_mutex = []"
  proof (cases "owner C libocxl_inited_mutex")
    case (Some i)
    with ok have "thread_at K w C i (ps ! i) (qs ! i) (ls ! i)" by (auto simp: places_ok_def)
    with Some have "held (ls ! i) = Some libocxl_inited_mutex" "place_ok K w (inited C) (ls ! i)"
      by (auto simp: thread_at_def)
    with Some assms(3) show ?thesis by (cases "ls ! i") (auto simp: pending_of_def)
  qed (simp add: pending_of_def)
  then show ?thesis using run_stmts_glb [OF stderr_pending(1) [OF assms(1,2)]] by (simp add: abs_of_def)
qed

lemma exec_call_glb:
  "glb (exec_call K c s) = (if c = Call_init then glb (exec_call K Call_init s) else glb s)"
  by (cases c) (simp_all add: trace_message_def split: option.split del: exec_call.simps(1))

lemma run_stmts_glb_cong: "sh_glb s = sh_glb s' \<Longrightarrow> sh_glb (run_stmts as s) = sh_glb (run_stmts as s')"
proof (induction as arbitrary: s s')
  case (Cons a as)
  have "sh_glb (run_stmt a s) = sh_glb (run_stmt a s')" using Cons.prems by (cases a) simp_all
  from Cons.IH [OF this] show ?case by simp
qed simp

lemma init_glb_cong:
  assumes "glb s = glb s'" "wld s = wld s'"
  shows "glb (exec_call K Call_init s) = glb (exec_call K Call_init s')"
proof (cases "libocxl_inited (glb s)")
  case False
  then have "sh_glb (abs_shared (exec_call K Call_init s)) = sh_glb (abs_shared (exec_call K Call_init s'))"
    using assms run_stmts_glb_cong [of "abs_shared s" "abs_shared s'"] by (simp add: libocxl_init_run) (simp add: abs_shared_def)
  then show ?thesis by (simp add: abs_shared_def)
qed (use assms in \<open>simp add: libocxl_init_run\<close>)

lemma call_run_glb:
  assumes "(call_step K)\<^sup>*\<^sup>* (s, ps) (s', qs)"
  shows "wld s' = wld s \<and> (glb s' = glb s \<or> glb s' = glb (exec_call K Call_init s))"
  using assms
proof (induction "(s', qs)" arbitrary: s' qs rule: rtranclp_induct)
  case (step A)
  obtain s1 q1 where A: "A = (s1, q1)" by force
  with step(2) obtain c where s': "s' = exec_call K c s1" by (auto elim: call_step.cases)
  have "libocxl_inited (glb s1) \<Longrightarrow> glb (exec_call K c s1) = glb s1"
    by (cases "c = Call_init") (auto simp: libocxl_init_run exec_call_glb [of K c])
  moreover have "libocxl_inited (glb (exec_call K Call_init s))" by (simp add: libocxl_init_run)
  ultimately show ?case
    using step(3) [OF A] exec_call_glb [of K c s1] init_glb_cong [of s1 s K] s' by (auto split: if_splits)
qed simp

section \<open>Every run ends\<close>

primrec code_steps :: "code \<Rightarrow> nat" where
  "code_steps Return = 0"
| "code_steps (Lock m k) = Suc (code_steps k)"
| "code_steps (Unlock m k) = Suc (code_steps k)"
| "code_steps (Stmt a k) = Suc (code_steps k)"
| "code_steps (Branch b k k') = Suc (max (code_steps k) (code_steps k'))"

definition thread_work :: "'w platform \<Rightarrow> 'w \<Rightarrow> code \<times> lib_call list \<Rightarrow> nat" where
  "thread_work K w t = code_steps (fst t) + sum_list (map (\<lambda>c. Suc (code_steps (call_code K w c))) (snd t))"

definition work_left :: "'w platform \<Rightarrow> 'w \<Rightarrow> config \<Rightarrow> nat" where
  "work_left K w C = sum_list (map (thread_work K w) (threads C))"

lemma sum_list_update_less:
  "i < length xs \<Longrightarrow> f y < f (xs ! i) \<Longrightarrow> sum_list (map f (xs[i := y])) < sum_list (map (f :: 'a \<Rightarrow> nat) xs)"
proof (induction xs arbitrary: i)
  case (Cons x xs)
  then show ?case by (cases i) auto
qed simp

lemma thread_work_step: "thread_step K w C C' \<Longrightarrow> work_left K w C' < work_left K w C"
  by (induction rule: thread_step.induct)
    (auto simp: work_left_def thread_work_def intro!: sum_list_update_less)

lemma holder_runs:
  assumes ok: "places_ok K w g ps C qs ls" and own: "owner C m = Some i"
  shows "\<exists>C'. thread_step K w C C'"
proof -
  have i: "i < length ps" "i < length (threads C)" using assms by (auto simp: places_ok_def)
  obtain k cs where t: "threads C ! i = (k, cs)" by force
  with thread_place [OF ok i(1)] own have k: "k = place_code K w (ls ! i)" "held (ls ! i) = Some m"
    by (auto simp: thread_at_def)
  have run: "stmts as (Unlock m' Return) = k \<Longrightarrow> \<exists>C'. thread_step K w C C'" for as m'
    using t i(2) by (cases as) (auto intro: thread_step.intros)
  from k(2) show ?thesis
  proof (cases "ls ! i")
    case Testing
    with t k(1) i(2) show ?thesis by (auto intro: branch)
  qed (use k run in auto)
qed

lemma threads_not_stuck:
  assumes "sim K w g ps C A" "\<not> all_returned C"
  shows "\<exists>C'. thread_step K w C C'"
proof (cases "\<exists>m. owner C m \<noteq> None")
  case True
  then show ?thesis using assms(1) holder_runs by (fastforce simp: sim_def)
next
  case False
  from assms(1) obtain ls where ok: "places_ok K w g ps C (snd A) ls" by (auto simp: sim_def)
  from assms(2) ok obtain i where i: "i < length (threads C)" "i < length ps" "threads C ! i \<noteq> (Return, [])"
    by (auto simp: all_returned_def list_all_length places_ok_def)
  obtain k cs where t: "threads C ! i = (k, cs)" by force
  with thread_place [OF ok i(2)] have k: "k = place_code K w (ls ! i)" "\<And>m. owner C m = Some i \<longleftrightarrow> held (ls ! i) = Some m"
    by (auto simp: thread_at_def)
  from k(2) False have "held (ls ! i) = None" by (metis not_Some_eq)
  then show ?thesis
  proof (cases "ls ! i")
    case Outside
    with i t k obtain c cs' where "cs = c # cs'" by (cases cs) auto
    with Outside i t k show ?thesis by (auto intro: enter)
  next
    case (Waiting c)
    with t k(1) have "threads C ! i = (Lock (call_mutex c) (place_code K w (if c = Call_init then Testing else Ready c)), cs)"
      by (simp add: call_code_Lock)
    from acquire [OF i(1) this, of K w] False show ?thesis by blast
  qed auto
qed

interpretation thread_sys: progressing "thread_step K w" "\<lambda>C. \<exists>A. sim K w g ps C A" all_returned "work_left K w"
  for K w g ps
  by unfold_locales (blast dest: sim_step thread_work_step threads_not_stuck)+


section \<open>What an application with threads may rely on\<close>

text \<open>Two threads that initialise the library and trace, and a third that reports an error, with the
  information string and tracing asked for in the environment.\<close>

definition demo_environment :: "demo_w st" where
  "demo_environment = demo_state\<lparr>glb := demo_globals\<lparr>libocxl_inited := False\<rparr>, outs := [],
     wld := demo_world\<lparr>dw_env := [(''LIBOCXL_INFO'', ''yes''), (''LIBOCXL_TRACE_ALL'', ''1'')]\<rparr>\<rparr>"

definition demo_threads :: "lib_call list list" where
  "demo_threads =
     [[Call_init, Call_trace ''Trace'' ''afu.c'' 394 ''trace_metadata'' ''PASID=%d'' [FInt 4]],
      [Call_init, Call_trace ''Trace'' ''afu.c'' 394 ''trace_metadata'' ''PASID=%d'' [FInt 5]],
      [Call_error OCXL_NO_DEV ''no device'']]"

lemma demo_formats: "c_format ''PASID=%d'' [FInt 4] = Some ''PASID=4''" "c_format ''PASID=%d'' [FInt 5] = Some ''PASID=5''"
  by code_simp+

lemma demo_threads_ok: "list_all (calls_ok (glb demo_environment)) demo_threads" "outs demo_environment = []"
  by (simp_all add: demo_threads_def demo_environment_def calls_ok_def demo_formats)

text \<open>C4: threads that call \<open>libocxl_init\<close>, \<open>trace_message\<close> and the default error handlers in any
  interleaving of their statements end as if the calls had been made one at a time, in an order that
  keeps the order of every thread: the globals are the same, and standard error has the same text,
  so that no message is torn apart, although the initialisation prints without taking the mutex of
  standard error. A thread traces only after it, or another thread before all, initialised the library,
  and messages have the arguments their formats ask for.\<close>

theorem threads_serialise:
  fixes s :: "'w st"
  assumes "list_all (calls_ok (glb s)) ps" "outs s = []"
    and "(thread_step K (wld s))\<^sup>*\<^sup>* (start (glb s) ps) C" "all_returned C"
  shows "\<exists>s'. (call_step K)\<^sup>*\<^sup>* (s, ps) (s', map (\<lambda>p. []) ps) \<and>
    glb s' = sh_glb (shared C) \<and> stderr_text (outs s') = sh_stderr (shared C)"
proof -
  from thread_sim.run_simulated [OF assms(3) sim_start [OF assms(1,2)]]
  obtain s' qs where "(call_step K)\<^sup>*\<^sup>* (s, ps) (s', qs)" "sim K (wld s) (glb s) ps C (s', qs)" by auto
  with sim_returned [OF this(2) assms(4)] show ?thesis
    by (auto simp: abs_shared_def intro!: exI [of _ s'] dest: arg_cong [of _ _ sh_glb] arg_cong [of _ _ sh_stderr])
qed

theorem threads_serialise_witness:
  "\<exists>C s'. (thread_step demo (wld demo_environment))\<^sup>*\<^sup>* (start (glb demo_environment) demo_threads) C \<and>
    all_returned C \<and> (call_step demo)\<^sup>*\<^sup>* (demo_environment, demo_threads) (s', map (\<lambda>p. []) demo_threads) \<and>
    stderr_text (outs s') = sh_stderr (shared C)"
proof -
  from thread_sys.reaches_final [OF exI, OF sim_start [OF demo_threads_ok]] obtain C
    where "(thread_step demo (wld demo_environment))\<^sup>*\<^sup>* (start (glb demo_environment) demo_threads) C"
      "all_returned C" by blast
  with threads_serialise [OF demo_threads_ok this] show ?thesis by blast
qed

text \<open>C22: the threads never deadlock, and every run of them is finite, of at most as many steps as their
  calls have statements: whatever they have done, they can go on until all have returned.\<close>

theorem threads_finish:
  fixes s :: "'w st"
  assumes "list_all (calls_ok (glb s)) ps" "outs s = []"
    and "(thread_step K (wld s) ^^ n) (start (glb s) ps) C"
  shows "n \<le> work_left K (wld s) (start (glb s) ps) \<and>
    (all_returned C \<or> (\<exists>C'. thread_step K (wld s) C C')) \<and>
    (\<exists>C'. (thread_step K (wld s))\<^sup>*\<^sup>* C C' \<and> all_returned C')"
proof -
  note inv = thread_sys.run_bounded [OF assms(3) exI, OF sim_start [OF assms(1,2)]]
  then have C: "\<exists>A. sim K (wld s) (glb s) ps C A" and "n \<le> work_left K (wld s) (start (glb s) ps)" by simp_all
  then show ?thesis using thread_sys.reaches_final [OF C] thread_sys.not_stuck [OF C] by blast
qed

theorem threads_finish_witness:
  "\<exists>C'. (thread_step demo (wld demo_environment))\<^sup>*\<^sup>* (start (glb demo_environment) demo_threads) C' \<and> all_returned C'"
  using threads_finish [OF demo_threads_ok, of 0 demo] by simp

text \<open>C21: a thread that has returned from \<open>libocxl_init\<close> finds the library initialised: whichever
  thread ran the initialisation, and whatever the other threads are doing, the globals are those
  the initialisation gives.\<close>

theorem threads_init_complete:
  fixes s :: "'w st"
  assumes "list_all (calls_ok (glb s)) ps" "outs s = []"
    and "(thread_step K (wld s))\<^sup>*\<^sup>* (start (glb s) ps) C"
    and "i < length ps" "threads C ! i = (Return, cs)" "ps ! i = pre @ cs" "Call_init \<in> set pre"
  shows "sh_glb (shared C) = glb (exec_call K Call_init s) \<and> libocxl_inited (sh_glb (shared C))"
proof -
  from thread_sim.run_simulated [OF assms(3) sim_start [OF assms(1,2)]]
  obtain s' qs where run: "(call_step K)\<^sup>*\<^sup>* (s, ps) (s', qs)" and S: "sim K (wld s) (glb s) ps C (s', qs)" by auto
  from S assms(4) have i: "i < length (threads C)" by (auto simp: sim_def places_ok_def)
  show ?thesis
  proof (rule sim_placeE [OF S i assms(5)], goal_cases)
    case (1 ls pre')
    then have "ls ! i = Outside" by (simp add: place_code_cases)
    with 1 assms(6,7) have "inited C" by simp
    moreover from this have "sh_glb (shared C) = glb s'"
      using inited_settled [OF 1(1,3)] 1(2) by (simp add: abs_shared_def flip: 1(2))
    ultimately show ?case using call_run_glb [OF run] by (auto simp: inited_def libocxl_init_run)
  qed
qed

theorem threads_init_complete_witness:
  "\<exists>C. (thread_step demo (wld demo_environment))\<^sup>*\<^sup>* (start (glb demo_environment) demo_threads) C \<and>
    sh_glb (shared C) = glb (exec_call demo Call_init demo_environment)"
proof -
  from thread_sys.reaches_final [OF exI, OF sim_start [OF demo_threads_ok]] obtain C
    where C: "(thread_step demo (wld demo_environment))\<^sup>*\<^sup>* (start (glb demo_environment) demo_threads) C"
      "all_returned C" by blast
  from thread_sim.run_simulated [OF C(1) sim_start [OF demo_threads_ok]]
  have "length (threads C) = 3" by (auto simp: sim_def places_ok_def demo_threads_def)
  with C(2) have "threads C ! 0 = (Return, [])" by (auto simp: all_returned_def list_all_length)
  with threads_init_complete [OF demo_threads_ok C(1), of 0 "[]" "demo_threads ! 0"] C(1) show ?thesis
    by (auto simp: demo_threads_def)
qed

end
