(* ===== verification/Ocxl_Client.thy ===== *)
theory Ocxl_Client
  imports Ocxl_Lifecycle
begin

text \<open>
  What the programs that use the library share: the C library calls they make beyond those of
  the library (the record \<open>host\<close>), their messages, time values, accesses to memory the
  accelerator also writes, and the wrapper \<open>ocxl_afu_event_check\<close> of \<open>libocxl.h\<close>.

  Memory of the process that is shared with the accelerator is accessed through the platform's
  \<open>os_load\<close> and \<open>os_store\<close>, so that a load may see what the accelerator has written
  since, and every store is in the call record in program order.

  The calculus \<open>uses a b\<close> says of a program that it keeps the invariants of an open AFU and its
  books, and adds at most \<open>a\<close> regions and \<open>b\<close> interrupts.
\<close>

section \<open>The host\<close>

record timeval =
  tv_sec :: int
  tv_usec :: int

record 'w host =
  h_getpagesize :: nat
  h_aligned_alloc :: "nat \<Rightarrow> nat \<Rightarrow> 'w \<Rightarrow> u64 \<times> 'w"
  h_gettimeofday :: "'w \<Rightarrow> timeval \<times> 'w"
  h_ocxl_wait :: "'w \<Rightarrow> 'w"
  h_getpid :: "'w \<Rightarrow> int"
  h_mmap_anonymous :: "nat \<Rightarrow> 'w \<Rightarrow> u64 \<times> 'w"
  h_munmap :: "u64 \<Rightarrow> nat \<Rightarrow> 'w \<Rightarrow> 'w"
  h_shmget :: "nat \<Rightarrow> 'w \<Rightarrow> int \<times> 'w"
  h_shmat :: "int \<Rightarrow> 'w \<Rightarrow> u64 \<times> 'w"
  h_shmdt :: "u64 \<Rightarrow> 'w \<Rightarrow> int \<times> 'w"
  h_shmctl_rmid :: "int \<Rightarrow> 'w \<Rightarrow> int \<times> 'w"
  h_ratio_text :: "int \<Rightarrow> int \<Rightarrow> string"

definition timeradd :: "timeval \<Rightarrow> timeval \<Rightarrow> timeval" where
  "timeradd a b =
     (let sec = tv_sec a + tv_sec b; usec = tv_usec a + tv_usec b in
      if 1000000 \<le> usec then \<lparr>tv_sec = sec + 1, tv_usec = usec - 1000000\<rparr>
      else \<lparr>tv_sec = sec, tv_usec = usec\<rparr>)"

definition timer_after :: "timeval \<Rightarrow> timeval \<Rightarrow> bool" where
  "timer_after a b = (if tv_sec a = tv_sec b then tv_usec b < tv_usec a else tv_sec b < tv_sec a)"

definition gettimeofday :: "'w host \<Rightarrow> ('w, timeval) prog" where
  "gettimeofday H = sys (h_gettimeofday H)"

definition ocxl_wait :: "'w host \<Rightarrow> ('w, unit) prog" where
  "ocxl_wait H = sys (\<lambda>w. ((), h_ocxl_wait H w))"

text \<open>A host for the examples; its clock counts the calls that read it.\<close>

definition demo_host :: "demo_w host" where
  "demo_host = \<lparr>h_getpagesize = 65536,
     h_aligned_alloc = (\<lambda>a n w. (dw_addr w, w\<lparr>dw_addr := dw_addr w + 0x100000\<rparr>)),
     h_gettimeofday = (\<lambda>w. (\<lparr>tv_sec = int (dw_block w), tv_usec = 0\<rparr>, w\<lparr>dw_block := Suc (dw_block w)\<rparr>)),
     h_ocxl_wait = (\<lambda>w. w), h_getpid = (\<lambda>w. 42),
     h_mmap_anonymous = (\<lambda>n w. (dw_addr w, w\<lparr>dw_addr := dw_addr w + 0x100000\<rparr>)),
     h_munmap = (\<lambda>a n w. w), h_shmget = (\<lambda>n w. (1, w)),
     h_shmat = (\<lambda>i w. (dw_addr w, w\<lparr>dw_addr := dw_addr w + 0x100000\<rparr>)),
     h_shmdt = (\<lambda>a w. (0, w)), h_shmctl_rmid = (\<lambda>i w. (0, w)), h_ratio_text = (\<lambda>t n. ''0.00'')\<rparr>"

section \<open>Messages\<close>

definition say_state :: "(string \<Rightarrow> out_event) \<Rightarrow> string \<Rightarrow> farg list \<Rightarrow> 'w st \<Rightarrow> 'w st" where
  "say_state dest fmt args s =
     (case c_format fmt args of
        None \<Rightarrow> s\<lparr>fmt_ub := fmt_ub s @ [fmt]\<rparr>
      | Some t \<Rightarrow> s\<lparr>outs := outs s @ [dest t]\<rparr>)"

definition say :: "(string \<Rightarrow> out_event) \<Rightarrow> string \<Rightarrow> farg list \<Rightarrow> ('w, unit) prog" where
  "say dest fmt args = modify (say_state dest fmt args)"

abbreviation nl :: string where "nl \<equiv> [CHR 0x0A]"

lemma say_cong [cong]: "say dest fmt args = say dest fmt args"
  by (rule refl)

lemma say_state_cong [cong]: "s = s' \<Longrightarrow> say_state dest fmt args s = say_state dest fmt args s'"
  by simp

lemma say_state_frame [simp]:
  "glb (say_state dest fmt args s) = glb s"
  "calls (say_state dest fmt args s) = calls s"
  "wld (say_state dest fmt args s) = wld s"
  "cur_afu (say_state dest fmt args s) = cur_afu s"
  "ub (say_state dest fmt args s) = ub s"
  by (simp_all add: say_state_def split: option.splits)

lemma wp_say [wp_call]: "wp (say dest fmt args) Q s = Q () (say_state dest fmt args s)"
  by (simp add: say_def wp_simps)

definition perror :: "'w platform \<Rightarrow> string \<Rightarrow> ('w, unit) prog" where
  "perror K msg = do { e \<leftarrow> errno K; say Stderr (''%s: %s'' @ nl) [FStr msg, FStr (os_strerror K e)] }"

section \<open>Shared memory\<close>

definition load8 :: "'w platform \<Rightarrow> u64 \<Rightarrow> ('w, u8) prog" where
  "load8 K a = do { bs \<leftarrow> do_load K a 1; State_Monad.return (native_word K bs) }"

definition load32 :: "'w platform \<Rightarrow> u64 \<Rightarrow> ('w, u32) prog" where
  "load32 K a = do { bs \<leftarrow> do_load K a 4; State_Monad.return (native_word K bs) }"

definition store32 :: "'w platform \<Rightarrow> u64 \<Rightarrow> u32 \<Rightarrow> ('w, unit) prog" where
  "store32 K a v = do_store K a (native_bytes K 4 v)"

definition c_memset :: "'w platform \<Rightarrow> u64 \<Rightarrow> u8 \<Rightarrow> nat \<Rightarrow> ('w, unit) prog" where
  "c_memset K a v n = do { whenM (a = 0) (undefined_behaviour UB_null_argument); do_store K a (replicate n v) }"

definition c_memcmp :: "'w platform \<Rightarrow> u64 \<Rightarrow> u64 \<Rightarrow> nat \<Rightarrow> ('w, bool) prog" where
  "c_memcmp K a b n = do {
     x \<leftarrow> do_load K a n;
     y \<leftarrow> do_load K b n;
     State_Monad.return (x \<noteq> y)
   }"

text \<open>A product of C \<open>int\<close> values.\<close>

definition int_mul :: "int \<Rightarrow> int \<Rightarrow> ('w, int) prog" where
  "int_mul a b = do {
     whenM (\<not> (- (2 ^ 31) \<le> a * b \<and> a * b < 2 ^ 31)) (undefined_behaviour UB_integer_overflow);
     State_Monad.return (sint (of_int (a * b) :: 32 word))
   }"

lemma quiet_client [quiet_intros]:
  "quiet (say dest fmt args)" "quiet (gettimeofday H)" "quiet (ocxl_wait H)"
  by (simp_all add: gettimeofday_def ocxl_wait_def quiet_basic quiet_def untouched_def wp_simps wp_call
      split: prod.splits)

lemma quiet_memory [quiet_intros]:
  "quiet (perror K msg)" "quiet (load8 K a)" "quiet (load32 K a)" "quiet (store32 K a v)"
  "quiet (c_memset K a x n)" "quiet (c_memcmp K a b n)" "quiet (int_mul i j)"
  unfolding perror_def load8_def load32_def store32_def c_memset_def c_memcmp_def int_mul_def
  by (intro quiet_intros)+

section \<open>Events\<close>

definition ocxl_afu_event_check ::
  "'w platform \<Rightarrow> nat \<Rightarrow> int \<Rightarrow> event_array \<Rightarrow> u16 \<Rightarrow> ('w, (int \<times> event_array) option) prog" where
  "ocxl_afu_event_check K fuel timeout events event_count =
     ocxl_afu_event_check_versioned K fuel timeout events event_count 0"

text \<open>Reading the event the check has written; reading one it has not is undefined.\<close>

definition event_at :: "event_array \<Rightarrow> nat \<Rightarrow> ('w, ocxl_event) prog" where
  "event_at events i =
     (if i < length events \<and> events ! i \<noteq> None then State_Monad.return (the (events ! i))
      else do {
        undefined_behaviour UB_indeterminate;
        State_Monad.return (OCXL_EVENT_TRANSLATION_FAULT \<lparr>tf_addr = 0, tf_dsisr = 0, tf_count = 0\<rparr>)
      })"

lemma quiet_event_at [quiet_intros]: "quiet (event_at events i)"
  unfolding event_at_def by (intro quiet_intros)

section \<open>Programs that use an open AFU\<close>

definition within :: "nat \<Rightarrow> nat \<Rightarrow> ocxl_afu \<Rightarrow> bool" where
  "within a b x \<longleftrightarrow> unat (mmio_count x) \<le> a \<and> unat (irq_count x) \<le> b"

definition uses :: "nat \<Rightarrow> nat \<Rightarrow> ('w, 'a) prog \<Rightarrow> bool" where
  "uses a b m \<longleftrightarrow> (\<forall>s p q. afu_inv (cur_afu s) \<and> within p q (cur_afu s) \<and> p + a \<le> table_limit \<and>
     q + b \<le> table_limit \<longrightarrow> wp m (\<lambda>_ s'. kept s s' \<and> within (p + a) (q + b) (cur_afu s')) s)"

named_theorems uses_intros \<open>programs that keep the books of an open AFU\<close>

lemma usesD:
  "uses a b m \<Longrightarrow> afu_inv (cur_afu s) \<Longrightarrow> within p q (cur_afu s) \<Longrightarrow> p + a \<le> table_limit \<Longrightarrow>
   q + b \<le> table_limit \<Longrightarrow> wp m (\<lambda>_ s'. kept s s' \<and> within (p + a) (q + b) (cur_afu s')) s"
  by (simp add: uses_def)

lemma uses_mono:
  assumes "uses a b m" "a \<le> a'" "b \<le> b'"
  shows "uses a' b' m"
  unfolding uses_def
proof (intro allI impI, elim conjE)
  fix s :: "'a st" and p q
  assume "afu_inv (cur_afu s)" "within p q (cur_afu s)" "p + a' \<le> table_limit" "q + b' \<le> table_limit"
  with assms(2,3) have "wp m (\<lambda>_ s'. kept s s' \<and> within (p + a) (q + b) (cur_afu s')) s"
    by (intro usesD [OF assms(1)]) simp_all
  then show "wp m (\<lambda>_ s'. kept s s' \<and> within (p + a') (q + b') (cur_afu s')) s"
    by (rule wp_mono) (use assms(2,3) in \<open>auto simp: within_def\<close>)
qed

lemma uses_quiet: "quiet m \<Longrightarrow> uses 0 0 m"
  unfolding uses_def
  by (intro allI impI wp_mono [OF quietD]) (auto simp: untouched_kept untouched_def)

lemma uses_bind:
  assumes m: "uses a b m" and f: "\<And>x. uses c d (f x)"
  shows "uses (a + c) (b + d) (State_Monad.bind m f)"
  unfolding uses_def wp_bind
proof (intro allI impI, elim conjE)
  fix s :: "'a st" and p q
  assume s: "afu_inv (cur_afu s)" "within p q (cur_afu s)"
    and lim: "p + (a + c) \<le> table_limit" "q + (b + d) \<le> table_limit"
  have "wp m (\<lambda>_ s'. kept s s' \<and> within (p + a) (q + b) (cur_afu s')) s"
    using lim by (intro usesD [OF m s]) simp_all
  then show "wp m (\<lambda>x. wp (f x) (\<lambda>_ s'. kept s s' \<and> within (p + (a + c)) (q + (b + d)) (cur_afu s'))) s"
  proof (rule wp_mono)
    fix x s1
    assume s1: "kept s s1 \<and> within (p + a) (q + b) (cur_afu s1)"
    then have "wp (f x) (\<lambda>_ s'. kept s1 s' \<and> within (p + a + c) (q + b + d) (cur_afu s')) s1"
      using lim by (intro usesD [OF f]) (auto simp: kept_def)
    then show "wp (f x) (\<lambda>_ s'. kept s s' \<and> within (p + (a + c)) (q + (b + d)) (cur_afu s')) s1"
      by (rule wp_mono) (use s1 in \<open>auto simp: add.assoc intro: kept_trans\<close>)
  qed
qed

lemma uses_max:
  "uses a b m \<Longrightarrow> uses (max a c) (max b d) m" "uses c d m \<Longrightarrow> uses (max a c) (max b d) m"
  by (auto intro: uses_mono)

lemma uses_if: "uses a b m \<Longrightarrow> uses c d n \<Longrightarrow> uses (max a c) (max b d) (if P then m else n)"
  by (simp add: uses_max)

lemma uses_whenM: "uses a b m \<Longrightarrow> uses a b (whenM P m)"
  by (cases P) (auto simp: whenM_def intro: uses_mono [OF uses_quiet [OF quiet_skip]])

lemma uses_option:
  "uses a b m \<Longrightarrow> (\<And>x. uses c d (f x)) \<Longrightarrow>
   uses (max a c) (max b d) (case z of None \<Rightarrow> m | Some x \<Rightarrow> f x)"
  by (cases z) (simp_all add: uses_max)

lemma uses_sum:
  "(\<And>x. uses a b (f x)) \<Longrightarrow> (\<And>x. uses c d (g x)) \<Longrightarrow>
   uses (max a c) (max b d) (case z of Inl x \<Rightarrow> f x | Inr x \<Rightarrow> g x)"
  by (cases z) (simp_all add: uses_max)

lemma uses_event:
  "(\<And>x. uses a b (f x)) \<Longrightarrow> (\<And>x. uses c d (g x)) \<Longrightarrow> uses (max a c) (max b d)
     (case z of OCXL_EVENT_IRQ x \<Rightarrow> f x | OCXL_EVENT_TRANSLATION_FAULT x \<Rightarrow> g x)"
  by (cases z) (simp_all add: uses_max)

lemma uses_bool:
  "uses a b m \<Longrightarrow> uses c d n \<Longrightarrow> uses (max a c) (max b d) (case z of True \<Rightarrow> m | False \<Rightarrow> n)"
  by (cases z) (simp_all add: uses_max)

lemma uses_prod: "(\<And>x y. uses a b (f x y)) \<Longrightarrow> uses a b (case z of (x, y) \<Rightarrow> f x y)"
  by (cases z) simp

lemma uses_Let: "(\<And>x. uses a b (f x)) \<Longrightarrow> uses a b (let x = e in f x)"
  by (simp add: Let_def)

lemmas uses_structure = uses_bind uses_if uses_whenM uses_option uses_sum uses_event uses_bool
  uses_prod uses_Let

lemmas uses_atoms = quiet_return [THEN uses_quiet] quiet_skip [THEN uses_quiet]
  quiet_basic [THEN uses_quiet] quiet_platform [THEN uses_quiet] quiet_accessors [THEN uses_quiet]
  quiet_irq_queries [THEN uses_quiet] quiet_client [THEN uses_quiet] quiet_memory [THEN uses_quiet]
  quiet_event_at [THEN uses_quiet]

declare uses_structure [uses_intros] uses_atoms [uses_intros]

lemma uses_light:
  assumes "\<And>s. wp m (\<lambda>_ s'. light_fields (cur_afu s') = light_fields (cur_afu s) \<and>
      balance (calls s') = balance (calls s)) s"
  shows "uses 0 0 m"
  unfolding uses_def
proof (intro allI impI, elim conjE)
  fix s :: "'a st" and p q
  assume s: "afu_inv (cur_afu s)" "within p q (cur_afu s)"
  have "within p q (cur_afu s')" if "light_fields (cur_afu s') = light_fields (cur_afu s)" for s' :: "'a st"
    using arg_cong [OF that, of mmio_count] arg_cong [OF that, of irq_count] s(2)
    by (simp add: within_def light_fields_def)
  then show "wp m (\<lambda>_ s'. kept s s' \<and> within (p + 0) (q + 0) (cur_afu s')) s"
    by (intro wp_mono [OF assms [of s]]) (simp add: light_kept [OF s(1)])
qed

lemma uses_attach [uses_intros]: "uses 0 0 (ocxl_afu_attach K flags)"
  by (rule uses_light) (auto simp: ocxl_afu_attach_def wp_simps wp_call effect_def fun_eq_iff split: prod.splits)

lemma uses_messages [uses_intros]: "uses 0 0 (ocxl_afu_enable_messages sources)"
  by (rule uses_light) (simp add: ocxl_afu_enable_messages_def wp_simps)

lemma uses_map_advanced:
  assumes "irq_laws K"
  shows "uses 1 0 (ocxl_mmio_map_advanced K ty sz prot flags off)"
  unfolding uses_def
proof (intro allI impI, elim conjE)
  fix s :: "'a st" and p q
  assume s: "afu_inv (cur_afu s)" "within p q (cur_afu s)" and lim: "p + 1 \<le> table_limit"
  have c: "unat (mmio_count (cur_afu s)) < table_limit" using s(2) lim by (simp add: within_def)
  then have pre: "mmio_pre (cur_afu s)" "mmap_nonnull K"
    using assms s by (auto simp: mmio_pre_def afu_inv_def mmio_room_def table_limit_def irq_laws_def)
  have "within (p + 1) q (cur_afu s')" if m: "map_post sz' ty s r s'" for sz' r s'
  proof -
    have n: "no_mmios (cur_afu s') = no_mmios (cur_afu s)" using m by (simp add: map_post_def Let_def)
    have "irq_count (cur_afu s') = irq_count (cur_afu s)"
      using no_mmios_cong [OF n, of irq_count] by (simp add: no_mmios_def)
    moreover have "unat (mmio_count (cur_afu s')) \<le> Suc (unat (mmio_count (cur_afu s)))"
      using m by (cases r) (auto simp: map_post_def Let_def split: option.splits)
    ultimately show ?thesis using s(2) by (simp add: within_def)
  qed
  with wp_mono [OF map_advanced_spec [OF pre]] map_kept [OF assms s(1) c]
  show "wp (ocxl_mmio_map_advanced K ty sz prot flags off)
      (\<lambda>_ s'. kept s s' \<and> within (p + 1) (q + 0) (cur_afu s')) s"
    unfolding wp_conj by (metis (mono_tags, lifting) Nat.add_0_right)
qed

lemma uses_map: "irq_laws K \<Longrightarrow> uses 1 0 (ocxl_mmio_map K ty)"
  unfolding ocxl_mmio_map_def by (rule uses_map_advanced)

lemma uses_irq_alloc:
  assumes "irq_laws K"
  shows "uses 0 1 (ocxl_irq_alloc K info)"
  unfolding uses_def
proof (intro allI impI, elim conjE)
  fix s :: "'a st" and p q
  assume s: "afu_inv (cur_afu s)" "within p q (cur_afu s)" and lim: "q + 1 \<le> table_limit"
  have c: "unat (irq_count (cur_afu s)) < table_limit" "irq_ok (cur_afu s)"
    using s lim by (simp_all add: within_def afu_inv_def)
  have "within p (q + 1) (cur_afu s')" if m: "irq_alloc_post info s r s'" for r s'
  proof -
    have n: "no_irqs (cur_afu s') = no_irqs (cur_afu s)" using m by (simp add: irq_alloc_post_def Let_def)
    have "mmio_count (cur_afu s') = mmio_count (cur_afu s)"
      using no_irqs_cong [OF n, of mmio_count] by (simp add: no_irqs_def)
    moreover have "unat (irq_count (cur_afu s')) \<le> Suc (unat (irq_count (cur_afu s)))"
      using m by (cases r) (auto simp: irq_alloc_post_def Let_def split: option.splits)
    ultimately show ?thesis using s(2) by (simp add: within_def)
  qed
  with wp_mono [OF irq_alloc_spec [OF assms c(2)]] irq_alloc_kept [OF assms s(1) c(1)] c(1)
  show "wp (ocxl_irq_alloc K info) (\<lambda>_ s'. kept s s' \<and> within (p + 0) (q + 1) (cur_afu s')) s"
    unfolding wp_conj table_limit_def by (metis (mono_tags, lifting) Nat.add_0_right)
qed

lemma uses_epoll_reserve: "uses 0 0 (epoll_reserve K n)"
  unfolding uses_def
proof (intro allI impI, elim conjE)
  fix s :: "'a st" and p q
  assume s: "afu_inv (cur_afu s)" "within p q (cur_afu s)"
  have "wp (epoll_reserve K n) (\<lambda>_ s'. within p q (cur_afu s')) s"
    using s(2) by (auto simp: epoll_reserve_def wp_simps wp_call within_def split: prod.splits option.splits)
  with epoll_reserve_kept [OF s(1)] show "wp (epoll_reserve K n)
      (\<lambda>_ s'. kept s s' \<and> within (p + 0) (q + 0) (cur_afu s')) s"
    by (simp add: wp_conj)
qed

lemma uses_event_check [uses_intros]: "uses 0 0 (ocxl_afu_event_check K fuel timeout events n)"
proof (rule uses_mono)
  show "uses (0 + (0 + max 0 0)) (0 + (0 + max 0 0)) (ocxl_afu_event_check K fuel timeout events n)"
    unfolding ocxl_afu_event_check_def ocxl_afu_event_check_versioned_def
    by (intro uses_bind uses_if uses_epoll_reserve uses_quiet quiet_intros)
qed simp_all

section \<open>From an open AFU to a closed one\<close>

text \<open>The books of an AFU that was in state \<open>s\<close> when it was opened, with at most \<open>p\<close>
  regions and \<open>q\<close> interrupts by now.\<close>

definition books :: "'w st \<Rightarrow> nat \<Rightarrow> nat \<Rightarrow> 'w st \<Rightarrow> bool" where
  "books s p q s' \<longleftrightarrow> kept s s' \<and> within p q (cur_afu s')"

lemma books_refl: "afu_inv (cur_afu s) \<Longrightarrow> within p q (cur_afu s) \<Longrightarrow> books s p q s"
  by (simp add: books_def kept_refl)

lemma uses_books:
  assumes "uses a b m" "books s p q s1" "p + a \<le> table_limit" "q + b \<le> table_limit"
    and "\<And>x s2. books s (p + a) (q + b) s2 \<Longrightarrow> Q x s2"
  shows "wp m Q s1"
proof -
  have "wp m (\<lambda>_ s'. kept s1 s' \<and> within (p + a) (q + b) (cur_afu s')) s1"
    using assms(2-4) by (intro usesD [OF assms(1)]) (auto simp: books_def kept_def)
  then show ?thesis
    by (rule wp_mono) (use assms(2,5) in \<open>auto simp: books_def intro: kept_trans\<close>)
qed

text \<open>Closing does not free the region array: the struct still points to it when the struct itself is
  freed. \<open>keeps_array m\<close> says that \<open>m\<close> leaves this pointer alone.\<close>

definition keeps_array :: "('w, 'a) prog \<Rightarrow> bool" where
  "keeps_array m \<longleftrightarrow> (\<forall>s. wp m (\<lambda>_ s'. buf_block (mmios (cur_afu s')) = buf_block (mmios (cur_afu s))) s)"

named_theorems array_intros \<open>operations that leave the pointer to the region array alone\<close>

lemma keeps_array_bind [array_intros]:
  "keeps_array m \<Longrightarrow> (\<And>x. keeps_array (f x)) \<Longrightarrow> keeps_array (State_Monad.bind m f)"
  unfolding keeps_array_def wp_bind by (fastforce elim!: wp_mono)

lemma keeps_array_basic [array_intros]:
  "keeps_array (State_Monad.return x)" "keeps_array skip" "keeps_array (afu_get f)"
  "keeps_array (do_free K blk)" "keeps_array (do_close K d)" "keeps_array (do_munmap K adr len)"
  by (simp_all add: keeps_array_def wp_simps wp_call)

lemma keeps_array_when [array_intros]: "keeps_array m \<Longrightarrow> keeps_array (whenM b m)"
  by (simp add: keeps_array_def wp_simps)

lemma keeps_array_if [array_intros]: "keeps_array m \<Longrightarrow> keeps_array n \<Longrightarrow> keeps_array (if b then m else n)"
  by simp

lemma keeps_array_set [array_intros]:
  "(\<And>a. buf_block (mmios (f a)) = buf_block (mmios a)) \<Longrightarrow> keeps_array (afu_set f)"
  by (simp add: keeps_array_def wp_simps)

lemma keeps_array_unmap [array_intros]: "keeps_array (ocxl_mmio_unmap K h)"
  unfolding keeps_array_def ocxl_mmio_unmap_def region_at_def mmios_put_def
  by (auto simp: wp_simps wp_call split: option.splits prod.splits)

lemma keeps_array_irq_dealloc [array_intros]: "keeps_array (irq_dealloc K q)"
  unfolding keeps_array_def irq_dealloc_def by (auto simp: wp_simps wp_call)

lemma keeps_array_irqs [array_intros]: "keeps_array (irqs_at i)" "keeps_array (irqs_put i q)"
  unfolding keeps_array_def irqs_at_def irqs_put_def by (auto simp: wp_simps wp_call split: cell.splits)

lemma keeps_array_close_mmios [array_intros]: "keeps_array (close_mmios K is)"
  by (induction "is") (auto intro!: array_intros)

lemma keeps_array_close_irqs [array_intros]: "keeps_array (close_irqs K is)"
  by (induction "is") (auto intro!: array_intros)

lemma keeps_array_close: "keeps_array (ocxl_afu_close K)"
  unfolding ocxl_afu_close_def release_irqs_def release_context_def by (intro array_intros) simp_all

text \<open>The AFU is closed and everything acquired since \<open>s\<close>, and what it held then, is given back,
  except for the block of the region array.\<close>

definition closed_since :: "'w st \<Rightarrow> 'w st \<Rightarrow> bool" where
  "closed_since s s' \<longleftrightarrow> afu_fd (cur_afu s') = - 1 \<and>
     (\<forall>r. r \<noteq> RFd (- 1) \<and> r \<noteq> RMap MAP_FAILED (page_size (cur_afu s)) \<longrightarrow>
        balance (calls s') r = balance (calls s) r - owned (cur_afu s) r + block_owned (mmios (cur_afu s')) r)"

lemma close_since:
  assumes "books s p q s1"
  shows "wp (ocxl_afu_close K) (\<lambda>rc s'. rc = OCXL_OK \<and> closed_since s s') s1"
proof -
  have k: "afu_inv (cur_afu s1)" "page_size (cur_afu s1) = page_size (cur_afu s)"
    "\<forall>r. r \<noteq> RMap MAP_FAILED (page_size (cur_afu s)) \<longrightarrow> debt s1 r = debt s r"
    using assms by (simp_all add: books_def kept_def)
  then have "wp (ocxl_afu_close K) (\<lambda>rc s'. closed_post s1 rc s' \<and>
      buf_block (mmios (cur_afu s')) = buf_block (mmios (cur_afu s1))) s1"
    using keeps_array_close [of K] unfolding wp_conj keeps_array_def
    by (intro conjI afu_close_spec) (auto simp: afu_inv_def irq_ok_def)
  then show ?thesis
    by (rule wp_mono) (use k(3) in \<open>auto simp: closed_post_def closed_since_def debt_def block_owned_def\<close>)
qed

lemma closed_since_say [simp]: "closed_since s (say_state dest fmt args s') = closed_since s s'"
  by (simp add: closed_since_def)

lemma open_fresh:
  assumes "run_state (ocxl_afu_open_specific K nm pf idx) s = ((OCXL_OK, h), s1)"
  shows "afu_inv (cur_afu s1)" "within 0 0 (cur_afu s1)"
proof -
  from wpD [OF open_specific_spec assms] obtain b where "h = Some b" by auto
  with wpD [OF open_specific_spec assms] have "0 \<le> afu_fd (cur_afu s1)" "mmio_ok (cur_afu s1)"
      "irq_ok (cur_afu s1)" and "mmio_count (cur_afu s1) = 0" "irq_count (cur_afu s1) = 0"
    by simp_all
  then show "afu_inv (cur_afu s1)" "within 0 0 (cur_afu s1)" by (simp_all add: afu_inv_def within_def)
qed

lemma open_from_dev_fresh:
  assumes "run_state (ocxl_afu_open_from_dev K path) s = ((OCXL_OK, h), s1)"
  shows "afu_inv (cur_afu s1)" "within 0 0 (cur_afu s1)"
proof -
  from wpD [OF open_from_dev_spec assms] obtain b where "h = Some b" by (auto simp: dev_post_def split: option.splits)
  with wpD [OF open_from_dev_spec assms] have "0 \<le> afu_fd (cur_afu s1)" "mmio_ok (cur_afu s1)"
      "irq_ok (cur_afu s1)" and "mmio_count (cur_afu s1) = 0" "irq_count (cur_afu s1) = 0"
    by (simp_all add: dev_post_def)
  then show "afu_inv (cur_afu s1)" "within 0 0 (cur_afu s1)" by (simp_all add: afu_inv_def within_def)
qed

text \<open>A memcpy accelerator to open, for the examples; \<open>a\<close> is the next free address.\<close>

definition demo_device :: "u64 \<Rightarrow> demo_w st" where
  "demo_device a = demo_state\<lparr>wld := demo_world\<lparr>dw_devices := [''IBM,MEMCPY3.1:0:0.1.0''], dw_addr := a\<rparr>\<rparr>"

lemmas open_defs = ocxl_afu_open_def ocxl_afu_open_specific_def ocxl_afu_open_from_dev_def libocxl_init_def
  get_afu_by_path_def afu_alloc_def populate_metadata_def device_matches_def populate_from_name_def
  afu_open_def global_mmio_open_def open_context_def trace_metadata_def env_yes_def AFU_NAME_MAX_def
  afu_init_def PATH_MAX_def SYS_PATH_def DEVICE_PATH_def ocxl_enable_messages_def

lemmas demo_opening = demo_state_def demo_world_def demo_globals_def demo_irq_platform_def
  demo_alloc_def demo_new_fd_def

lemma demo_device_opens:
  "wp (ocxl_afu_open demo_irq_platform ''IBM,MEMCPY3'') (\<lambda>r s'. r = (OCXL_OK, Some 100))
     (snd (run_state (ocxl_enable_messages OCXL_ERRORS) (demo_device a)))"
proof -
  have c: "strchr ''IBM,MEMCPY3.1:0:0.1.0'' CHR ''.'' = Some 11" by code_simp
  have n: "sscanf_count pci_format ''1:0:0.1.0'' = 5" by (simp add: sscanf_count_def demo_scan)
  show ?thesis
    by (simp add: open_defs demo_opening demo_device_def wp_simps wp_call c demo_scan n Let_def)
qed

end
