(* ===== verification/Ocxl_Memory.thy ===== *)
theory Ocxl_Memory
  imports Ocxl_Client
begin

text \<open>
  Memory as a function from addresses to bytes: the image a list of stores leaves, reading it back,
  and addresses by their distance from a base, between which stores do not overlap.
\<close>

section \<open>What the program has written\<close>

text \<open>The bytes a program's stores leave in memory, apart from what the accelerator writes.\<close>

definition poke :: "u64 \<Rightarrow> u8 list \<Rightarrow> (u64 \<Rightarrow> u8) \<Rightarrow> u64 \<Rightarrow> u8" where
  "poke a bs m x = (if unat (x - a) < length bs then bs ! unat (x - a) else m x)"

primrec mem_image :: "call list \<Rightarrow> (u64 \<Rightarrow> u8) \<Rightarrow> u64 \<Rightarrow> u8" where
  "mem_image [] m = m"
| "mem_image (c # cs) m = mem_image cs (case c of CStore a bs \<Rightarrow> poke a bs m | _ \<Rightarrow> m)"

lemma mem_image_append: "mem_image (cs @ ds) m = mem_image ds (mem_image cs m)"
  by (induction cs arbitrary: m) simp_all

definition peek :: "(u64 \<Rightarrow> u8) \<Rightarrow> u64 \<Rightarrow> nat \<Rightarrow> u8 list" where
  "peek m a n = map (\<lambda>i. m (a + of_nat i)) [0..<n]"

lemma poke_outside: "length bs \<le> unat (x - a) \<Longrightarrow> poke a bs m x = m x"
  by (simp add: poke_def)

lemma poke_inside: "i < length bs \<Longrightarrow> i < 2 ^ 64 \<Longrightarrow> poke a bs m (a + of_nat i) = bs ! i"
  by (simp add: poke_def unat_of_nat)

text \<open>A run of stores of single bytes.\<close>

lemma poke_snoc:
  assumes "length bs < 2 ^ 64"
  shows "poke (b + of_nat (length bs)) [v] (poke b bs m) = poke b (bs @ [v]) m"
proof (rule ext)
  fix x
  have n: "unat (of_nat (length bs) :: u64) = length bs" using assms by (simp add: unat_of_nat)
  have "x - (b + of_nat (length bs)) = 0 \<longleftrightarrow> x - b = of_nat (length bs)"
    unfolding diff_diff_add [symmetric] right_minus_eq ..
  then have "x - (b + of_nat (length bs)) = 0 \<longleftrightarrow> unat (x - b) = length bs"
    by (simp only: word_unat_eq_iff n)
  then show "poke (b + of_nat (length bs)) [v] (poke b bs m) x = poke b (bs @ [v]) m x"
    by (auto simp: poke_def nth_append unat_eq_0)
qed

lemma byte_stores_image:
  assumes "n \<le> 2 ^ 64"
  shows "mem_image (map (\<lambda>i. CStore (b + of_nat i) [f i]) [0..<n]) m = poke b (map f [0..<n]) m"
  using assms
proof (induction n)
  case 0
  then show ?case by (simp add: poke_def)
next
  case (Suc n)
  then show ?case using poke_snoc [of "map f [0..<n]" b "f n" m] by (simp add: mem_image_append)
qed

text \<open>Addresses above a base, by their distance from it.\<close>

definition base_at :: "u64 \<Rightarrow> nat \<Rightarrow> u64" where
  "base_at q n = q + of_nat n"

lemma base_at_add: "base_at q n + of_nat k = base_at q (n + k)"
  by (simp add: base_at_def add.assoc)

lemmas base_at_fields = base_at_add [of q n 1 for q n, simplified] base_at_add [of q n "numeral k" for q n k, simplified]

lemma poke_base:
  assumes "off + length bs \<le> 2 ^ 64" "k < 2 ^ 64" "off < 2 ^ 64"
  shows "poke (base_at q off) bs m (base_at q k) =
    (if off \<le> k \<and> k < off + length bs then bs ! (k - off) else m (base_at q k))"
proof -
  have "unat (of_nat k :: u64) = k" "unat (of_nat off :: u64) = off"
    using assms by (simp_all add: unat_of_nat)
  then have "unat (of_nat k - of_nat off :: u64) = (if off \<le> k then k - off else k + 2 ^ 64 - off)"
    by (simp add: unat_sub_if')
  moreover have "base_at q k - base_at q off = of_nat k - of_nat off" by (simp add: base_at_def)
  ultimately show ?thesis using assms by (auto simp: poke_def)
qed

lemma peek_base: "peek m (base_at q n) len = map (\<lambda>i. m (base_at q (n + i))) [0..<len]"
  by (simp add: peek_def base_at_add)

lemma map_nth_upt: "length bs = len \<Longrightarrow> (\<And>i. i < len \<Longrightarrow> f i = bs ! i) \<Longrightarrow> map f [0..<len] = bs"
  by (intro nth_equalityI) simp_all

lemma peek_poke_same:
  assumes "off + length bs \<le> 2 ^ 64" "off < 2 ^ 64" "length bs = n"
  shows "peek (poke (base_at q off) bs m) (base_at q off) n = bs"
  unfolding peek_base by (rule map_nth_upt) (use assms in \<open>simp_all add: poke_base\<close>)

lemma peek_poke_other:
  assumes "off + length bs \<le> 2 ^ 64" "off < 2 ^ 64" "k + n \<le> 2 ^ 64" "k + n \<le> off \<or> off + length bs \<le> k"
  shows "peek (poke (base_at q off) bs m) (base_at q k) n = peek m (base_at q k) n"
  unfolding peek_base by (rule map_cong) (use assms in \<open>auto simp: poke_base\<close>)

section \<open>Memory that keeps what is stored\<close>

text \<open>A platform whose mapped memory is memory: a load gives what the last stores left, and changes
  nothing.\<close>

definition ram :: "'w platform \<Rightarrow> ('w \<Rightarrow> u64 \<Rightarrow> u8) \<Rightarrow> bool" where
  "ram K mem \<longleftrightarrow> (\<forall>a n w. fst (os_load K a n w) = peek (mem w) a n \<and> mem (snd (os_load K a n w)) = mem w) \<and>
     (\<forall>a bs w. mem (os_store K a bs w) = poke a bs (mem w))"

lemma ramD:
  assumes "ram K mem"
  shows "fst (os_load K a n w) = peek (mem w) a n" "mem (snd (os_load K a n w)) = mem w"
    "mem (os_store K a bs w) = poke a bs (mem w)"
  using assms by (simp_all add: ram_def)

lemma ram_demo: "ram demo dw_mem"
  by (simp add: ram_def peek_def poke_def fun_eq_iff demo_load_def demo_store_def)

end
