(* ===== verification/Ocxl_Ring.thy ===== *)
theory Ocxl_Ring
  imports Main
begin

text \<open>
  The contract of a ring of slots into which elements are put one after the other. The state
  knows how many elements have been put; element \<open>n\<close> goes to slot \<open>n mod cap\<close> and is
  stored with the number of its lap, \<open>n div cap\<close>. From that, a ring holds the last
  \<open>cap\<close> elements, each in its place.
\<close>

locale ring_writer =
  fixes cap :: nat
    and inv :: "nat \<Rightarrow> 's \<Rightarrow> bool"
    and put :: "'e \<Rightarrow> 's \<Rightarrow> 's"
    and slot :: "'s \<Rightarrow> nat \<Rightarrow> 'v"
    and tagged :: "nat \<Rightarrow> 'e \<Rightarrow> 'v"
  assumes cap_pos: "0 < cap"
    and put_inv: "inv n s \<Longrightarrow> inv (Suc n) (put e s)"
    and put_slot: "inv n s \<Longrightarrow> slot (put e s) (n mod cap) = tagged (n div cap) e"
    and put_other: "inv n s \<Longrightarrow> i < cap \<Longrightarrow> i \<noteq> n mod cap \<Longrightarrow> slot (put e s) i = slot s i"
begin

lemma puts_inv: "inv 0 s \<Longrightarrow> inv (length es) (fold put es s)"
  by (induction es rule: rev_induct) (simp_all add: put_inv)

lemma window_distinct:
  assumes "j < n" "n < j + cap"
  shows "j mod cap \<noteq> n mod cap"
proof
  assume "j mod cap = n mod cap"
  then have "cap dvd n - j" using assms(1) by (metis mod_eq_dvd_iff_nat nat_less_le)
  with assms show False by (auto dest: dvd_imp_le)
qed

lemma puts_window:
  assumes "inv 0 s" "j < length es" "length es \<le> j + cap"
  shows "slot (fold put es s) (j mod cap) = tagged (j div cap) (es ! j)"
  using assms(2,3)
proof (induction es rule: rev_induct)
  case Nil
  then show ?case by simp
next
  case (snoc e es)
  have i: "inv (length es) (fold put es s)" by (rule puts_inv [OF assms(1)])
  show ?case
  proof (cases "j = length es")
    case True
    with put_slot [OF i] show ?thesis by simp
  next
    case False
    with snoc.prems have j: "j < length es" "length es < j + cap" by simp_all
    with put_other [OF i _ window_distinct [OF j]] cap_pos snoc.IH show ?thesis
      by (simp add: nth_append)
  qed
qed

text \<open>Elements put into the same slot carry consecutive laps.\<close>

lemma next_lap: "(n + cap) mod cap = n mod cap" "(n + cap) div cap = Suc (n div cap)"
  using cap_pos by (simp_all add: div_add_self2)

end

end
