(* ===== verification/Memcpy_Queue.thy ===== *)
theory Memcpy_Queue
  imports Ocxl_Memory Ocxl_Ring
begin

text \<open>
  The work queue of the memcpy accelerator, as both programs that drive it have it
  (\<open>src/samples/memcpy/memcpy.c\<close> and \<open>src/afutests/memcpy/ocxl_memcpy.c\<close>): the layout
  of a work element, the encodings of a command and of the work element descriptor, and the
  ring into which elements are added. The ring lies in memory shared with the accelerator; a
  pointer into it is an address.
\<close>

section \<open>Work elements\<close>

definition CACHELINESIZE :: nat where "CACHELINESIZE = 128"

definition QUEUE_SIZE :: nat where "QUEUE_SIZE = 4095 * CACHELINESIZE"

definition MEMCPY_WED :: "u64 \<Rightarrow> u64 \<Rightarrow> u64" where
  "MEMCPY_WED queue depth = (queue AND 0xfffffffffffff000) OR (depth AND 0xfff)"

definition MEMCPY_WE_CMD :: "u8 \<Rightarrow> u8 \<Rightarrow> u8" where
  "MEMCPY_WE_CMD valid cmd = (valid AND 0x1) OR push_bit 2 (cmd AND 0x3f)"

definition MEMCPY_WE_CMD_VALID :: u8 where "MEMCPY_WE_CMD_VALID = 1"

definition MEMCPY_WE_CMD_WRAP :: u8 where "MEMCPY_WE_CMD_WRAP = 2"

definition MEMCPY_WE_CMD_COPY :: u8 where "MEMCPY_WE_CMD_COPY = 0"

definition MEMCPY_WE_CMD_IRQ :: u8 where "MEMCPY_WE_CMD_IRQ = 1"

definition MEMCPY_WE_CMD_STOP :: u8 where "MEMCPY_WE_CMD_STOP = 2"

definition MEMCPY_WE_CMD_WAKE_HOST_THREAD :: u8 where "MEMCPY_WE_CMD_WAKE_HOST_THREAD = 3"

definition MEMCPY_WE_CMD_INCREMENT :: u8 where "MEMCPY_WE_CMD_INCREMENT = 4"

definition MEMCPY_WE_CMD_ATOMIC :: u8 where "MEMCPY_WE_CMD_ATOMIC = 5"

definition MEMCPY_AFU_GLOBAL_CFG :: u64 where "MEMCPY_AFU_GLOBAL_CFG = 0"

definition MEMCPY_AFU_GLOBAL_TRACE :: u64 where "MEMCPY_AFU_GLOBAL_TRACE = 0x20"

definition MEMCPY_AFU_PP_WED :: u64 where "MEMCPY_AFU_PP_WED = 0"

definition MEMCPY_AFU_PP_STATUS :: u64 where "MEMCPY_AFU_PP_STATUS = 0x10"

definition MEMCPY_AFU_PP_STATUS_Stopped :: u64 where "MEMCPY_AFU_PP_STATUS_Stopped = 0x10"

definition MEMCPY_AFU_PP_CTRL :: u64 where "MEMCPY_AFU_PP_CTRL = 0x18"

definition MEMCPY_AFU_PP_CTRL_Restart :: u64 where "MEMCPY_AFU_PP_CTRL_Restart = 1"

definition MEMCPY_AFU_PP_IRQ :: u64 where "MEMCPY_AFU_PP_IRQ = 0x28"

text \<open>\<open>length\<close> and \<open>tid\<close> are the two names of one field.\<close>

record memcpy_work_element =
  we_cmd :: u8
  we_status :: u8
  we_length :: u16
  we_cmd_extra :: u8
  we_atomic_op :: u64
  we_src :: u64
  we_dst :: u64

text \<open>\<open>memset(&we, 0, sizeof(we))\<close>\<close>

definition zero_we :: memcpy_work_element where
  "zero_we = \<lparr>we_cmd = 0, we_status = 0, we_length = 0, we_cmd_extra = 0, we_atomic_op = 0,
     we_src = 0, we_dst = 0\<rparr>"

definition sizeof_work_element :: nat where "sizeof_work_element = 32"

record memcpy_weq =
  weq_queue :: u64
  weq_next :: u64
  weq_last :: u64
  weq_wrap :: u8
  weq_count :: int

definition memcpy3_queue_length :: "nat \<Rightarrow> int" where
  "memcpy3_queue_length queue_size = int (queue_size div sizeof_work_element)"

definition memcpy3_init_weq :: "'w platform \<Rightarrow> 'w host \<Rightarrow> nat \<Rightarrow> ('w, memcpy_weq) prog" where
  "memcpy3_init_weq K H queue_size = do {
     queue \<leftarrow> sys (h_aligned_alloc H (h_getpagesize H) queue_size);
     c_memset K queue 0 queue_size;
     State_Monad.return \<lparr>weq_queue = queue, weq_next = queue,
       weq_last = queue + of_int (memcpy3_queue_length queue_size - 1) * of_nat sizeof_work_element,
       weq_wrap = 0, weq_count = 0\<rparr>
   }"

definition memcpy3_add_we ::
  "'w platform \<Rightarrow> memcpy_weq \<Rightarrow> memcpy_work_element \<Rightarrow> ('w, u64 \<times> memcpy_weq) prog" where
  "memcpy3_add_we K weq we = do {
     let new_we = weq_next weq;
     do_store K (new_we + 1) [we_status we];
     do_store K (new_we + 2) (native_bytes K 2 (we_length we));
     do_store K (new_we + 4) [we_cmd_extra we];
     do_store K (new_we + 8) (native_bytes K 8 (we_atomic_op we));
     do_store K (new_we + 16) (native_bytes K 8 (we_src we));
     do_store K (new_we + 24) (native_bytes K 8 (we_dst we));
     do_store K new_we [(we_cmd we AND NOT MEMCPY_WE_CMD_WRAP) OR weq_wrap weq];
     let nxt = new_we + of_nat sizeof_work_element;
     State_Monad.return (new_we,
       if nxt > weq_last weq
       then weq\<lparr>weq_wrap := weq_wrap weq XOR MEMCPY_WE_CMD_WRAP, weq_next := weq_queue weq\<rparr>
       else weq\<lparr>weq_next := nxt\<rparr>)
   }"

text \<open>\<open>element->cmd |= MEMCPY_WE_CMD_VALID\<close> and \<open>element->status\<close>\<close>

definition set_valid :: "'w platform \<Rightarrow> u64 \<Rightarrow> ('w, unit) prog" where
  "set_valid K p = do { c \<leftarrow> load8 K p; do_store K p [c OR MEMCPY_WE_CMD_VALID] }"

definition we_status_at :: "'w platform \<Rightarrow> u64 \<Rightarrow> ('w, u8) prog" where
  "we_status_at K p = load8 K (p + 1)"

definition htole16 :: "'w platform \<Rightarrow> u16 \<Rightarrow> u16" where
  "htole16 K v = (if host_little_endian K then v else push_bit 8 v OR drop_bit 8 v)"

lemma quiet_queue [quiet_intros]:
  "quiet (memcpy3_init_weq K H n)" "quiet (memcpy3_add_we K weq we)" "quiet (set_valid K p)"
  "quiet (we_status_at K p)"
  unfolding memcpy3_init_weq_def memcpy3_add_we_def set_valid_def we_status_at_def
  by (intro quiet_intros)+

declare quiet_queue [THEN uses_quiet, uses_intros]

section \<open>The elements in memory\<close>

definition we_at :: "'w platform \<Rightarrow> (u64 \<Rightarrow> u8) \<Rightarrow> u64 \<Rightarrow> memcpy_work_element" where
  "we_at K m p = \<lparr>we_cmd = m p, we_status = m (p + 1), we_length = native_word K (peek m (p + 2) 2),
     we_cmd_extra = m (p + 4), we_atomic_op = native_word K (peek m (p + 8) 8),
     we_src = native_word K (peek m (p + 16) 8), we_dst = native_word K (peek m (p + 24) 8)\<rparr>"

definition we_stores :: "'w platform \<Rightarrow> u64 \<Rightarrow> u8 \<Rightarrow> memcpy_work_element \<Rightarrow> call list" where
  "we_stores K p wrap we =
     [CStore (p + 1) [we_status we], CStore (p + 2) (native_bytes K 2 (we_length we)),
      CStore (p + 4) [we_cmd_extra we], CStore (p + 8) (native_bytes K 8 (we_atomic_op we)),
      CStore (p + 16) (native_bytes K 8 (we_src we)), CStore (p + 24) (native_bytes K 8 (we_dst we)),
      CStore p [(we_cmd we AND NOT MEMCPY_WE_CMD_WRAP) OR wrap]]"

lemma we_byte:
  assumes "n + 32 \<le> 2 ^ 64" "k < 2 ^ 64"
  shows "mem_image (we_stores K (base_at q n) wrap we) m (base_at q k) =
    (if k = n then (we_cmd we AND NOT MEMCPY_WE_CMD_WRAP) OR wrap
     else if k = n + 1 then we_status we
     else if n + 2 \<le> k \<and> k < n + 4 then native_bytes K 2 (we_length we) ! (k - (n + 2))
     else if k = n + 4 then we_cmd_extra we
     else if n + 8 \<le> k \<and> k < n + 16 then native_bytes K 8 (we_atomic_op we) ! (k - (n + 8))
     else if n + 16 \<le> k \<and> k < n + 24 then native_bytes K 8 (we_src we) ! (k - (n + 16))
     else if n + 24 \<le> k \<and> k < n + 32 then native_bytes K 8 (we_dst we) ! (k - (n + 24))
     else m (base_at q k))"
  using assms by (simp add: we_stores_def base_at_fields poke_base)

lemma we_frame:
  assumes "n + 32 \<le> 2 ^ 64" "k < 2 ^ 64" "k < n \<or> n + 32 \<le> k"
  shows "mem_image (we_stores K (base_at q n) wrap we) m (base_at q k) = m (base_at q k)"
  using assms by (subst we_byte) auto

text \<open>The element that is read back is the one that was written, with the wrap bit of the queue.\<close>

definition wrapped :: "u8 \<Rightarrow> memcpy_work_element \<Rightarrow> memcpy_work_element" where
  "wrapped wrap we = we\<lparr>we_cmd := (we_cmd we AND NOT MEMCPY_WE_CMD_WRAP) OR wrap\<rparr>"

lemma we_at_base:
  "we_at K m (base_at q n) = \<lparr>we_cmd = m (base_at q n), we_status = m (base_at q (n + 1)),
     we_length = native_word K (map (\<lambda>i. m (base_at q (n + 2 + i))) [0..<2]),
     we_cmd_extra = m (base_at q (n + 4)),
     we_atomic_op = native_word K (map (\<lambda>i. m (base_at q (n + 8 + i))) [0..<8]),
     we_src = native_word K (map (\<lambda>i. m (base_at q (n + 16 + i))) [0..<8]),
     we_dst = native_word K (map (\<lambda>i. m (base_at q (n + 24 + i))) [0..<8])\<rparr>"
  by (simp add: we_at_def base_at_fields peek_base)

lemma native_word_u16: "native_word K (native_bytes K 2 v) = (v :: u16)"
  by (simp add: native_word_def native_bytes_def word_of_le_bytes_le)

lemma we_at_written:
  assumes "n + 32 \<le> 2 ^ 64"
  shows "we_at K (mem_image (we_stores K (base_at q n) wrap we) m) (base_at q n) = wrapped wrap we"
proof -
  let ?m = "mem_image (we_stores K (base_at q n) wrap we) m"
  have "map (\<lambda>i. ?m (base_at q (n + 2 + i))) [0..<2] = native_bytes K 2 (we_length we)"
    by (rule map_nth_upt) (use assms in \<open>simp_all add: we_byte\<close>)
  moreover have "map (\<lambda>i. ?m (base_at q (n + 8 + i))) [0..<8] = native_bytes K 8 (we_atomic_op we)"
    by (rule map_nth_upt) (use assms in \<open>simp_all add: we_byte\<close>)
  moreover have "map (\<lambda>i. ?m (base_at q (n + 16 + i))) [0..<8] = native_bytes K 8 (we_src we)"
    by (rule map_nth_upt) (use assms in \<open>simp_all add: we_byte\<close>)
  moreover have "map (\<lambda>i. ?m (base_at q (n + 24 + i))) [0..<8] = native_bytes K 8 (we_dst we)"
    by (rule map_nth_upt) (use assms in \<open>simp_all add: we_byte\<close>)
  moreover have "?m (base_at q (n + 1)) = we_status we" "?m (base_at q (n + 4)) = we_cmd_extra we"
    "?m (base_at q n) = (we_cmd we AND NOT MEMCPY_WE_CMD_WRAP) OR wrap"
    using assms by (simp_all add: we_byte)
  ultimately show ?thesis by (simp only: we_at_base) (simp add: wrapped_def native_word_native_bytes native_word_u16)
qed

lemma we_at_frame:
  assumes "n + 32 \<le> 2 ^ 64" "k + 32 \<le> 2 ^ 64" "k + 32 \<le> n \<or> n + 32 \<le> k"
  shows "we_at K (mem_image (we_stores K (base_at q n) wrap we) m) (base_at q k) = we_at K m (base_at q k)"
proof -
  let ?m = "mem_image (we_stores K (base_at q n) wrap we) m"
  have byte: "?m (base_at q (k + i)) = m (base_at q (k + i))" if "i < 32" for i
    using that assms by (intro we_frame) auto
  have field: "map (\<lambda>i. ?m (base_at q (k + off + i))) [0..<len] = map (\<lambda>i. m (base_at q (k + off + i))) [0..<len]"
    if "off + len \<le> 32" for off len
    using that by (intro map_cong refl) (simp add: add.assoc byte)
  from field [of 2 2] field [of 8 8] field [of 16 8] field [of 24 8] byte [of 0] byte [of 1] byte [of 4]
  show ?thesis by (simp only: we_at_base add_0_right)
qed

section \<open>The queue as a ring\<close>

definition weq_cap :: nat where "weq_cap = nat (memcpy3_queue_length QUEUE_SIZE)"

lemma weq_cap_value: "weq_cap = 16380"
  by (simp add: weq_cap_def memcpy3_queue_length_def QUEUE_SIZE_def CACHELINESIZE_def sizeof_work_element_def)

definition weq_step :: "memcpy_weq \<Rightarrow> memcpy_weq" where
  "weq_step weq =
     (let nxt = weq_next weq + of_nat sizeof_work_element in
      if nxt > weq_last weq
      then weq\<lparr>weq_wrap := weq_wrap weq XOR MEMCPY_WE_CMD_WRAP, weq_next := weq_queue weq\<rparr>
      else weq\<lparr>weq_next := nxt\<rparr>)"

lemma add_we_spec:
  "wp (memcpy3_add_we K weq we) (\<lambda>(p, weq') s'. p = weq_next weq \<and> weq' = weq_step weq \<and>
     calls s' = calls s @ we_stores K p (weq_wrap weq) we \<and> ub s' = ub s) s"
  by (simp add: memcpy3_add_we_def Let_def wp_simps wp_call weq_step_def we_stores_def)

definition ring_inv :: "u64 \<Rightarrow> nat \<Rightarrow> memcpy_weq \<times> 'w st \<Rightarrow> bool" where
  "ring_inv q n x \<longleftrightarrow> unat q + 32 * weq_cap < 2 ^ 64 \<and> weq_queue (fst x) = q \<and>
     weq_next (fst x) = base_at q (32 * (n mod weq_cap)) \<and>
     weq_last (fst x) = base_at q (32 * (weq_cap - 1)) \<and>
     weq_wrap (fst x) = (if odd (n div weq_cap) then MEMCPY_WE_CMD_WRAP else 0)"

definition ring_put :: "'w platform \<Rightarrow> memcpy_work_element \<Rightarrow> memcpy_weq \<times> 'w st \<Rightarrow> memcpy_weq \<times> 'w st" where
  "ring_put K we x = (case run_state (memcpy3_add_we K (fst x) we) (snd x) of ((p, weq'), s') \<Rightarrow> (weq', s'))"

definition ring_slot ::
  "'w platform \<Rightarrow> u64 \<Rightarrow> (u64 \<Rightarrow> u8) \<Rightarrow> memcpy_weq \<times> 'w st \<Rightarrow> nat \<Rightarrow> memcpy_work_element" where
  "ring_slot K q m x i = we_at K (mem_image (calls (snd x)) m) (base_at q (32 * i))"

definition lapped :: "nat \<Rightarrow> memcpy_work_element \<Rightarrow> memcpy_work_element" where
  "lapped lap we = wrapped (if odd lap then MEMCPY_WE_CMD_WRAP else 0) we"

lemma ring_put_eq:
  "fst (ring_put K we x) = weq_step (fst x)"
  "calls (snd (ring_put K we x)) = calls (snd x) @ we_stores K (weq_next (fst x)) (weq_wrap (fst x)) we"
  using add_we_spec [of K "fst x" we "snd x"]
  by (auto simp: ring_put_def wp_def split: prod.splits)

lemma unat_base_at: "unat q + n < 2 ^ 64 \<Longrightarrow> unat (base_at q n) = unat q + n"
  by (simp add: base_at_def unat_word_ariths unat_of_nat)

lemma weq_step_ring:
  assumes "ring_inv q n x"
  shows "weq_step (fst x) = (fst x)\<lparr>weq_next := base_at q (32 * (Suc n mod weq_cap)),
     weq_wrap := (if odd (Suc n div weq_cap) then MEMCPY_WE_CMD_WRAP else 0)\<rparr>"
proof -
  have m: "n mod weq_cap < weq_cap" by (simp add: weq_cap_value)
  have nxt: "weq_next (fst x) + of_nat sizeof_work_element = base_at q (32 * (n mod weq_cap) + 32)"
    using assms by (simp add: ring_inv_def base_at_def sizeof_work_element_def)
  have q: "unat q + 32 * weq_cap < 2 ^ 64" using assms by (simp add: ring_inv_def)
  have "unat (base_at q (32 * (n mod weq_cap) + 32)) = unat q + (32 * (n mod weq_cap) + 32)"
    "unat (base_at q (32 * (weq_cap - 1))) = unat q + 32 * (weq_cap - 1)"
    using q m by (intro unat_base_at; linarith)+
  then have gt: "base_at q (32 * (n mod weq_cap) + 32) > base_at q (32 * (weq_cap - 1)) \<longleftrightarrow>
      Suc (n mod weq_cap) = weq_cap"
    using m by (auto simp: word_less_nat_alt)
  have last: "weq_last (fst x) = base_at q (32 * (weq_cap - 1))" "weq_queue (fst x) = base_at q 0"
    and wrap: "weq_wrap (fst x) = (if odd (n div weq_cap) then MEMCPY_WE_CMD_WRAP else 0)"
    using assms by (simp_all add: ring_inv_def base_at_def)
  show ?thesis
    unfolding weq_step_def nxt Let_def last gt mod_Suc div_Suc
    using wrap by (cases "fst x") (auto simp: MEMCPY_WE_CMD_WRAP_def add.commute)
qed

interpretation wq: ring_writer weq_cap "ring_inv q" "ring_put K" "ring_slot K q m" lapped for K q m
proof
  show "0 < weq_cap" by (simp add: weq_cap_value)
  fix n i and x :: "memcpy_weq \<times> 'a st" and e
  assume x: "ring_inv q n x"
  have n: "n mod weq_cap < weq_cap" by (simp add: weq_cap_value)
  then have lim: "32 * (n mod weq_cap) + 32 \<le> 2 ^ 64" by (simp add: weq_cap_value)
  show "ring_inv q (Suc n) (ring_put K e x)"
    using x by (simp add: ring_inv_def [of q "Suc n"] ring_put_eq weq_step_ring [OF x]) (simp add: ring_inv_def)
  show "ring_slot K q m (ring_put K e x) (n mod weq_cap) = lapped (n div weq_cap) e"
    using x we_at_written [OF lim, of K q "weq_wrap (fst x)" e "mem_image (calls (snd x)) m"]
    by (simp add: ring_slot_def ring_put_eq mem_image_append lapped_def ring_inv_def)
  assume i: "i < weq_cap" "i \<noteq> n mod weq_cap"
  then have "32 * i + 32 \<le> 32 * (n mod weq_cap) \<or> 32 * (n mod weq_cap) + 32 \<le> 32 * i" by auto
  moreover have "32 * i + 32 \<le> 2 ^ 64" using i by (simp add: weq_cap_value)
  ultimately show "ring_slot K q m (ring_put K e x) i = ring_slot K q m x i"
    using x we_at_frame [OF lim, of "32 * i" K q "weq_wrap (fst x)" e "mem_image (calls (snd x)) m"]
    by (simp add: ring_slot_def ring_put_eq mem_image_append ring_inv_def)
qed

section \<open>Properties\<close>

primrec add_wes ::
  "'w platform \<Rightarrow> memcpy_weq \<Rightarrow> memcpy_work_element list \<Rightarrow> ('w, memcpy_weq) prog" where
  "add_wes K weq [] = State_Monad.return weq"
| "add_wes K weq (we # wes) = do { (p, weq) \<leftarrow> memcpy3_add_we K weq we; add_wes K weq wes }"

lemma add_wes_fold: "run_state (add_wes K weq wes) s = fold (ring_put K) wes (weq, s)"
  by (induction wes arbitrary: weq s) (simp_all add: ring_put_def State_Monad.bind_def split: prod.splits)

text \<open>The queue \<open>memcpy3_init_weq\<close> makes in a block at \<open>q\<close> (\<open>init_weq_fresh\<close>), all of it 0.\<close>

definition fresh_weq :: "u64 \<Rightarrow> memcpy_weq" where
  "fresh_weq q = \<lparr>weq_queue = q, weq_next = q,
     weq_last = q + of_int (memcpy3_queue_length QUEUE_SIZE - 1) * of_nat sizeof_work_element,
     weq_wrap = 0, weq_count = 0\<rparr>"

lemma init_weq_fresh:
  "wp (memcpy3_init_weq K H QUEUE_SIZE) (\<lambda>weq s'.
     weq = fresh_weq (fst (h_aligned_alloc H (h_getpagesize H) QUEUE_SIZE (wld s))) \<and>
     mem_image (calls s') m = poke (weq_queue weq) (replicate QUEUE_SIZE 0) (mem_image (calls s) m)) s"
  by (auto simp: memcpy3_init_weq_def fresh_weq_def c_memset_def mem_image_append wp_simps wp_call split: prod.splits)

lemma ring_inv_fresh:
  assumes "unat q + 524160 < 2 ^ 64"
  shows "ring_inv q 0 (fresh_weq q, s)"
  using assms
  by (simp add: ring_inv_def fresh_weq_def base_at_def weq_cap_value memcpy3_queue_length_def
      QUEUE_SIZE_def CACHELINESIZE_def sizeof_work_element_def)

text \<open>C5: the work queue implements an unbounded sequence of work elements in a ring of 16380
  slots. After any number of additions to a fresh queue, the next slot and the wrap bit are
  those of the number of additions; each of the last 16380 elements can be read back from
  memory, in the slot of its number, with every field as it was given and the wrap bit equal
  to the parity of its lap, so that an element is never mistaken for the one the slot held a
  lap before.\<close>

theorem work_queue_refines:
  assumes "unat q + 524160 < 2 ^ 64"
  shows "wp (add_wes K (fresh_weq q) wes) (\<lambda>weq s'.
     weq_next weq = q + of_nat (32 * (length wes mod 16380)) \<and>
     (weq_wrap weq = MEMCPY_WE_CMD_WRAP) = odd (length wes div 16380) \<and>
     (\<forall>j < length wes. length wes \<le> j + 16380 \<longrightarrow>
        we_at K (mem_image (calls s') m) (q + of_nat (32 * (j mod 16380))) =
          (wes ! j)\<lparr>we_cmd := (we_cmd (wes ! j) AND NOT MEMCPY_WE_CMD_WRAP) OR
             (if odd (j div 16380) then MEMCPY_WE_CMD_WRAP else 0)\<rparr>)) s"
proof -
  let ?x = "fold (ring_put K) wes (fresh_weq q, s)"
  have i: "ring_inv q 0 (fresh_weq q, s)" by (rule ring_inv_fresh [OF assms])
  have "ring_inv q (length wes) ?x" by (rule wq.puts_inv [OF i])
  moreover have "ring_slot K q m ?x (j mod weq_cap) = lapped (j div weq_cap) (wes ! j)"
    if "j < length wes" "length wes \<le> j + weq_cap" for j
    using wq.puts_window [OF i that] .
  ultimately show ?thesis
    unfolding wp_iff add_wes_fold ring_inv_def ring_slot_def lapped_def wrapped_def base_at_def weq_cap_value
    by (auto simp: MEMCPY_WE_CMD_WRAP_def)
qed

theorem work_queue_refines_witness:
  "wp (add_wes demo (fresh_weq 0x10000) [zero_we\<lparr>we_cmd := 3\<rparr>, zero_we\<lparr>we_src := 7\<rparr>]) (\<lambda>weq s'.
     weq_next weq = 0x10040 \<and> we_src (we_at demo (mem_image (calls s') (\<lambda>_. 0)) 0x10020) = 7) demo_state"
  by (rule wp_mono [OF work_queue_refines [of "0x10000", where m = "\<lambda>_. 0"]]) (auto dest!: spec [of _ "1::nat"])

lemma poke_cmd_kept:
  assumes "0 < k" "k + length bs \<le> 32"
  shows "poke (p + of_nat k) bs m p = m p"
  using poke_base [of k bs 0 p m] assms by (simp add: base_at_def)

lemma cmd_kept:
  assumes "k < 7"
  shows "mem_image (take k (we_stores K p wrap we)) m p = m p"
proof -
  have "poke (p + 1) [x] m' p = m' p" "poke (p + 2) (native_bytes K 2 y) m' p = m' p"
    "poke (p + 4) [x] m' p = m' p" "poke (p + 8) (native_bytes K 8 z) m' p = m' p"
    "poke (p + 16) (native_bytes K 8 z) m' p = m' p" "poke (p + 24) (native_bytes K 8 z) m' p = m' p"
    for m' x and y :: u16 and z :: u64
    using poke_cmd_kept [of 1 "[x]" p m'] poke_cmd_kept [of 2 "native_bytes K 2 y" p m']
      poke_cmd_kept [of 4 "[x]" p m'] poke_cmd_kept [of 8 "native_bytes K 8 z" p m']
      poke_cmd_kept [of 16 "native_bytes K 8 z" p m'] poke_cmd_kept [of 24 "native_bytes K 8 z" p m']
    by simp_all
  moreover have "k \<in> {0, 1, 2, 3, 4, 5, 6}" using assms by auto
  ultimately show ?thesis by (auto simp: we_stores_def numeral_eq_Suc)
qed

text \<open>An element is published last. Adding an element makes seven stores; whatever number of
  them the accelerator has seen, it sees the old command byte until it has seen them all, and
  then it sees the whole new element.\<close>

lemma add_we_publishes_last:
  "wp (memcpy3_add_we K weq we) (\<lambda>(p, weq') s'. p = weq_next weq \<and> ub s' = ub s \<and>
     (\<exists>cs. calls s' = calls s @ cs \<and> length cs = 7 \<and>
        (\<forall>k m. if k < 7 then mem_image (take k cs) m p = m p
           else we_at K (mem_image (take k cs) m) p =
             we\<lparr>we_cmd := (we_cmd we AND NOT MEMCPY_WE_CMD_WRAP) OR weq_wrap weq\<rparr>))) s"
proof -
  have "we_at K (mem_image (we_stores K p wrap we) m) p = wrapped wrap we" for p m wrap
    using we_at_written [of 0 K p wrap we m] by (simp add: base_at_def)
  moreover have "length (we_stores K p wrap we) = 7" for p wrap by (simp add: we_stores_def)
  ultimately show ?thesis
    by (intro wp_mono [OF add_we_spec]) (auto simp: cmd_kept wrapped_def)
qed

text \<open>The work element descriptor and the command byte are encodings: a page-aligned queue
  address and a depth below 4096 can be read back from the descriptor, and the valid bit, the
  wrap bit (clear) and the command from the command byte.\<close>

lemma wed_and_command_fields:
  assumes "take_bit 12 queue = 0" "depth < 4096" "cmd < 64"
  shows "MEMCPY_WED queue depth AND NOT 0xfff = queue \<and> MEMCPY_WED queue depth AND 0xfff = depth \<and>
    drop_bit 2 (MEMCPY_WE_CMD valid cmd) = cmd \<and>
    bit (MEMCPY_WE_CMD valid cmd) 0 = bit valid 0 \<and> \<not> bit (MEMCPY_WE_CMD valid cmd) 1"
proof -
  have masks: "(0xfff :: u64) = mask 12" "(0xfffffffffffff000 :: u64) = NOT (mask 12)"
    "(0x3f :: u8) = mask 6" "(1 :: u8) = mask 1"
    by (simp_all add: mask_eq_exp_minus_1 not_eq_complement)
  have d: "take_bit 12 depth = depth"
    using assms(2) by (simp add: word_unat_eq_iff unsigned_take_bit_eq word_less_nat_alt take_bit_nat_eq_self)
  have c: "take_bit 6 cmd = cmd" using assms(3) by (simp add: word_unat_eq_iff unsigned_take_bit_eq word_less_nat_alt take_bit_nat_eq_self)
  have q: "\<not> bit queue i" if "i < 12" for i
    using arg_cong [OF assms(1), of "\<lambda>x. bit x i"] that by (simp add: bit_take_bit_iff)
  have d': "bit depth i \<Longrightarrow> i < 12" for i using arg_cong [OF d, of "\<lambda>x. bit x i"] by (auto simp: bit_take_bit_iff)
  have c': "bit cmd i \<Longrightarrow> i < 6" for i using arg_cong [OF c, of "\<lambda>x. bit x i"] by (auto simp: bit_take_bit_iff)
  show ?thesis
    unfolding MEMCPY_WED_def MEMCPY_WE_CMD_def masks
    using q d' c'
    by (intro conjI bit_word_eqI)
      (auto simp: bit_simps bit_mask_iff dest: bit_imp_le_length)
qed

end
