(* ===== verification/Ocxl_Getopt.thy ===== *)
theory Ocxl_Getopt
  imports Ocxl_CString
begin

text \<open>
  Command lines, as the programs beside the library read them: \<open>getopt\<close> with an option
  string that starts with \<open>+\<close> (scanning stops at the first argument that is not an
  option) and \<open>atoi\<close>. The options are given as the list of their letters, each with
  whether it takes an argument; a letter that is not listed, or an argument that is missing,
  gives the option \<open>?\<close>.
\<close>

function getopt :: "(char \<times> bool) list \<Rightarrow> string list \<Rightarrow> string \<Rightarrow> (char \<times> string) list \<times> string list" where
  "getopt spec [] [] = ([], [])"
| "getopt spec (a # as) [] =
     (if a = ''--'' then ([], as)
      else if 2 \<le> length a \<and> hd a = CHR ''-'' then getopt spec as (tl a)
      else ([], a # as))"
| "getopt spec as (c # cs) =
     (case map_of spec c of
        None \<Rightarrow> apfst (Cons (CHR ''?'', [])) (getopt spec as cs)
      | Some False \<Rightarrow> apfst (Cons (c, [])) (getopt spec as cs)
      | Some True \<Rightarrow>
          if cs \<noteq> [] then apfst (Cons (c, cs)) (getopt spec as [])
          else (case as of
                  [] \<Rightarrow> ([(CHR ''?'', [])], [])
                | b # bs \<Rightarrow> apfst (Cons (c, b)) (getopt spec bs [])))"
  by pat_completeness auto

termination getopt
  by (relation "measure (\<lambda>(spec, as, cs). sum_list (map length as) + length as + length cs)") auto

text \<open>\<open>strtol\<close> limits the value to the range of \<open>long\<close>; \<open>atoi\<close> keeps the low 32
  bits of it.\<close>

definition LONG_MAX :: int where "LONG_MAX = 2 ^ 63 - 1"

definition strtol10 :: "string \<Rightarrow> int" where
  "strtol10 s =
     (let t = dropWhile c_isspace s;
          neg = (t \<noteq> [] \<and> hd t = CHR ''-'');
          u = (if t \<noteq> [] \<and> (hd t = CHR ''-'' \<or> hd t = CHR ''+'') then tl t else t);
          v = int (value_of 10 (takeWhile (is_digit 10) u))
      in if neg then max (- v) (- LONG_MAX - 1) else min v LONG_MAX)"

definition atoi :: "string \<Rightarrow> int" where
  "atoi s = sint (of_int (strtol10 s) :: 32 word)"

lemma atoi_range: "- (2 ^ 31) \<le> atoi s \<and> atoi s < 2 ^ 31"
  using sint_range_size [of "of_int (strtol10 s) :: 32 word"] by (simp add: atoi_def word_size)

lemma getopt_letters:
  "(c, x) \<in> set (fst (getopt spec as cs)) \<Longrightarrow> c = CHR ''?'' \<or> c \<in> fst ` set spec"
proof (induction spec as cs rule: getopt.induct)
  case (3 spec as c' cs)
  then show ?case
    by (auto split: option.splits bool.splits if_splits list.splits dest: map_of_SomeD
        simp: image_iff) (metis fst_conv map_of_SomeD)+
qed (auto split: if_splits)

end
