(* ===== verification/Memcpy_Sample.thy ===== *)
theory Memcpy_Sample
  imports Memcpy_Queue Ocxl_Getopt
begin

text \<open>
  \<open>src/samples/memcpy/memcpy.c\<close>: the sample program, which opens the memcpy accelerator,
  queues one copy, waits for it by polling, by interrupt or by the Power 9 wait instruction,
  and compares the result. The definitions keep the functions of the file; \<open>afu_memcpy\<close> is
  cut at its comments into connecting, queueing and waiting.

  A loop that waits for the outside world takes fuel and gives \<open>None\<close> when it runs out;
  \<open>exit(n)\<close> and \<open>return n\<close> of \<open>main\<close> are the result \<open>n\<close>.
\<close>

section \<open>Setup\<close>

definition AFU_NAME :: string where "AFU_NAME = ''IBM,MEMCPY3''"

definition MEMCPY_SIZE :: nat where "MEMCPY_SIZE = 2048"

abbreviation LOG_ERR :: "string \<Rightarrow> farg list \<Rightarrow> ('w, unit) prog" where
  "LOG_ERR fmt args \<equiv> say Stderr (fmt @ nl) args"

abbreviation LOG_INF :: "string \<Rightarrow> farg list \<Rightarrow> ('w, unit) prog" where
  "LOG_INF fmt args \<equiv> say Stdout (fmt @ nl) args"

text \<open>True is failure.\<close>

definition global_setup :: "'w platform \<Rightarrow> ('w, bool) prog" where
  "global_setup K = do {
     (rc, global) \<leftarrow> ocxl_mmio_map K OCXL_GLOBAL_MMIO;
     if rc \<noteq> OCXL_OK then State_Monad.return True
     else do {
       (rc, cfg) \<leftarrow> ocxl_mmio_read64 K global MEMCPY_AFU_GLOBAL_CFG OCXL_MMIO_LITTLE_ENDIAN;
       if rc \<noteq> OCXL_OK then do {
         LOG_ERR ''Reading global config register failed'' [];
         State_Monad.return True
       } else do {
         LOG_INF ''AFU config = 0x%lx'' [FInt (uint (the cfg))];
         rc \<leftarrow> ocxl_mmio_write64 K global MEMCPY_AFU_GLOBAL_TRACE OCXL_MMIO_LITTLE_ENDIAN 0x8008008000000000;
         if rc \<noteq> OCXL_OK then do {
           LOG_ERR ''Writing trace register failed'' [];
           State_Monad.return True
         } else do {
           LOG_INF ''traces reset and rearmed'' [];
           State_Monad.return False
         }
       }
     }
   }"

definition restart_afu_if_stopped :: "'w platform \<Rightarrow> ocxl_mmio_h \<Rightarrow> ('w, bool) prog" where
  "restart_afu_if_stopped K pp_mmio = do {
     rc \<leftarrow> ocxl_mmio_write64 K pp_mmio MEMCPY_AFU_PP_CTRL OCXL_MMIO_LITTLE_ENDIAN MEMCPY_AFU_PP_CTRL_Restart;
     if rc \<noteq> OCXL_OK then do {
       LOG_ERR ''couldn't restart memcpy after interrupt'' [];
       State_Monad.return True
     } else State_Monad.return False
   }"

section \<open>Waiting\<close>

text \<open>One event: the result of \<open>wait_for_irq\<close>, or the issues collected so far.\<close>

definition handle_event ::
  "'w platform \<Rightarrow> ocxl_mmio_h \<Rightarrow> u64 \<Rightarrow> u64 \<Rightarrow> ocxl_event \<Rightarrow> int \<Rightarrow> ('w, int + int) prog" where
  "handle_event K pp_mmio irq_ea err_ea event ret =
     (case event of
        OCXL_EVENT_IRQ i \<Rightarrow>
          if irq_ea \<noteq> 0 \<and> ev_handle i = irq_ea then do {
            LOG_INF ''AFU completion interrupt received'' [];
            restart_afu_if_stopped K pp_mmio;
            State_Monad.return (Inl 0)
          } else if ev_handle i = err_ea then do {
            LOG_ERR ''AFU error interrupt received'' [];
            State_Monad.return (Inr (ret OR 0x01))
          } else State_Monad.return (Inr ret)
      | OCXL_EVENT_TRANSLATION_FAULT f \<Rightarrow> do {
          LOG_ERR ''Translation fault detected, addr=%p count=%lu''
            [FPtr (tf_addr f), FInt (uint (tf_count f))];
          State_Monad.return (Inr (ret OR 0x02))
        })"

fun irq_loop ::
  "'w platform \<Rightarrow> nat \<Rightarrow> int \<Rightarrow> ocxl_mmio_h \<Rightarrow> u64 \<Rightarrow> u64 \<Rightarrow> int \<Rightarrow> event_array \<Rightarrow> int \<Rightarrow>
   ('w, int option) prog" where
  "irq_loop K 0 timeout pp_mmio irq_ea err_ea check_timeout event ret = State_Monad.return None"
| "irq_loop K (Suc fuel) timeout pp_mmio irq_ea err_ea check_timeout event ret = do {
     r \<leftarrow> ocxl_afu_event_check K (Suc fuel) check_timeout event 1;
     (case r of
        None \<Rightarrow> State_Monad.return None
      | Some (event_count, event) \<Rightarrow>
          if event_count < 0 then State_Monad.return (Some 0x04)
          else if event_count = 0 then
            (if timeout \<noteq> 0 then do {
               LOG_ERR ''Timeout waiting for interrupt'' [];
               State_Monad.return (Some (ret OR 0x08))
             } else State_Monad.return (Some ret))
          else do {
            ev \<leftarrow> event_at event 0;
            h \<leftarrow> handle_event K pp_mmio irq_ea err_ea ev ret;
            (case h of
               Inl v \<Rightarrow> State_Monad.return (Some v)
             | Inr ret \<Rightarrow>
                 if event_count = 1 then irq_loop K fuel timeout pp_mmio irq_ea err_ea 0 event ret
                 else State_Monad.return (Some ret))
          })
   }"

definition wait_for_irq ::
  "'w platform \<Rightarrow> nat \<Rightarrow> int \<Rightarrow> ocxl_mmio_h \<Rightarrow> u64 \<Rightarrow> u64 \<Rightarrow> ('w, int option) prog" where
  "wait_for_irq K fuel timeout pp_mmio irq_ea err_ea = do {
     check_timeout \<leftarrow> int_mul timeout 1000;
     irq_loop K fuel timeout pp_mmio irq_ea err_ea check_timeout [None] 0
   }"

fun status_loop ::
  "'w platform \<Rightarrow> 'w host \<Rightarrow> nat \<Rightarrow> timeval \<Rightarrow> timeval \<Rightarrow> u64 \<Rightarrow> u64 \<Rightarrow> ('w, int option) prog" where
  "status_loop K H 0 test_timeout temp work_element err_ea = State_Monad.return None"
| "status_loop K H (Suc fuel) test_timeout temp work_element err_ea =
     (if timer_after temp test_timeout then do {
        LOG_ERR ''timeout polling for completion'' [];
        State_Monad.return (Some 0x08)
      } else do {
        r \<leftarrow> wait_for_irq K (Suc fuel) 0 None 0 err_ea;
        (case r of
           None \<Rightarrow> State_Monad.return None
         | Some ret \<Rightarrow>
             if ret \<noteq> 0 then State_Monad.return (Some ret)
             else do {
               status \<leftarrow> we_status_at K work_element;
               if status \<noteq> 0 then State_Monad.return (Some 0)
               else do {
                 temp \<leftarrow> gettimeofday H;
                 status_loop K H fuel test_timeout temp work_element err_ea
               }
             })
      })"

definition wait_for_status ::
  "'w platform \<Rightarrow> 'w host \<Rightarrow> nat \<Rightarrow> int \<Rightarrow> u64 \<Rightarrow> u64 \<Rightarrow> ('w, int option) prog" where
  "wait_for_status K H fuel timeout work_element err_ea = do {
     let temp = \<lparr>tv_sec = timeout, tv_usec = 0\<rparr>;
     now \<leftarrow> gettimeofday H;
     status_loop K H fuel (timeradd now temp) temp work_element err_ea
   }"

text \<open>The loop of \<open>wait_for_wake_host_thread\<close>: True when the status was set, False on a timeout.\<close>

fun wake_loop ::
  "'w platform \<Rightarrow> 'w host \<Rightarrow> nat \<Rightarrow> timeval \<Rightarrow> u64 \<Rightarrow> ('w, bool option) prog" where
  "wake_loop K H 0 test_timeout work_element = State_Monad.return None"
| "wake_loop K H (Suc fuel) test_timeout work_element = do {
     ocxl_wait H;
     status \<leftarrow> we_status_at K work_element;
     if status \<noteq> 0 then State_Monad.return (Some True)
     else do {
       temp \<leftarrow> gettimeofday H;
       if timer_after temp test_timeout then do {
         LOG_ERR ''timeout waiting for wake_host_thread'' [];
         State_Monad.return (Some False)
       } else wake_loop K H fuel test_timeout work_element
     }
   }"

definition wait_for_wake_host_thread ::
  "'w platform \<Rightarrow> 'w host \<Rightarrow> nat \<Rightarrow> int \<Rightarrow> ocxl_mmio_h \<Rightarrow> u64 \<Rightarrow> u64 \<Rightarrow> u64 \<Rightarrow> ('w, int option) prog" where
  "wait_for_wake_host_thread K H fuel timeout pp_mmio work_element irq_ea err_ea = do {
     now \<leftarrow> gettimeofday H;
     woken \<leftarrow> wake_loop K H fuel (timeradd now \<lparr>tv_sec = timeout, tv_usec = 0\<rparr>) work_element;
     (case woken of
        None \<Rightarrow> State_Monad.return None
      | Some True \<Rightarrow> State_Monad.return (Some 0)
      | Some False \<Rightarrow> do {
          r \<leftarrow> wait_for_irq K fuel 0 pp_mmio irq_ea err_ea;
          (case r of
             None \<Rightarrow> State_Monad.return None
           | Some ret \<Rightarrow> State_Monad.return (Some (if ret \<noteq> 0 then ret else 8)))
        })
   }"

fun fill_bytes :: "'w platform \<Rightarrow> u64 \<Rightarrow> nat list \<Rightarrow> ('w, unit) prog" where
  "fill_bytes K buf [] = skip"
| "fill_bytes K buf (i # is) = do { do_store K (buf + of_nat i) [of_nat i AND 0xff]; fill_bytes K buf is }"

definition fill_buffer :: "'w platform \<Rightarrow> u64 \<Rightarrow> nat \<Rightarrow> ('w, unit) prog" where
  "fill_buffer K buf sz = fill_bytes K buf [0..<sz]"

definition display_afu_status :: "'w platform \<Rightarrow> ocxl_mmio_h \<Rightarrow> ('w, unit) prog" where
  "display_afu_status K pp_mmio = do {
     (rc, v) \<leftarrow> ocxl_mmio_read64 K pp_mmio MEMCPY_AFU_PP_STATUS OCXL_MMIO_LITTLE_ENDIAN;
     let status = (case v of None \<Rightarrow> 0 | Some x \<Rightarrow> x);
     whenM (status \<noteq> 0) (LOG_INF ''AFU Status register is %lx'' [FInt (uint status)])
   }"

section \<open>The copy\<close>

text \<open>Attaching, mapping the registers, and telling the accelerator the error interrupt and the
  work element descriptor (lines 410 to 435).\<close>

definition memcpy_connect :: "'w platform \<Rightarrow> u64 \<Rightarrow> ('w, (ocxl_mmio_h \<times> u64) option) prog" where
  "memcpy_connect K wed = do {
     rc \<leftarrow> ocxl_afu_attach K 0;
     if rc \<noteq> OCXL_OK then State_Monad.return None
     else do {
       (rc, pp_mmio) \<leftarrow> ocxl_mmio_map K OCXL_PER_PASID_MMIO;
       if rc \<noteq> OCXL_OK then State_Monad.return None
       else do {
         (rc, err_irq) \<leftarrow> ocxl_irq_alloc K 0;
         if rc \<noteq> OCXL_OK then State_Monad.return None
         else do {
           err_irq_handle \<leftarrow> ocxl_irq_get_handle (the err_irq);
           rc \<leftarrow> ocxl_mmio_write64 K pp_mmio MEMCPY_AFU_PP_IRQ OCXL_MMIO_LITTLE_ENDIAN err_irq_handle;
           if rc \<noteq> OCXL_OK then State_Monad.return None
           else do {
             rc \<leftarrow> ocxl_mmio_write64 K pp_mmio MEMCPY_AFU_PP_WED OCXL_MMIO_LITTLE_ENDIAN wed;
             if rc \<noteq> OCXL_OK then State_Monad.return None
             else State_Monad.return (Some (pp_mmio, err_irq_handle))
           }
         }
       }
     }
   }"

text \<open>The element that signals completion (lines 445 to 489): its address, 0 when polling, and
  the handle of its interrupt.\<close>

definition queue_completion ::
  "'w platform \<Rightarrow> memcpy_weq \<Rightarrow> int \<Rightarrow> ('w, (u64 \<times> u64 \<times> memcpy_weq) option) prog" where
  "queue_completion K weq completion =
     (if completion = 1 then do {
        (rc, afu_irq) \<leftarrow> ocxl_irq_alloc K 0;
        if rc \<noteq> OCXL_OK then State_Monad.return None
        else do {
          afu_irq_handle \<leftarrow> ocxl_irq_get_handle (the afu_irq);
          LOG_INF ''irq EA = %lx'' [FInt (uint afu_irq_handle)];
          (irq_element, weq) \<leftarrow> memcpy3_add_we K weq (zero_we\<lparr>
            we_cmd := MEMCPY_WE_CMD 1 MEMCPY_WE_CMD_IRQ, we_src := htole64 K afu_irq_handle\<rparr>);
          State_Monad.return (Some (irq_element, afu_irq_handle, weq))
        }
      } else if arch_ppc64 K \<and> completion = 2 then do {
        (rc, afu_irq) \<leftarrow> ocxl_irq_alloc K 0;
        if rc \<noteq> OCXL_OK then State_Monad.return None
        else do {
          afu_irq_handle \<leftarrow> ocxl_irq_get_handle (the afu_irq);
          (rc, tid) \<leftarrow> ocxl_afu_get_p9_thread_id K;
          if rc \<noteq> OCXL_OK then State_Monad.return None
          else do {
            LOG_INF ''TID for wake_host_thread/wait = 0x%x'' [FInt (uint (the tid))];
            (wake_element, weq) \<leftarrow> memcpy3_add_we K weq (zero_we\<lparr>
              we_cmd := MEMCPY_WE_CMD 1 MEMCPY_WE_CMD_WAKE_HOST_THREAD,
              we_src := htole64 K afu_irq_handle, we_length := htole16 K (the tid), we_cmd_extra := 0x01\<rparr>);
            State_Monad.return (Some (wake_element, afu_irq_handle, weq))
          }
        }
      } else State_Monad.return (Some (0, 0, weq)))"

text \<open>A status other than 1 of an element is reported; the field is volatile and the message reads
  it again.\<close>

definition status_is_one :: "'w platform \<Rightarrow> u64 \<Rightarrow> string \<Rightarrow> ('w, bool) prog" where
  "status_is_one K element what = do {
     whenM (element = 0) (undefined_behaviour UB_null_argument);
     status \<leftarrow> we_status_at K element;
     if status \<noteq> 1 then do {
       again \<leftarrow> we_status_at K element;
       LOG_ERR (''unexpected status 0x%x for '' @ what) [FInt (uint again)];
       State_Monad.return False
     } else State_Monad.return True
   }"

text \<open>Waiting and checking the elements (lines 509 to 541): True when all is well.\<close>

definition await_copy ::
  "'w platform \<Rightarrow> 'w host \<Rightarrow> nat \<Rightarrow> int \<Rightarrow> int \<Rightarrow> ocxl_mmio_h \<Rightarrow> u64 \<Rightarrow> u64 \<Rightarrow> u64 \<Rightarrow> u64 \<Rightarrow> u64 \<Rightarrow>
   ('w, bool option) prog" where
  "await_copy K H fuel completion timeout pp_mmio memcpy_element done_element stop_element
       afu_irq_handle err_irq_handle = do {
     r \<leftarrow> (if completion = 1 then wait_for_irq K fuel timeout pp_mmio afu_irq_handle err_irq_handle
          else if arch_ppc64 K \<and> completion = 2
          then wait_for_wake_host_thread K H fuel timeout pp_mmio done_element afu_irq_handle err_irq_handle
          else wait_for_status K H fuel timeout memcpy_element err_irq_handle);
     (case r of
        None \<Rightarrow> State_Monad.return None
      | Some rc \<Rightarrow>
          if rc \<noteq> 0 then State_Monad.return (Some False)
          else do {
            good \<leftarrow> status_is_one K memcpy_element ''copy'';
            if \<not> good then State_Monad.return (Some False)
            else do {
              good \<leftarrow> (if completion = 1 then status_is_one K done_element ''IRQ''
                       else if completion = 2 then status_is_one K done_element ''wake''
                       else State_Monad.return True);
              if \<not> good then State_Monad.return (Some False)
              else do {
                r \<leftarrow> wait_for_status K H fuel timeout stop_element err_irq_handle;
                (case r of
                   None \<Rightarrow> State_Monad.return None
                 | Some _ \<Rightarrow> do {
                     good \<leftarrow> status_is_one K stop_element ''stop'';
                     State_Monad.return (Some good)
                   })
              }
            }
          })
   }"

text \<open>False is success.\<close>

definition afu_memcpy ::
  "'w platform \<Rightarrow> 'w host \<Rightarrow> nat \<Rightarrow> u64 \<Rightarrow> u64 \<Rightarrow> nat \<Rightarrow> int \<Rightarrow> int \<Rightarrow> ('w, bool option) prog" where
  "afu_memcpy K H fuel src dst sz completion timeout = do {
     weq \<leftarrow> memcpy3_init_weq K H QUEUE_SIZE;
     let wed = MEMCPY_WED (weq_queue weq) (of_nat (QUEUE_SIZE div CACHELINESIZE));
     let memcpy_we = zero_we\<lparr>we_cmd := MEMCPY_WE_CMD 0 MEMCPY_WE_CMD_COPY,
       we_length := htole16 K (of_nat sz), we_src := htole64 K src, we_dst := htole64 K dst\<rparr>;
     LOG_INF ''WED=0x%lx  src=%p  dst=%p size=%u''
       [FInt (uint wed), FPtr src, FPtr dst, FInt (int MEMCPY_SIZE)];
     c \<leftarrow> memcpy_connect K wed;
     (case c of
        None \<Rightarrow> State_Monad.return (Some True)
      | Some (pp_mmio, err_irq_handle) \<Rightarrow> do {
          (memcpy_element, weq) \<leftarrow> memcpy3_add_we K weq memcpy_we;
          d \<leftarrow> queue_completion K weq completion;
          (case d of
             None \<Rightarrow> State_Monad.return (Some True)
           | Some (done_element, afu_irq_handle, weq) \<Rightarrow> do {
               (stop_element, weq) \<leftarrow> memcpy3_add_we K weq
                 (zero_we\<lparr>we_cmd := MEMCPY_WE_CMD 1 MEMCPY_WE_CMD_STOP\<rparr>);
               set_valid K memcpy_element;
               r \<leftarrow> await_copy K H fuel completion timeout pp_mmio memcpy_element done_element stop_element
                      afu_irq_handle err_irq_handle;
               (case r of
                  None \<Rightarrow> State_Monad.return None
                | Some True \<Rightarrow> State_Monad.return (Some False)
                | Some False \<Rightarrow> do {
                    display_afu_status K pp_mmio;
                    State_Monad.return (Some True)
                  })
             })
        })
   }"

section \<open>The program\<close>

record sample_args =
  sa_completion :: int  \<comment> \<open>0 = Poll, 1 = IRQ, 2 = wake_host_thread/wait\<close>
  sa_verbose :: bool
  sa_timeout :: int

abbreviation tab :: string where "tab \<equiv> [CHR 0x09]"

definition sample_usage :: "'w platform \<Rightarrow> string \<Rightarrow> ('w, unit) prog" where
  "sample_usage K name = do {
     say Stderr (''Usage: %s [ options ]'' @ nl) [FStr name];
     say Stderr (''Options:'' @ nl) [];
     say Stderr (tab @ ''-i'' @ tab @ tab @ ''Use interrupts to indicate completion'' @ nl) [];
     whenM (arch_ppc64 K)
       (say Stderr (tab @ ''-w'' @ tab @ tab @ ''Use wake_host_thread/wait to indicate completion'' @ nl) []);
     say Stderr (tab @ ''-t <timeout>'' @ tab @ ''Seconds to wait for the AFU to signal completion'' @ nl) [];
     say Stderr (tab @ ''-v'' @ tab @ tab @ ''Show interactions with the AFU'' @ nl) []
   }"

definition sample_options :: "'w platform \<Rightarrow> (char \<times> bool) list" where
  "sample_options K = [(CHR ''h'', False), (CHR ''s'', True), (CHR ''i'', False), (CHR ''t'', True),
     (CHR ''v'', False)] @ (if arch_ppc64 K then [(CHR ''w'', False)] else [])"

text \<open>The loop over the options: \<open>None\<close> when it calls \<open>usage\<close>, which does not return.\<close>

fun sample_switch :: "(char \<times> string) list \<Rightarrow> sample_args \<Rightarrow> sample_args option" where
  "sample_switch [] args = Some args"
| "sample_switch ((c, optarg) # cs) args =
     (if c = CHR ''?'' \<or> c = CHR ''h'' then None
      else sample_switch cs
        (if c = CHR ''i'' then args\<lparr>sa_completion := 1\<rparr>
         else if c = CHR ''w'' then args\<lparr>sa_completion := 2\<rparr>
         else if c = CHR ''t'' then args\<lparr>sa_timeout := atoi optarg\<rparr>
         else if c = CHR ''v'' then args\<lparr>sa_verbose := True\<rparr>
         else args))"

definition sample_parse :: "'w platform \<Rightarrow> string list \<Rightarrow> (sample_args \<times> string list) option" where
  "sample_parse K argv =
     (case getopt (sample_options K) argv [] of
        (opts, rest) \<Rightarrow>
          map_option (\<lambda>args. (args\<lparr>sa_timeout := (if sa_timeout args = - 1 then 10 else sa_timeout args)\<rparr>, rest))
            (sample_switch opts \<lparr>sa_completion = 0, sa_verbose = False, sa_timeout = - 1\<rparr>))"

definition message_sources :: "bool \<Rightarrow> u64" where
  "message_sources verbose = (if verbose then OCXL_ERRORS OR OCXL_TRACING else OCXL_ERRORS)"

text \<open>\<open>main\<close> from the open AFU on: what follows the copy, the copy with its buffers, all of it.\<close>

definition sample_finish :: "'w platform \<Rightarrow> u64 \<Rightarrow> u64 \<Rightarrow> bool \<Rightarrow> ('w, int) prog" where
  "sample_finish K src dst failed =
     (if failed then do {
        ocxl_afu_close K;
        LOG_ERR ''memcpy failed'' [];
        State_Monad.return 1
      } else do {
        differ \<leftarrow> c_memcmp K dst src MEMCPY_SIZE;
        (if differ then LOG_ERR ''Memory contents do not match'' []
         else LOG_INF ''Memory contents match'' []);
        ocxl_afu_close K;
        State_Monad.return 0
      })"

definition sample_copy ::
  "'w platform \<Rightarrow> 'w host \<Rightarrow> nat \<Rightarrow> sample_args \<Rightarrow> ('w, (u64 \<times> u64 \<times> bool) option) prog" where
  "sample_copy K H fuel args = do {
     src \<leftarrow> sys (h_aligned_alloc H 64 MEMCPY_SIZE);
     dst \<leftarrow> sys (h_aligned_alloc H 64 MEMCPY_SIZE);
     fill_buffer K src MEMCPY_SIZE;
     c_memset K dst 0 MEMCPY_SIZE;
     r \<leftarrow> afu_memcpy K H fuel src dst MEMCPY_SIZE (sa_completion args) (sa_timeout args);
     State_Monad.return (map_option (\<lambda>failed. (src, dst, failed)) r)
   }"

definition sample_run :: "'w platform \<Rightarrow> 'w host \<Rightarrow> nat \<Rightarrow> sample_args \<Rightarrow> ('w, int option) prog" where
  "sample_run K H fuel args = do {
     ocxl_afu_enable_messages (message_sources (sa_verbose args));
     failed \<leftarrow> global_setup K;
     if failed then State_Monad.return (Some 1)
     else do {
       r \<leftarrow> sample_copy K H fuel args;
       (case r of
          None \<Rightarrow> State_Monad.return None
        | Some (src, dst, failed) \<Rightarrow> do {
            code \<leftarrow> sample_finish K src dst failed;
            State_Monad.return (Some code)
          })
     }
   }"

definition sample_main :: "'w platform \<Rightarrow> 'w host \<Rightarrow> nat \<Rightarrow> string \<Rightarrow> string list \<Rightarrow> ('w, int option) prog" where
  "sample_main K H fuel name argv =
     (case sample_parse K argv of
        None \<Rightarrow> do { sample_usage K name; State_Monad.return (Some 1) }
      | Some (args, rest) \<Rightarrow>
          if rest \<noteq> [] then do {
            say Stderr (''Error: Unexpected argument '%s'' @ squote @ nl) [FStr (hd rest)];
            sample_usage K name;
            State_Monad.return (Some 1)
          } else do {
            ocxl_enable_messages (message_sources (sa_verbose args));
            (rc, afu) \<leftarrow> ocxl_afu_open K AFU_NAME;
            if rc \<noteq> OCXL_OK then do {
              LOG_ERR (''Could not open AFU '%s'' @ squote) [FStr AFU_NAME];
              State_Monad.return (Some 1)
            } else sample_run K H fuel args
          })"

section \<open>Filling the source\<close>

lemma fill_bytes_calls:
  "wp (fill_bytes K buf is) (\<lambda>_ s'. calls s' = calls s @ map (\<lambda>i. CStore (buf + of_nat i) [of_nat i]) is) s"
proof (induction "is" arbitrary: s)
  case (Cons i "is")
  have "(0xff :: u8) = - 1" by simp
  then have "(of_nat i :: u8) AND 0xff = of_nat i" by (simp only: and.right_neutral)
  then show ?case by (auto simp: wp_simps wp_call intro!: wp_mono [OF Cons])
qed (simp add: wp_simps)

section \<open>The books of the AFU\<close>

lemma quiet_sample [quiet_intros]:
  "quiet (restart_afu_if_stopped K h)" "quiet (display_afu_status K h)" "quiet (status_is_one K p what)"
  unfolding restart_afu_if_stopped_def display_afu_status_def status_is_one_def
  by (intro quiet_intros)+

lemma quiet_fill [quiet_intros]: "quiet (fill_buffer K buf n)"
proof -
  have "quiet (fill_bytes K buf is)" for "is" by (induction "is") (auto intro!: quiet_intros)
  then show ?thesis by (simp add: fill_buffer_def)
qed

declare quiet_sample [THEN uses_quiet, uses_intros] quiet_fill [THEN uses_quiet, uses_intros]

lemma uses_handle_event [uses_intros]: "uses 0 0 (handle_event K h irq_ea err_ea ev ret)"
  unfolding handle_event_def by (rule uses_mono, (rule uses_intros)+, simp_all)

lemma uses_irq_loop [uses_intros]: "uses 0 0 (irq_loop K fuel timeout h irq_ea err_ea ct ev ret)"
proof (induction fuel arbitrary: ct ev ret)
  case 0
  then show ?case by (simp add: uses_intros)
next
  case (Suc fuel)
  show ?case
    unfolding irq_loop.simps by (rule uses_mono, (rule uses_intros Suc)+, simp_all)
qed

lemma uses_wait_for_irq [uses_intros]: "uses 0 0 (wait_for_irq K fuel timeout h irq_ea err_ea)"
  unfolding wait_for_irq_def by (rule uses_mono, (rule uses_intros)+, simp_all)

lemma uses_status_loop [uses_intros]: "uses 0 0 (status_loop K H fuel deadline temp p err_ea)"
proof (induction fuel arbitrary: temp)
  case 0
  then show ?case by (simp add: uses_intros)
next
  case (Suc fuel)
  show ?case
    unfolding status_loop.simps by (rule uses_mono, (rule uses_intros Suc)+, simp_all)
qed

lemma uses_wait_for_status [uses_intros]: "uses 0 0 (wait_for_status K H fuel timeout p err_ea)"
  unfolding wait_for_status_def by (rule uses_mono, (rule uses_intros)+, simp_all)

lemma uses_wake_loop [uses_intros]: "uses 0 0 (wake_loop K H fuel deadline p)"
proof (induction fuel)
  case 0
  then show ?case by (simp add: uses_intros)
next
  case (Suc fuel)
  show ?case
    unfolding wake_loop.simps by (rule uses_mono, (rule uses_intros Suc)+, simp_all)
qed

lemma uses_wait_for_wake [uses_intros]:
  "uses 0 0 (wait_for_wake_host_thread K H fuel timeout h p irq_ea err_ea)"
  unfolding wait_for_wake_host_thread_def by (rule uses_mono, (rule uses_intros)+, simp_all)

lemma uses_await_copy [uses_intros]:
  "uses 0 0 (await_copy K H fuel completion timeout h p d stop irq_ea err_ea)"
  unfolding await_copy_def by (rule uses_mono, (rule uses_intros)+, simp_all)

lemma uses_global_setup:
  assumes "irq_laws K"
  shows "uses 1 0 (global_setup K)"
  unfolding global_setup_def by (rule uses_mono, (rule uses_intros uses_map [OF assms])+, simp_all)

lemma uses_connect:
  assumes "irq_laws K"
  shows "uses 1 1 (memcpy_connect K wed)"
  unfolding memcpy_connect_def by (rule uses_mono, (rule uses_intros uses_map [OF assms] uses_irq_alloc [OF assms])+, simp_all)

lemma uses_queue_completion:
  assumes "irq_laws K"
  shows "uses 0 1 (queue_completion K weq completion)"
  unfolding queue_completion_def by (rule uses_mono, (rule uses_intros uses_irq_alloc [OF assms])+, simp_all)

lemma uses_afu_memcpy:
  assumes "irq_laws K"
  shows "uses 1 2 (afu_memcpy K H fuel src dst n completion timeout)"
  unfolding afu_memcpy_def
  by (rule uses_mono, (rule uses_intros uses_connect [OF assms] uses_queue_completion [OF assms])+, simp_all)

lemma uses_sample_copy:
  assumes "irq_laws K"
  shows "uses 1 2 (sample_copy K H fuel args)"
  unfolding sample_copy_def
  by (rule uses_mono, (rule uses_intros uses_afu_memcpy [OF assms])+, simp_all)

lemma sample_finish_spec:
  assumes b: "books s p q s1" and lim: "p \<le> table_limit" "q \<le> table_limit"
  shows "wp (sample_finish K src dst failed) (\<lambda>code s'. code = (if failed then 1 else 0) \<and> closed_since s s') s1"
proof (cases failed)
  case True
  then show ?thesis
    by (auto simp: sample_finish_def wp_simps wp_call intro!: wp_mono [OF close_since [OF b]])
next
  case False
  let ?report = "do { d \<leftarrow> c_memcmp K dst src MEMCPY_SIZE;
    if d then LOG_ERR ''Memory contents do not match'' [] else LOG_INF ''Memory contents match'' [] }"
  have "uses 0 0 ?report" by (rule uses_mono, (rule uses_intros)+, simp_all)
  then have "wp ?report (\<lambda>_. wp (ocxl_afu_close K) (\<lambda>_ s'. closed_since s s')) s1"
    by (rule uses_books [OF _ b]) (use lim in \<open>auto intro!: wp_mono [OF close_since]\<close>)
  with False show ?thesis by (simp add: sample_finish_def wp_bind wp_return)
qed

text \<open>The run of the sample on an AFU that has just been opened in state \<open>s\<close>, by what the setup and
  the copy give.\<close>

definition sample_post ::
  "'w st \<Rightarrow> bool \<Rightarrow> (u64 \<times> u64 \<times> bool) option \<Rightarrow> int option \<Rightarrow> 'w st \<Rightarrow> bool" where
  "sample_post s failed copied r s' \<longleftrightarrow>
     r = (if failed then Some 1 else map_option (\<lambda>(src, dst, e). if e then 1 else 0) copied) \<and>
     (if failed \<or> copied = None then \<exists>p q. books s p q s' else closed_since s s')"

lemma sample_run_spec:
  assumes laws: "irq_laws K" and fresh: "afu_inv (cur_afu s)" "within 0 0 (cur_afu s)"
    and begins: "run_state (do { ocxl_afu_enable_messages (message_sources (sa_verbose args)); global_setup K }) s =
      (failed, s2)"
    and copies: "run_state (sample_copy K H fuel args) s2 = (copied, s3)"
  shows "wp (sample_run K H fuel args) (sample_post s failed copied) s"
proof -
  have lim: "2 \<le> table_limit" by (simp add: table_limit_def)
  have "wp (do { ocxl_afu_enable_messages (message_sources (sa_verbose args)); global_setup K }) (\<lambda>_. books s 1 0) s"
    using lim by (intro uses_books [OF uses_bind [OF uses_messages uses_global_setup [OF laws]] books_refl [OF fresh]]) auto
  then have b2: "books s 1 0 s2" by (rule wpD [OF _ begins])
  have "wp (sample_copy K H fuel args) (\<lambda>_. books s 2 2) s2"
    using lim by (intro uses_books [OF uses_sample_copy [OF laws] b2]) (auto simp: numeral_2_eq_2)
  then have b3: "books s 2 2 s3" by (rule wpD [OF _ copies])
  have run: "run_state (sample_run K H fuel args) s = run_state (if failed then State_Monad.return (Some 1)
      else case copied of None \<Rightarrow> State_Monad.return None
        | Some (src, dst, e) \<Rightarrow> do { code \<leftarrow> sample_finish K src dst e; State_Monad.return (Some code) })
      (if failed then s2 else s3)"
    using begins copies by (auto simp: sample_run_def State_Monad.bind_def split: prod.splits option.splits)
  have "wp (case copied of None \<Rightarrow> State_Monad.return None
      | Some (src, dst, e) \<Rightarrow> do { code \<leftarrow> sample_finish K src dst e; State_Monad.return (Some code) })
      (sample_post s False copied) s3"
  proof (cases copied)
    case None
    with b3 show ?thesis by (auto simp: wp_return sample_post_def)
  next
    case (Some x)
    obtain src dst e where x: "x = (src, dst, e)" by (cases x)
    show ?thesis
      unfolding Some x option.case prod.case wp_bind wp_return
      by (rule wp_mono [OF sample_finish_spec [OF b3 lim lim]]) (simp add: sample_post_def)
  qed
  with b2 show ?thesis
    unfolding wp_def run by (cases failed) (auto simp: sample_post_def State_Monad.return_def)
qed

section \<open>Properties\<close>

text \<open>C8: the sample program and the resources of the library. Take a run in which the accelerator could
  be opened. When the setup of the global registers fails, the program ends with exit code 1 and leaves
  the AFU open, holding exactly what was acquired. When the setup succeeds and the copy ends, with or
  without an error, the AFU is closed: every mapping, descriptor, interrupt and block of the library is
  given back but the block of the region array, which closing never frees, and the exit code is 1 after
  an error and 0 otherwise. A copy whose wait never ends leaves the AFU open.\<close>

theorem sample_main_balances:
  assumes "irq_laws K" "sample_parse K argv = Some (args, [])"
    and "run_state (ocxl_enable_messages (message_sources (sa_verbose args))) s = ((), s0)"
    and "run_state (ocxl_afu_open K AFU_NAME) s0 = ((OCXL_OK, h), s1)"
    and "run_state (do { ocxl_afu_enable_messages (message_sources (sa_verbose args)); global_setup K }) s1 =
      (failed, s2)"
    and "run_state (sample_copy K H fuel args) s2 = (copied, s3)"
  shows "wp (sample_main K H fuel name argv) (\<lambda>r s'.
    r = (if failed then Some 1 else map_option (\<lambda>(src, dst, e). if e then 1 else 0) copied) \<and>
    (if failed \<or> copied = None then
       0 \<le> afu_fd (cur_afu s') \<and> (\<forall>x. x \<noteq> RMap MAP_FAILED (page_size (cur_afu s1)) \<longrightarrow>
         balance (calls s') x - owned (cur_afu s') x = balance (calls s1) x - owned (cur_afu s1) x)
     else afu_fd (cur_afu s') = - 1 \<and>
       (\<forall>x. x \<noteq> RFd (- 1) \<and> x \<noteq> RMap MAP_FAILED (page_size (cur_afu s1)) \<longrightarrow>
         balance (calls s') x = balance (calls s1) x - owned (cur_afu s1) x + block_owned (mmios (cur_afu s')) x))) s"
    (is "wp _ ?Q s")
proof -
  note fresh = open_fresh [OF assms(4) [unfolded ocxl_afu_open_def]]
  from sample_run_spec [OF assms(1) fresh assms(5,6)] have "wp (sample_run K H fuel args) ?Q s1"
    by (rule wp_mono)
      (auto simp: sample_post_def closed_since_def books_def kept_def afu_inv_def debt_def split: if_splits)
  moreover have "run_state (sample_main K H fuel name argv) s = run_state (sample_run K H fuel args) s1"
    using assms(2-4) by (simp add: sample_main_def State_Monad.bind_def split: prod.splits)
  ultimately show ?thesis by (simp add: wp_def)
qed

theorem sample_main_balances_witness:
  "\<exists>s1 :: demo_w st. wp (sample_main demo_irq_platform demo_host 3 ''memcpy'' []) (\<lambda>r s'. r = Some 0 \<longrightarrow>
     balance (calls s') (RFd 10) = balance (calls s1) (RFd 10) - owned (cur_afu s1) (RFd 10)) (demo_device 0x200000)"
proof -
  let ?args = "\<lparr>sa_completion = 0, sa_verbose = False, sa_timeout = 10\<rparr>"
  have laws: "irq_laws demo_irq_platform" by (simp add: demo_irq_platform_def demo_irq_laws)
  have p: "sample_parse demo_irq_platform [] = Some (?args, [])"
    by (simp add: sample_parse_def)
  obtain s0 where s0: "run_state (ocxl_enable_messages OCXL_ERRORS) (demo_device 0x200000) = ((), s0)"
    by (metis old.unit.exhaust surj_pair)
  then have s0': "run_state (ocxl_enable_messages (message_sources (sa_verbose ?args))) (demo_device 0x200000) = ((), s0)"
    by (simp add: message_sources_def)
  obtain s1 where s1: "run_state (ocxl_afu_open demo_irq_platform AFU_NAME) s0 = ((OCXL_OK, Some 100), s1)"
    using demo_device_opens [of "0x200000"] s0 by (auto simp: AFU_NAME_def wp_def split: prod.splits)
  obtain failed s2 where s2: "run_state (do { ocxl_afu_enable_messages (message_sources (sa_verbose ?args));
      global_setup demo_irq_platform }) s1 = (failed, s2)" by fastforce
  obtain copied s3 where s3: "run_state (sample_copy demo_irq_platform demo_host 3 ?args) s2 = (copied, s3)" by fastforce
  note closes = sample_main_balances [OF laws p s0' s1 s2 s3]
  show ?thesis
    by (rule exI [of _ s1], rule wp_mono [OF closes]) (auto simp: block_owned_def mem_owned_def split: if_splits)
qed

end
