(* ===== verification/Memcpy_Test.thy ===== *)
theory Memcpy_Test
  imports Memcpy_Queue Ocxl_Getopt
begin

text \<open>
  \<open>src/afutests/memcpy/ocxl_memcpy.c\<close>: the test of the memcpy accelerator, which copies,
  increments or swaps in a loop, in several processes. Its work queue is the code of the sample
  (\<open>Memcpy_Queue\<close>), with the element passed by value.

  \<open>test_afu_memcpy\<close>, the body of a child process, is cut at its comments; its local
  variables are the record \<open>test_run\<close>, and its labels \<open>err_status\<close> and \<open>err\<close>
  are constructors of \<open>loop_step\<close>. A loop that waits for the outside world takes fuel and
  gives \<open>None\<close> when it runs out. \<open>main\<close> forks its children and waits for them: what
  they do is a parameter of \<open>test_main\<close>, a function on the world that gives the results of
  the calls of \<open>wait\<close>; \<open>Memcpy_Processes\<close> has the processes that give them.
\<close>

section \<open>Arguments\<close>

definition AFU_NAME_test :: string where "AFU_NAME_test = ''IBM,MEMCPY3''"

definition AFU_MAX_PROCESSES :: int where "AFU_MAX_PROCESSES = 512"

record memcpy_test_args =
  loop_count :: int
  buf_size :: int
  use_irq :: bool
  completion_timeout :: int
  reallocate :: bool
  initialize :: bool
  device :: "string option"
  wake_host_thread :: bool
  increment :: bool
  atomic_cas :: bool
  shared_mem :: bool
  shmid :: int
  lock :: u64
  counter :: u64

text \<open>An \<open>int\<close> passed for a \<open>size_t\<close>.\<close>

definition size_arg :: "int \<Rightarrow> nat" where "size_arg n = unat (of_int n :: u64)"

definition test_err :: "int \<Rightarrow> string \<Rightarrow> farg list \<Rightarrow> ('w, unit) prog" where
  "test_err pid fmt args = say Stderr (''Process %d: '' @ fmt @ nl) (FInt pid # args)"

definition test_inf :: "int \<Rightarrow> string \<Rightarrow> farg list \<Rightarrow> ('w, unit) prog" where
  "test_inf pid fmt args = say Stdout (''Process %d: '' @ fmt @ nl) (FInt pid # args)"

definition getpid :: "'w host \<Rightarrow> ('w, int) prog" where
  "getpid H = sys (\<lambda>w. (h_getpid H w, w))"

section \<open>Setup\<close>

definition open_device :: "'w platform \<Rightarrow> memcpy_test_args \<Rightarrow> ('w, ocxl_err \<times> block option) prog" where
  "open_device K args =
     (case device args of
        Some dev \<Rightarrow> ocxl_afu_open_from_dev K dev
      | None \<Rightarrow> ocxl_afu_open K AFU_NAME_test)"

text \<open>\<open>global_setup\<close> on the open AFU, from the mapping of its registers on. The result of the
  read is not looked at.\<close>

definition setup_traces :: "'w platform \<Rightarrow> int \<Rightarrow> ('w, int) prog" where
  "setup_traces K pid = do {
     (err, global_mmio) \<leftarrow> ocxl_mmio_map K OCXL_GLOBAL_MMIO;
     if err \<noteq> OCXL_OK then do {
       test_err pid ''global ocxl_mmio_map() failed: %d'' [FInt (err_code err)];
       State_Monad.return (- 1)
     } else do {
       (_, cfg) \<leftarrow> ocxl_mmio_read64 K global_mmio MEMCPY_AFU_GLOBAL_CFG OCXL_MMIO_LITTLE_ENDIAN;
       whenM (cfg = None) (undefined_behaviour UB_indeterminate);
       test_inf pid ''AFU config = %#lx'' [FInt (uint (case cfg of None \<Rightarrow> 0 | Some c \<Rightarrow> c))];
       err \<leftarrow> ocxl_mmio_write64 K global_mmio MEMCPY_AFU_GLOBAL_TRACE OCXL_MMIO_LITTLE_ENDIAN 0x8008008000000000;
       if err \<noteq> OCXL_OK then do {
         test_err pid ''global ocxl_mmio_write64(trace) failed: %d'' [FInt (err_code err)];
         State_Monad.return (- 1)
       } else do {
         err \<leftarrow> ocxl_mmio_write64 K global_mmio MEMCPY_AFU_GLOBAL_TRACE OCXL_MMIO_LITTLE_ENDIAN 0x000000000007100B;
         if err \<noteq> OCXL_OK then do {
           test_err pid ''global ocxl_mmio_write64(trace) failed: %d'' [FInt (err_code err)];
           State_Monad.return (- 1)
         } else do {
           test_inf pid ''traces reset and rearmed'' [];
           ocxl_afu_close K;
           State_Monad.return 0
         }
       }
     }
   }"

definition global_setup_test :: "'w platform \<Rightarrow> 'w host \<Rightarrow> memcpy_test_args \<Rightarrow> ('w, int) prog" where
  "global_setup_test K H args = do {
     pid \<leftarrow> getpid H;
     (err, _) \<leftarrow> open_device K args;
     if err \<noteq> OCXL_OK then do {
       test_err pid ''ocxl_afu_open() failed: %d'' [FInt (err_code err)];
       State_Monad.return (- 1)
     } else setup_traces K pid
   }"

definition shm_create :: "'w platform \<Rightarrow> 'w host \<Rightarrow> memcpy_test_args \<Rightarrow> ('w, int \<times> memcpy_test_args) prog" where
  "shm_create K H args = do {
     i \<leftarrow> sys (h_shmget H (h_getpagesize H));
     let args = args\<lparr>shmid := i\<rparr>;
     if i = - 1 then do {
       perror K ''Error getting shared memory segment'';
       State_Monad.return (- 1, args)
     } else do {
       p \<leftarrow> sys (h_shmat H i);
       let args = args\<lparr>lock := p\<rparr>;
       if p = - 1 then do {
         perror K ''Unable to attach shared memory segment'';
         rc \<leftarrow> sys (h_shmctl_rmid H i);
         whenM (rc \<noteq> 0) (perror K ''Error destroying shared memory segment'');
         State_Monad.return (- 1, args)
       } else State_Monad.return (0, args\<lparr>counter := p + of_int (buf_size args)\<rparr>)
     }
   }"

definition shm_destroy :: "'w platform \<Rightarrow> 'w host \<Rightarrow> memcpy_test_args \<Rightarrow> ('w, unit) prog" where
  "shm_destroy K H args = do {
     rc \<leftarrow> sys (h_shmdt H (lock args));
     whenM (rc \<noteq> 0) (perror K ''Error detaching shared memory segment'');
     rc \<leftarrow> sys (h_shmctl_rmid H (shmid args));
     whenM (rc \<noteq> 0) (perror K ''Error destroying shared memory segment'')
   }"

section \<open>Waiting\<close>

fun poll_status ::
  "'w platform \<Rightarrow> 'w host \<Rightarrow> nat \<Rightarrow> timeval \<Rightarrow> timeval \<Rightarrow> u64 \<Rightarrow> int \<Rightarrow> ('w, int option) prog" where
  "poll_status K H 0 test_timeout temp we pid = State_Monad.return None"
| "poll_status K H (Suc fuel) test_timeout temp we pid =
     (if timer_after temp test_timeout then do {
        test_err pid ''timeout polling for completion'' [];
        State_Monad.return (Some (- 1))
      } else do {
        status \<leftarrow> we_status_at K we;
        if status \<noteq> 0 then State_Monad.return (Some 0)
        else do {
          temp \<leftarrow> gettimeofday H;
          poll_status K H fuel test_timeout temp we pid
        }
      })"

definition wait_for_status_test ::
  "'w platform \<Rightarrow> 'w host \<Rightarrow> nat \<Rightarrow> u64 \<Rightarrow> int \<Rightarrow> int \<Rightarrow> ('w, int option) prog" where
  "wait_for_status_test K H fuel we timeout pid = do {
     let temp = \<lparr>tv_sec = timeout, tv_usec = 0\<rparr>;
     now \<leftarrow> gettimeofday H;
     poll_status K H fuel (timeradd now temp) temp we pid
   }"

text \<open>The fields of an event as the test reads them, the union's \<open>irq.handle\<close> also when the
  event is a translation fault.\<close>

fun event_type :: "ocxl_event \<Rightarrow> int" where
  "event_type (OCXL_EVENT_IRQ i) = 0"
| "event_type (OCXL_EVENT_TRANSLATION_FAULT f) = 1"

fun event_irq_handle :: "'w platform \<Rightarrow> ocxl_event \<Rightarrow> u64" where
  "event_irq_handle K (OCXL_EVENT_IRQ i) = ev_handle i"
| "event_irq_handle K (OCXL_EVENT_TRANSLATION_FAULT f) = (if arch_ppc64 K then tf_dsisr f else tf_count f)"

definition wait_for_irq_test ::
  "'w platform \<Rightarrow> 'w host \<Rightarrow> nat \<Rightarrow> u64 \<Rightarrow> int \<Rightarrow> int \<Rightarrow> u64 \<Rightarrow> u64 \<Rightarrow> ('w, int option) prog" where
  "wait_for_irq_test K H fuel we timeout pid irq_ea err_ea = do {
     t \<leftarrow> int_mul timeout 1000;
     r \<leftarrow> ocxl_afu_event_check K fuel t [None] 1;
     (case r of
        None \<Rightarrow> State_Monad.return None
      | Some (nevent, events) \<Rightarrow>
          if nevent \<noteq> 1 then do {
            (if nevent = 0 then test_err pid ''timeout waiting for AFU interrupt'' []
             else test_err pid ''unexpected return value for ocxl_afu_event_check(): %d'' [FInt nevent]);
            State_Monad.return (Some (- 1))
          } else do {
            event \<leftarrow> event_at events 0;
            if event_type event \<noteq> 0 then do {
              test_err pid ''unexpected event type returned by ocxl_afu_event_check(): %d'' [FInt (event_type event)];
              State_Monad.return (Some (- 1))
            } else if event_irq_handle K event \<noteq> irq_ea then do {
              (if event_irq_handle K event = err_ea
               then test_err pid ''received error irq instead of AFU irq'' []
               else test_err pid ''received unknown irq EA=0x%lx'' [FInt (uint (event_irq_handle K event))]);
              State_Monad.return (Some (- 1))
            } else wait_for_status_test K H fuel we timeout pid
          })
   }"

text \<open>The loop of \<open>wait_fast\<close>: True when the status was set, False on a timeout.\<close>

fun fast_loop :: "'w platform \<Rightarrow> 'w host \<Rightarrow> nat \<Rightarrow> timeval \<Rightarrow> u64 \<Rightarrow> int \<Rightarrow> ('w, bool option) prog" where
  "fast_loop K H 0 test_timeout we pid = State_Monad.return None"
| "fast_loop K H (Suc fuel) test_timeout we pid = do {
     ocxl_wait H;
     status \<leftarrow> we_status_at K we;
     if status \<noteq> 0 then State_Monad.return (Some True)
     else do {
       temp \<leftarrow> gettimeofday H;
       if timer_after temp test_timeout then do {
         test_err pid ''timeout waiting for wake_host_thread'' [];
         State_Monad.return (Some False)
       } else fast_loop K H fuel test_timeout we pid
     }
   }"

text \<open>A status other than 1 after the wait: the interrupt that came instead.\<close>

definition wake_interrupt :: "'w platform \<Rightarrow> nat \<Rightarrow> u64 \<Rightarrow> int \<Rightarrow> u64 \<Rightarrow> ('w, int option) prog" where
  "wake_interrupt K fuel we pid irq_ea = do {
     r \<leftarrow> ocxl_afu_event_check K fuel 1000 [None] 1;
     (case r of
        None \<Rightarrow> State_Monad.return None
      | Some (nevent, events) \<Rightarrow>
          if nevent = 1 then do {
            event \<leftarrow> event_at events 0;
            if event_type event \<noteq> 0 \<or> event_irq_handle K event \<noteq> irq_ea then do {
              test_err pid (''received unexpected event type %d while in '' @ squote @ ''wait'' @ squote @
                  '' (handle=%#lx)'')
                [FInt (event_type event), FInt (uint (event_irq_handle K event))];
              State_Monad.return (Some (- 1))
            } else State_Monad.return (Some 0)
          } else do {
            status \<leftarrow> we_status_at K we;
            test_err pid ''wake_host_thread failed with status %d'' [FInt (uint status)];
            State_Monad.return (Some (- 1))
          })
   }"

definition wait_fast :: "'w platform \<Rightarrow> 'w host \<Rightarrow> nat \<Rightarrow> u64 \<Rightarrow> int \<Rightarrow> int \<Rightarrow> u64 \<Rightarrow> ('w, int option) prog" where
  "wait_fast K H fuel we timeout pid irq_ea = do {
     now \<leftarrow> gettimeofday H;
     woken \<leftarrow> fast_loop K H fuel (timeradd now \<lparr>tv_sec = timeout, tv_usec = 0\<rparr>) we pid;
     (case woken of
        None \<Rightarrow> State_Monad.return None
      | Some False \<Rightarrow> State_Monad.return (Some (- 1))
      | Some True \<Rightarrow> do {
          status \<leftarrow> we_status_at K we;
          if status \<noteq> 1 then wake_interrupt K fuel we pid irq_ea
          else State_Monad.return (Some 0)
        })
   }"

definition restart_afu :: "'w platform \<Rightarrow> int \<Rightarrow> ocxl_mmio_h \<Rightarrow> ('w, int) prog" where
  "restart_afu K pid pp_mmio = do {
     (err, v) \<leftarrow> ocxl_mmio_read64 K pp_mmio MEMCPY_AFU_PP_STATUS OCXL_MMIO_LITTLE_ENDIAN;
     if err \<noteq> OCXL_OK then do {
       test_err pid ''read of process status failed: %d'' [FInt (err_code err)];
       State_Monad.return (- 1)
     } else if the v AND MEMCPY_AFU_PP_STATUS_Stopped = 0 then State_Monad.return 0
     else do {
       err \<leftarrow> ocxl_mmio_write64 K pp_mmio MEMCPY_AFU_PP_CTRL OCXL_MMIO_LITTLE_ENDIAN MEMCPY_AFU_PP_CTRL_Restart;
       if err \<noteq> OCXL_OK then do {
         test_err pid ''couldn't restart process: %d'' [FInt (err_code err)];
         State_Monad.return (- 1)
       } else State_Monad.return 0
     }
   }"

section \<open>One process of the test\<close>

record test_run =
  tr_args :: memcpy_test_args
  tr_weq :: memcpy_weq
  tr_src :: u64
  tr_dst :: u64
  tr_atomic_cas_we :: memcpy_work_element
  tr_increment_we :: memcpy_work_element
  tr_memcpy_we :: memcpy_work_element
  tr_irq_we :: memcpy_work_element
  tr_afu_irq_ea :: u64
  tr_err_irq_ea :: u64
  tr_pp_mmio :: ocxl_mmio_h

text \<open>The memory areas (lines 383 to 403): the exit status, or the arguments, source and
  destination.\<close>

definition test_buffers ::
  "'w platform \<Rightarrow> 'w host \<Rightarrow> int \<Rightarrow> memcpy_test_args \<Rightarrow> ('w, int + memcpy_test_args \<times> u64 \<times> u64) prog" where
  "test_buffers K H pid args = do {
     r \<leftarrow> (if shared_mem args then do {
            (rc, args) \<leftarrow> shm_create K H args;
            State_Monad.return (if rc \<noteq> 0 then None else Some (args, counter args))
          } else do {
            src \<leftarrow> sys (h_aligned_alloc H 64 (h_getpagesize H));
            State_Monad.return (Some (args, src))
          });
     (case r of
        None \<Rightarrow> State_Monad.return (Inl 1)
      | Some (args, src) \<Rightarrow>
          if atomic_cas args then State_Monad.return (Inr (args, src, lock args))
          else do {
            dst \<leftarrow> sys (h_mmap_anonymous H (h_getpagesize H));
            if dst = MAP_FAILED then do {
              test_err pid ''mmap failed for destination buffer'' [];
              State_Monad.return (Inl (- 1))
            } else State_Monad.return (Inr (args, src, dst))
          })
   }"

text \<open>The work elements (lines 423 to 444).\<close>

definition atomic_cas_element :: "'w platform \<Rightarrow> u64 \<Rightarrow> memcpy_work_element" where
  "atomic_cas_element K dst = zero_we\<lparr>we_cmd := MEMCPY_WE_CMD 0 MEMCPY_WE_CMD_ATOMIC, we_length := htole16 K 8,
     we_src := htole64 K 1, we_dst := htole64 K dst, we_atomic_op := htole64 K 0, we_cmd_extra := 0x19\<rparr>"

definition increment_element :: "'w platform \<Rightarrow> u64 \<Rightarrow> u64 \<Rightarrow> memcpy_work_element" where
  "increment_element K src dst = zero_we\<lparr>we_cmd := MEMCPY_WE_CMD 0 MEMCPY_WE_CMD_INCREMENT,
     we_length := htole16 K 4, we_src := htole64 K src, we_dst := htole64 K dst\<rparr>"

definition memcpy_element :: "'w platform \<Rightarrow> int \<Rightarrow> u64 \<Rightarrow> u64 \<Rightarrow> memcpy_work_element" where
  "memcpy_element K sz src dst = zero_we\<lparr>we_cmd := MEMCPY_WE_CMD 0 MEMCPY_WE_CMD_COPY,
     we_length := htole16 K (of_int sz), we_src := htole64 K src, we_dst := htole64 K dst\<rparr>"

text \<open>The interrupt of completion (lines 446 to 473): its handle and its work element.\<close>

definition completion_element ::
  "'w platform \<Rightarrow> int \<Rightarrow> memcpy_test_args \<Rightarrow> ('w, (u64 \<times> memcpy_work_element) option) prog" where
  "completion_element K pid args =
     (if use_irq args \<or> wake_host_thread args then do {
        (err, afu_irq) \<leftarrow> ocxl_irq_alloc K 0;
        if err \<noteq> OCXL_OK then do {
          test_err pid ''ocxl_irq_alloc() failed: %d'' [FInt (err_code err)];
          State_Monad.return None
        } else do {
          afu_irq_ea \<leftarrow> ocxl_irq_get_handle (the afu_irq);
          test_inf pid ''irq EA = %lx'' [FInt (uint afu_irq_ea)];
          let irq_we = zero_we\<lparr>we_src := htole64 K afu_irq_ea\<rparr>;
          if use_irq args
          then State_Monad.return (Some (afu_irq_ea, irq_we\<lparr>we_cmd := MEMCPY_WE_CMD 1 MEMCPY_WE_CMD_IRQ\<rparr>))
          else do {
            (err, _) \<leftarrow> ocxl_afu_get_p9_thread_id K;
            if err_code err < 0 then do {
              test_err pid ''ocxl_afu_get_p9_thread_id() failed: %d'' [FInt (err_code err)];
              State_Monad.return None
            } else State_Monad.return (Some (afu_irq_ea,
              irq_we\<lparr>we_cmd := MEMCPY_WE_CMD 1 MEMCPY_WE_CMD_WAKE_HOST_THREAD\<rparr>))
          }
        }
      } else State_Monad.return (Some (0, zero_we)))"

text \<open>The error interrupt, attaching, and the registers of the process (lines 475 to 504).\<close>

definition test_connect :: "'w platform \<Rightarrow> int \<Rightarrow> u64 \<Rightarrow> ('w, (u64 \<times> ocxl_mmio_h) option) prog" where
  "test_connect K pid wed = do {
     (err, err_irq) \<leftarrow> ocxl_irq_alloc K 0;
     if err \<noteq> OCXL_OK then do {
       test_err pid ''ocxl_irq_alloc(err) failed: %d'' [FInt (err_code err)];
       State_Monad.return None
     } else do {
       err_irq_ea \<leftarrow> ocxl_irq_get_handle (the err_irq);
       err \<leftarrow> ocxl_afu_attach K 0;
       if err \<noteq> OCXL_OK then do {
         test_err pid ''ocxl_attach() failed: %d'' [FInt (err_code err)];
         State_Monad.return None
       } else do {
         (err, pp_mmio) \<leftarrow> ocxl_mmio_map K OCXL_PER_PASID_MMIO;
         if err \<noteq> OCXL_OK then do {
           test_err pid ''pp ocxl_mmio_map() failed: %d'' [FInt (err_code err)];
           State_Monad.return None
         } else do {
           err \<leftarrow> ocxl_mmio_write64 K pp_mmio MEMCPY_AFU_PP_IRQ OCXL_MMIO_LITTLE_ENDIAN err_irq_ea;
           if err \<noteq> OCXL_OK then do {
             test_err pid ''ocxl_mmio_write64(err irq) failed: %d'' [FInt (err_code err)];
             State_Monad.return None
           } else do {
             err \<leftarrow> ocxl_mmio_write64 K pp_mmio MEMCPY_AFU_PP_WED OCXL_MMIO_LITTLE_ENDIAN wed;
             if err \<noteq> OCXL_OK then do {
               test_err pid ''ocxl_mmio_write64(wed) failed: %d'' [FInt (err_code err)];
               State_Monad.return None
             } else State_Monad.return (Some (err_irq_ea, pp_mmio))
           }
         }
       }
     }
   }"

text \<open>The source buffer (lines 506 to 516), and the loop of its last branch, which goes through the indices
  of the buffer.\<close>

fun store_each :: "'w platform \<Rightarrow> u64 \<Rightarrow> u8 \<Rightarrow> nat list \<Rightarrow> ('w, unit) prog" where
  "store_each K p v [] = skip"
| "store_each K p v (i # is) = do { do_store K (p + of_nat i) [v]; store_each K p v is }"

definition fill_source :: "'w platform \<Rightarrow> u64 \<Rightarrow> int \<Rightarrow> int \<Rightarrow> ('w, unit) prog" where
  "fill_source K src pid sz = store_each K src (of_int (pid AND 0xff)) [0..<nat sz]"

definition test_source :: "'w platform \<Rightarrow> int \<Rightarrow> test_run \<Rightarrow> ('w, test_run) prog" where
  "test_source K pid r =
     (let args = tr_args r in
      if atomic_cas args then do {
        c_memset K (tr_src r) 0 (size_arg (buf_size args));
        State_Monad.return (r\<lparr>tr_increment_we := (tr_increment_we r)\<lparr>
          we_src := htole64 K (counter args), we_dst := htole64 K (counter args)\<rparr>\<rparr>)
      } else if increment args then do {
        store32 K (tr_src r) (htole32 K (of_int (pid - 1)));
        State_Monad.return r
      } else do {
        fill_source K (tr_src r) pid (buf_size args);
        State_Monad.return r
      })"

text \<open>The work of one loop (lines 522 to 543): the first and the last element, and the queue.\<close>

definition queue_work :: "'w platform \<Rightarrow> test_run \<Rightarrow> ('w, u64 \<times> u64 \<times> memcpy_weq) prog" where
  "queue_work K r =
     (if atomic_cas (tr_args r) then do {
        (first_we, weq) \<leftarrow> memcpy3_add_we K (tr_weq r) (tr_atomic_cas_we r);
        (last_we, weq) \<leftarrow> memcpy3_add_we K weq (tr_increment_we r);
        set_valid K last_we;
        (last_we, weq) \<leftarrow> memcpy3_add_we K weq (tr_memcpy_we r);
        set_valid K last_we;
        State_Monad.return (first_we, last_we, weq)
      } else if increment (tr_args r) then do {
        v \<leftarrow> load32 K (tr_src r);
        store32 K (tr_src r) (htole32 K (le32toh K v + 1));
        (p, weq) \<leftarrow> memcpy3_add_we K (tr_weq r) (tr_increment_we r);
        State_Monad.return (p, p, weq)
      } else do {
        (p, weq) \<leftarrow> memcpy3_add_we K (tr_weq r) (tr_memcpy_we r);
        State_Monad.return (p, p, weq)
      })"

definition press_go :: "'w platform \<Rightarrow> test_run \<Rightarrow> ('w, u64 \<times> u64 \<times> memcpy_weq) prog" where
  "press_go K r = do {
     (first_we, last_we, weq) \<leftarrow> queue_work K r;
     (last_we, weq) \<leftarrow> (if use_irq (tr_args r) \<or> wake_host_thread (tr_args r)
       then memcpy3_add_we K weq (tr_irq_we r) else State_Monad.return (last_we, weq));
     set_valid K first_we;
     State_Monad.return (first_we, last_we, weq)
   }"

definition wait_done :: "'w platform \<Rightarrow> 'w host \<Rightarrow> nat \<Rightarrow> int \<Rightarrow> test_run \<Rightarrow> u64 \<Rightarrow> ('w, int option) prog" where
  "wait_done K H fuel pid r last_we =
     (let args = tr_args r; t = completion_timeout args in
      if use_irq args then wait_for_irq_test K H fuel last_we t pid (tr_afu_irq_ea r) (tr_err_irq_ea r)
      else if wake_host_thread args then wait_fast K H fuel last_we t pid (tr_afu_irq_ea r)
      else wait_for_status_test K H fuel last_we t pid)"

text \<open>The status of the elements (lines 559 to 571); the field is volatile, and every mention of it
  reads it. True is good.\<close>

definition statuses_good :: "'w platform \<Rightarrow> int \<Rightarrow> memcpy_test_args \<Rightarrow> u64 \<Rightarrow> u64 \<Rightarrow> ('w, bool) prog" where
  "statuses_good K pid args first_we last_we = do {
     v \<leftarrow> we_status_at K first_we;
     if v \<noteq> 1 then do {
       v \<leftarrow> we_status_at K first_we;
       test_err pid ''unexpected status 0x%x for copy'' [FInt (uint v)];
       State_Monad.return False
     } else do {
       v \<leftarrow> (if use_irq args then we_status_at K last_we else State_Monad.return 1);
       if v \<noteq> 1 then do {
         v \<leftarrow> we_status_at K last_we;
         test_err pid ''unexpected status 0x%x for irq'' [FInt (uint v)];
         State_Monad.return False
       } else do {
         v \<leftarrow> (if wake_host_thread args then we_status_at K last_we else State_Monad.return 1);
         v \<leftarrow> (if v \<noteq> 1 then we_status_at K last_we else State_Monad.return 0x11);
         if v \<noteq> 0x11 then do {
           v \<leftarrow> we_status_at K last_we;
           test_err pid ''unexpected status 0x%x for wake_host_thread'' [FInt (uint v)];
           State_Monad.return False
         } else State_Monad.return True
       }
     }
   }"

text \<open>The result of the work (lines 580 to 592): True is good.\<close>

definition result_good :: "'w platform \<Rightarrow> int \<Rightarrow> nat \<Rightarrow> test_run \<Rightarrow> ('w, bool) prog" where
  "result_good K pid i r =
     (if atomic_cas (tr_args r) then State_Monad.return True
      else if increment (tr_args r) then do {
        d \<leftarrow> load32 K (tr_dst r);
        v \<leftarrow> load32 K (tr_src r);
        if le32toh K d - le32toh K v - 1 \<noteq> 0 then do {
          test_err pid ''increment error on loop %d'' [FInt (int i)];
          State_Monad.return False
        } else State_Monad.return True
      } else do {
        differ \<leftarrow> c_memcmp K (tr_dst r) (tr_src r) (size_arg (buf_size (tr_args r)));
        if differ then do {
          test_err pid ''copy error on loop %d'' [FInt (int i)];
          State_Monad.return False
        } else State_Monad.return True
      })"

datatype loop_step = Next_loop test_run | Goto_err_status test_run | Goto_err test_run

text \<open>The buffers of the following loop (lines 600 to 626). The result of \<open>shm_create\<close> is not
  looked at.\<close>

definition next_buffers :: "'w platform \<Rightarrow> 'w host \<Rightarrow> int \<Rightarrow> test_run \<Rightarrow> ('w, loop_step) prog" where
  "next_buffers K H pid r =
     (let args = tr_args r; n = size_arg (buf_size args) in
      if reallocate args then do {
        t \<leftarrow> (if shared_mem args then do {
               shm_destroy K H args;
               (_, args) \<leftarrow> shm_create K H args;
               State_Monad.return (Some (r\<lparr>tr_args := args, tr_src := counter args, tr_dst := lock args,
                 tr_memcpy_we := (tr_memcpy_we r)\<lparr>we_src := htole64 K (counter args)\<rparr>\<rparr>))
             } else do {
               sys (\<lambda>w. ((), h_munmap H (tr_dst r) (h_getpagesize H) w));
               dst \<leftarrow> sys (h_mmap_anonymous H (h_getpagesize H));
               if dst = MAP_FAILED then do {
                 test_err pid ''reallocation of destination buffer failed'' [];
                 State_Monad.return None
               } else State_Monad.return (Some (r\<lparr>tr_dst := dst\<rparr>))
             });
        (case t of
           None \<Rightarrow> State_Monad.return (Goto_err r)
         | Some r \<Rightarrow> do {
             whenM (initialize args) (c_memset K (tr_dst r) 0 n);
             State_Monad.return (Next_loop (r\<lparr>tr_memcpy_we := (tr_memcpy_we r)\<lparr>
               we_dst := htole64 K (tr_dst r)\<rparr>\<rparr>))
           })
      } else do {
        whenM (\<not> atomic_cas args) (c_memset K (tr_dst r) 0 n);
        State_Monad.return (Next_loop r)
      })"

definition test_step ::
  "'w platform \<Rightarrow> 'w host \<Rightarrow> nat \<Rightarrow> int \<Rightarrow> nat \<Rightarrow> test_run \<Rightarrow> ('w, loop_step option) prog" where
  "test_step K H fuel pid i r = do {
     (first_we, last_we, weq) \<leftarrow> press_go K r;
     let r = r\<lparr>tr_weq := weq\<rparr>;
     w \<leftarrow> wait_done K H fuel pid r last_we;
     (case w of
        None \<Rightarrow> State_Monad.return None
      | Some rc \<Rightarrow>
          if rc \<noteq> 0 then State_Monad.return (Some (Goto_err_status r))
          else do {
            good \<leftarrow> statuses_good K pid (tr_args r) first_we last_we;
            if \<not> good then State_Monad.return (Some (Goto_err_status r))
            else do {
              good \<leftarrow> result_good K pid i r;
              if \<not> good then State_Monad.return (Some (Goto_err_status r))
              else do {
                rc \<leftarrow> (if use_irq (tr_args r) \<or> wake_host_thread (tr_args r)
                       then restart_afu K pid (tr_pp_mmio r) else State_Monad.return 0);
                if rc \<noteq> 0 then State_Monad.return (Some (Goto_err_status r))
                else do { t \<leftarrow> next_buffers K H pid r; State_Monad.return (Some t) }
              }
            }
          })
   }"

fun test_loop ::
  "'w platform \<Rightarrow> 'w host \<Rightarrow> nat \<Rightarrow> int \<Rightarrow> nat list \<Rightarrow> test_run \<Rightarrow> ('w, loop_step option) prog" where
  "test_loop K H fuel pid [] r = State_Monad.return (Some (Next_loop r))"
| "test_loop K H fuel pid (i # is) r = do {
     t \<leftarrow> test_step K H fuel pid i r;
     (case t of
        Some (Next_loop r) \<Rightarrow> test_loop K H fuel pid is r
      | _ \<Rightarrow> State_Monad.return t)
   }"

text \<open>The end of the test (lines 629 to 644): True is good.\<close>

definition elapsed :: "timeval \<Rightarrow> timeval \<Rightarrow> int" where
  "elapsed t0 t1 = sint (of_int ((tv_sec t1 - tv_sec t0) * 1000000 + tv_usec t1 - tv_usec t0) :: 32 word)"

definition no_late_event :: "'w platform \<Rightarrow> nat \<Rightarrow> int \<Rightarrow> u64 \<Rightarrow> ('w, bool option) prog" where
  "no_late_event K fuel pid err_irq_ea = do {
     e \<leftarrow> ocxl_afu_event_check K fuel 0 [None] 1;
     (case e of
        None \<Rightarrow> State_Monad.return None
      | Some (nevent, events) \<Rightarrow>
          if nevent = 0 then State_Monad.return (Some True)
          else if nevent = 1 then do {
            event \<leftarrow> event_at events 0;
            (if event_irq_handle K event = err_irq_ea
             then test_err pid ''received error interrupt at end of test'' []
             else test_err pid ''received unexpected event at end of test, type %d'' [FInt (event_type event)]);
            State_Monad.return (Some False)
          } else do {
            test_err pid ''invalid return value for ocxl_afu_event_check: %d'' [FInt nevent];
            State_Monad.return (Some False)
          })
   }"

text \<open>The labels \<open>err_status\<close> and \<open>err\<close> (lines 652 to 662).\<close>

definition leave :: "'w platform \<Rightarrow> 'w host \<Rightarrow> memcpy_test_args \<Rightarrow> int \<Rightarrow> ('w, int) prog" where
  "leave K H args code = do {
     ocxl_afu_close K;
     whenM (shared_mem args) (shm_destroy K H args);
     State_Monad.return code
   }"

definition err_status :: "'w platform \<Rightarrow> int \<Rightarrow> ocxl_mmio_h \<Rightarrow> ('w, unit) prog" where
  "err_status K pid pp_mmio = do {
     (err, status) \<leftarrow> ocxl_mmio_read64 K pp_mmio MEMCPY_AFU_PP_STATUS OCXL_MMIO_LITTLE_ENDIAN;
     if err \<noteq> OCXL_OK then test_err pid ''read of process status failed: %d'' [FInt (err_code err)]
     else test_err pid ''process status at end of failed test=0x%lx'' [FInt (uint (the status))]
   }"

text \<open>From the open AFU to the first loop (lines 417 to 516), and the rest of the function.\<close>

definition test_prepare ::
  "'w platform \<Rightarrow> 'w host \<Rightarrow> int \<Rightarrow> memcpy_test_args \<Rightarrow> u64 \<Rightarrow> u64 \<Rightarrow> ('w, test_run option) prog" where
  "test_prepare K H pid args src dst = do {
     weq \<leftarrow> memcpy3_init_weq K H QUEUE_SIZE;
     let wed = MEMCPY_WED (weq_queue weq) (of_nat (QUEUE_SIZE div CACHELINESIZE));
     test_inf pid ''WED = 0x%lx  src = %p  dst = %p'' [FInt (uint wed), FPtr src, FPtr dst];
     c \<leftarrow> completion_element K pid args;
     (case c of
        None \<Rightarrow> State_Monad.return None
      | Some (afu_irq_ea, irq_we) \<Rightarrow> do {
          d \<leftarrow> test_connect K pid wed;
          (case d of
             None \<Rightarrow> State_Monad.return None
           | Some (err_irq_ea, pp_mmio) \<Rightarrow> do {
               r \<leftarrow> test_source K pid \<lparr>tr_args = args, tr_weq = weq, tr_src = src, tr_dst = dst,
                 tr_atomic_cas_we = atomic_cas_element K dst, tr_increment_we = increment_element K src dst,
                 tr_memcpy_we = memcpy_element K (buf_size args) src dst, tr_irq_we = irq_we,
                 tr_afu_irq_ea = afu_irq_ea, tr_err_irq_ea = err_irq_ea, tr_pp_mmio = pp_mmio\<rparr>;
               State_Monad.return (Some r)
             })
        })
   }"

definition test_finish ::
  "'w platform \<Rightarrow> 'w host \<Rightarrow> nat \<Rightarrow> int \<Rightarrow> timeval \<Rightarrow> loop_step \<Rightarrow> ('w, int option) prog" where
  "test_finish K H fuel pid t0 step =
     (case step of
        Goto_err r \<Rightarrow> do { code \<leftarrow> leave K H (tr_args r) (- 1); State_Monad.return (Some code) }
      | Goto_err_status r \<Rightarrow> do {
          err_status K pid (tr_pp_mmio r);
          code \<leftarrow> leave K H (tr_args r) (- 1);
          State_Monad.return (Some code)
        }
      | Next_loop r \<Rightarrow> do {
          t1 \<leftarrow> gettimeofday H;
          good \<leftarrow> no_late_event K fuel pid (tr_err_irq_ea r);
          (case good of
             None \<Rightarrow> State_Monad.return None
           | Some False \<Rightarrow> do {
               err_status K pid (tr_pp_mmio r);
               code \<leftarrow> leave K H (tr_args r) (- 1);
               State_Monad.return (Some code)
             }
           | Some True \<Rightarrow> do {
               test_inf pid ''%d loops in %d uS (%0.2f uS per loop)''
                 [FInt (loop_count (tr_args r)), FInt (elapsed t0 t1),
                  FReal (h_ratio_text H (elapsed t0 t1) (loop_count (tr_args r)))];
               code \<leftarrow> leave K H (tr_args r) 0;
               State_Monad.return (Some code)
             })
        })"

definition test_session ::
  "'w platform \<Rightarrow> 'w host \<Rightarrow> nat \<Rightarrow> int \<Rightarrow> memcpy_test_args \<Rightarrow> u64 \<Rightarrow> u64 \<Rightarrow> ('w, int option) prog" where
  "test_session K H fuel pid args src dst = do {
     p \<leftarrow> test_prepare K H pid args src dst;
     (case p of
        None \<Rightarrow> do { code \<leftarrow> leave K H args (- 1); State_Monad.return (Some code) }
      | Some r \<Rightarrow> do {
          t0 \<leftarrow> gettimeofday H;
          t \<leftarrow> test_loop K H fuel pid [0..<nat (loop_count args)] r;
          (case t of
             None \<Rightarrow> State_Monad.return None
           | Some step \<Rightarrow> test_finish K H fuel pid t0 step)
        })
   }"

definition test_afu_memcpy :: "'w platform \<Rightarrow> 'w host \<Rightarrow> nat \<Rightarrow> memcpy_test_args \<Rightarrow> ('w, int option) prog" where
  "test_afu_memcpy K H fuel args = do {
     pid \<leftarrow> getpid H;
     b \<leftarrow> test_buffers K H pid args;
     (case b of
        Inl code \<Rightarrow> State_Monad.return (Some code)
      | Inr (args, src, dst) \<Rightarrow> do {
          ocxl_enable_messages OCXL_ERRORS;
          (err, _) \<leftarrow> open_device K args;
          if err \<noteq> OCXL_OK then do {
            test_err pid ''ocxl_afu_open() failed: %d'' [FInt (err_code err)];
            State_Monad.return (Some (- 1))
          } else test_session K H fuel pid args src dst
        })
   }"

section \<open>The program\<close>

fun print_lines :: "string list \<Rightarrow> ('w, unit) prog" where
  "print_lines [] = skip"
| "print_lines (t # ts) = do { say Stderr (t @ nl) []; print_lines ts }"

definition usage_text :: "string list" where
  "usage_text = (let tab = [CHR 0x09] in [''Options:'',
     tab @ ''-A'' @ tab @ tab @ ''Run the atomic compare and swap test'',
     tab @ ''-a'' @ tab @ tab @ ''Run the increment test'',
     tab @ ''-d <device>'' @ tab @ ''Use this opencapi card'',
     tab @ ''-I'' @ tab @ tab @ ''Initialize the destination buffer after each loop'',
     tab @ ''-i'' @ tab @ tab @ ''Send an interrupt after copy'',
     tab @ ''-w'' @ tab @ tab @ ''Send a wake_host_thread command after copy'',
     tab @ ''-l <loops>'' @ tab @ ''Run this number of memcpy loops (default 1)'',
     tab @ ''-p <procs>'' @ tab @ ''Fork this number of processes (default 1)'',
     tab @ ''-p 0'' @ tab @ tab @ ''Use the maximum number of processes permitted by the AFU'',
     tab @ ''-r'' @ tab @ tab @ ''Reallocate the destination buffer in between 2 loops'',
     tab @ ''-S'' @ tab @ tab @ ''Operate on shared memory'',
     tab @ ''-s <bufsize>'' @ tab @ ''Copy this number of bytes (default 2048)'',
     tab @ ''-t <timeout>'' @ tab @ ''Seconds to wait for the AFU to signal completion''])"

text \<open>\<open>usage\<close> ends the program with status 1.\<close>

definition usage :: "string \<Rightarrow> ('w, int) prog" where
  "usage name = do {
     say Stderr (''Usage: %s [ options ]'' @ nl) [FStr name];
     print_lines usage_text;
     State_Monad.return 1
   }"

definition test_options :: "(char \<times> bool) list" where
  "test_options = [(CHR ''a'', False), (CHR ''A'', False), (CHR ''h'', False), (CHR ''l'', True),
     (CHR ''p'', True), (CHR ''S'', False), (CHR ''s'', True), (CHR ''I'', False), (CHR ''i'', False),
     (CHR ''t'', True), (CHR ''r'', False), (CHR ''d'', True), (CHR ''w'', False)]"

definition default_args :: memcpy_test_args where
  "default_args = \<lparr>loop_count = 1, buf_size = 2048, use_irq = False, completion_timeout = - 1,
     reallocate = False, initialize = False, device = None, wake_host_thread = False, increment = False,
     atomic_cas = False, shared_mem = False, shmid = - 1, lock = 0, counter = 0\<rparr>"

definition test_option :: "char \<Rightarrow> string \<Rightarrow> memcpy_test_args \<times> int \<Rightarrow> memcpy_test_args \<times> int" where
  "test_option c optarg st = (case st of (args, processes) \<Rightarrow>
     if c = CHR ''l'' then (args\<lparr>loop_count := atoi optarg\<rparr>, processes)
     else if c = CHR ''p'' then (args, atoi optarg)
     else if c = CHR ''s'' then (args\<lparr>buf_size := atoi optarg\<rparr>, processes)
     else if c = CHR ''i'' then (args\<lparr>use_irq := True\<rparr>, processes)
     else if c = CHR ''t'' then (args\<lparr>completion_timeout := atoi optarg\<rparr>, processes)
     else if c = CHR ''r'' then (args\<lparr>reallocate := True\<rparr>, processes)
     else if c = CHR ''I'' then (args\<lparr>initialize := True\<rparr>, processes)
     else if c = CHR ''d'' then (args\<lparr>device := Some optarg\<rparr>, processes)
     else if c = CHR ''w'' then (args\<lparr>wake_host_thread := True\<rparr>, processes)
     else if c = CHR ''a'' then (args\<lparr>increment := True\<rparr>, processes)
     else if c = CHR ''A'' then (args\<lparr>atomic_cas := True\<rparr>, processes)
     else if c = CHR ''S'' then (args\<lparr>shared_mem := True\<rparr>, processes)
     else (args, processes))"

text \<open>The loop over the options: \<open>None\<close> when it calls \<open>usage\<close>.\<close>

fun test_switch :: "(char \<times> string) list \<Rightarrow> memcpy_test_args \<times> int \<Rightarrow> (memcpy_test_args \<times> int) option" where
  "test_switch [] st = Some st"
| "test_switch ((c, optarg) # cs) st =
     (if c = CHR ''?'' \<or> c = CHR ''h'' then None else test_switch cs (test_option c optarg st))"

text \<open>The defaults that depend on other options (lines 754 to 761); the quotient is C's.\<close>

definition test_defaults :: "memcpy_test_args \<times> int \<Rightarrow> memcpy_test_args \<times> int" where
  "test_defaults st = (case st of (args, processes) \<Rightarrow>
     let processes = (if processes = 0 then AFU_MAX_PROCESSES else processes);
         fifth = (if processes < 0 then - (- processes div 5) else processes div 5)
     in (if completion_timeout args = - 1
         then args\<lparr>completion_timeout := (if fifth < 10 then 10 else fifth)\<rparr> else args, processes))"

text \<open>The first complaint about the options (lines 763 to 791).\<close>

definition test_conflict :: "memcpy_test_args \<Rightarrow> string list \<Rightarrow> (string \<times> farg list) option" where
  "test_conflict args rest =
     (if rest \<noteq> [] then Some (''Error: Unexpected argument '%s'' @ squote, [FStr (hd rest)])
      else if wake_host_thread args \<and> use_irq args then Some (''Error: -i and -w are mutually exclusive'', [])
      else if atomic_cas args \<and> reallocate args then Some (''Error: -A and -r are mutually exclusive'', [])
      else if atomic_cas args \<and> shared_mem args then Some (''Error: -A and -S are mutually exclusive'', [])
      else if increment args \<and> reallocate args then Some (''Error: -a and -r are mutually exclusive'', [])
      else if increment args \<and> shared_mem args then Some (''Error: -a and -S are mutually exclusive'', [])
      else None)"

definition size_invalid :: "int \<Rightarrow> bool" where
  "size_invalid n = (n > 2048 \<or> n mod 64 \<noteq> 0)"

text \<open>The options of the program: the status it ends with, or the arguments of the test and the
  number of processes.\<close>

definition test_arguments :: "string \<Rightarrow> string list \<Rightarrow> ('w, int + memcpy_test_args \<times> int) prog" where
  "test_arguments name argv =
     (case getopt test_options argv [] of (opts, rest) \<Rightarrow>
        (case test_switch opts (default_args, 1) of
           None \<Rightarrow> do { code \<leftarrow> usage name; State_Monad.return (Inl code) }
         | Some st \<Rightarrow>
             (case test_defaults st of (args, processes) \<Rightarrow>
                (case test_conflict args rest of
                   Some (fmt, fargs) \<Rightarrow> do {
                     say Stderr (fmt @ nl) fargs;
                     code \<leftarrow> usage name;
                     State_Monad.return (Inl code)
                   }
                 | None \<Rightarrow>
                     if size_invalid (buf_size args) then do {
                       say Stderr (''invalid buffer size %d'' @ nl) [FInt (buf_size args)];
                       State_Monad.return (Inl (- 1))
                     } else State_Monad.return (Inr (args, processes))))))"

text \<open>The calls of \<open>wait\<close> (lines 820 to 829): the process it gives, and the status, unless the
  call failed and has not written it.\<close>

definition read_status :: "int option \<Rightarrow> ('w, int) prog" where
  "read_status j = (case j of
       Some v \<Rightarrow> State_Monad.return v
     | None \<Rightarrow> do { undefined_behaviour UB_indeterminate; State_Monad.return 0 })"

fun tally :: "(int \<times> int option) list \<Rightarrow> int option \<Rightarrow> int \<Rightarrow> int \<Rightarrow> ('w, int \<times> int) prog" where
  "tally [] j rc failing = State_Monad.return (rc, failing)"
| "tally ((pid, st) # ws) j rc failing = do {
     let j = (case st of Some v \<Rightarrow> Some v | None \<Rightarrow> j);
     v \<leftarrow> (if pid \<noteq> 0 then read_status j else State_Monad.return 0);
     if v \<noteq> 0 then tally ws j (rc + 1) (if failing = - 1 then pid else failing)
     else tally ws j rc failing
   }"

definition shared_counter :: "'w platform \<Rightarrow> memcpy_test_args \<Rightarrow> ('w, int) prog" where
  "shared_counter K args = do { v \<leftarrow> load32 K (counter args); State_Monad.return (sint v) }"

text \<open>The end of \<open>main\<close> (lines 830 to 846).\<close>

text \<open>The check of the counter after the atomic test (lines 830 to 840): True when it is wrong.\<close>

definition bad_counter :: "'w platform \<Rightarrow> 'w host \<Rightarrow> memcpy_test_args \<Rightarrow> int \<Rightarrow> ('w, bool) prog" where
  "bad_counter K H args processes = (if atomic_cas args then do {
     v \<leftarrow> shared_counter K args;
     m \<leftarrow> int_mul processes (loop_count args);
     if v \<noteq> m then do {
       say Stderr (''Atomicity Error:'' @ nl) [];
       say Stderr (''  procs=%d'' @ nl) [FInt processes];
       say Stderr (''  loops=%d'' @ nl) [FInt (loop_count args)];
       say Stderr (''  procs*loops=%d'' @ nl) [FInt m];
       v \<leftarrow> shared_counter K args;
       say Stderr (''  count=%d (should be %d)'' @ nl) [FInt v, FInt m];
       State_Monad.return True
     } else do { shm_destroy K H args; State_Monad.return False }
   } else State_Monad.return False)"

definition test_verdict ::
  "'w platform \<Rightarrow> 'w host \<Rightarrow> memcpy_test_args \<Rightarrow> int \<Rightarrow> int \<Rightarrow> int \<Rightarrow> ('w, int) prog" where
  "test_verdict K H args processes rc failing = do {
     bad \<leftarrow> bad_counter K H args processes;
     if bad then State_Monad.return (- 1)
     else do {
       (if rc \<noteq> 0
        then say Stderr (''%d test(s) failed. Check process %d, maybe others'' @ nl) [FInt rc, FInt failing]
        else say Stdout (''Test successful'' @ nl) []);
       State_Monad.return rc
     }
   }"

text \<open>The lock and the counter of the processes (lines 803 to 812): \<open>None\<close> ends the program.\<close>

definition shared_setup ::
  "'w platform \<Rightarrow> 'w host \<Rightarrow> memcpy_test_args \<Rightarrow> ('w, memcpy_test_args option) prog" where
  "shared_setup K H args =
     (if atomic_cas args then do {
        (rc, args) \<leftarrow> shm_create K H args;
        if rc \<noteq> 0 then State_Monad.return None
        else do {
          c_memset K (lock args) 0 (size_arg (buf_size args));
          c_memset K (counter args) 0 (size_arg (buf_size args));
          say Stdout (''Shared memory ID: %i attached at: %p'' @ nl) [FInt (shmid args), FPtr (lock args)];
          State_Monad.return (Some args)
        }
      } else State_Monad.return (Some args))"

definition test_main ::
  "'w platform \<Rightarrow> 'w host \<Rightarrow> (memcpy_test_args \<Rightarrow> int \<Rightarrow> 'w \<Rightarrow> (int \<times> int option) list \<times> 'w) \<Rightarrow>
   string \<Rightarrow> string list \<Rightarrow> ('w, int) prog" where
  "test_main K H children name argv = do {
     a \<leftarrow> test_arguments name argv;
     (case a of
        Inl code \<Rightarrow> State_Monad.return code
      | Inr (args, processes) \<Rightarrow> do {
          rc \<leftarrow> global_setup_test K H args;
          if rc \<noteq> 0 then State_Monad.return 1
          else do {
            b \<leftarrow> shared_setup K H args;
            (case b of
               None \<Rightarrow> State_Monad.return 1
             | Some args \<Rightarrow> do {
                 ws \<leftarrow> sys (children args processes);
                 (rc, failing) \<leftarrow> tally ws None 0 (- 1);
                 test_verdict K H args processes rc failing
               })
          }
        })
   }"

section \<open>Filling the source\<close>

lemma store_each_calls:
  "wp (store_each K p v is) (\<lambda>_ s'. calls s' = calls s @ map (\<lambda>i. CStore (p + of_nat i) [v]) is) s"
proof (induction "is" arbitrary: s)
  case (Cons i "is")
  then show ?case by (auto simp: wp_simps wp_call intro!: wp_mono [OF Cons])
qed (simp add: wp_simps)

section \<open>The books of the AFU\<close>

lemma quiet_test [quiet_intros]:
  "quiet (test_err pid fmt args)" "quiet (test_inf pid fmt args)" "quiet (getpid H)"
  unfolding test_err_def test_inf_def getpid_def by (intro quiet_intros quiet_basic)+

lemma quiet_store_each: "quiet (store_each K p v is)"
  by (induction "is") (auto intro!: quiet_intros)

lemma quiet_fill_source [quiet_intros]: "quiet (fill_source K p pid sz)"
  unfolding fill_source_def by (rule quiet_store_each)

lemma quiet_shm [quiet_intros]: "quiet (shm_create K H args)" "quiet (shm_destroy K H args)"
  unfolding shm_create_def shm_destroy_def by (intro quiet_intros quiet_basic)+

lemma quiet_work [quiet_intros]:
  "quiet (restart_afu K pid h)" "quiet (test_source K pid r)" "quiet (queue_work K r)"
  "quiet (statuses_good K pid args p q)" "quiet (result_good K pid i r)" "quiet (err_status K pid h)"
  unfolding restart_afu_def test_source_def queue_work_def statuses_good_def result_good_def err_status_def Let_def
  by (intro quiet_intros quiet_basic)+

lemma quiet_go [quiet_intros]: "quiet (press_go K r)" "quiet (next_buffers K H pid r)"
  unfolding press_go_def next_buffers_def Let_def by (intro quiet_intros quiet_basic)+

declare quiet_test [THEN uses_quiet, uses_intros] quiet_work [THEN uses_quiet, uses_intros]
  quiet_go [THEN uses_quiet, uses_intros] quiet_shm [THEN uses_quiet, uses_intros]

lemma uses_poll_status [uses_intros]: "uses 0 0 (poll_status K H fuel deadline temp p pid)"
proof (induction fuel arbitrary: temp)
  case 0
  then show ?case by (simp add: uses_intros)
next
  case (Suc fuel)
  show ?case
    unfolding poll_status.simps by (rule uses_mono, (rule uses_intros Suc)+, simp_all)
qed

lemma uses_fast_loop [uses_intros]: "uses 0 0 (fast_loop K H fuel deadline p pid)"
proof (induction fuel)
  case 0
  then show ?case by (simp add: uses_intros)
next
  case (Suc fuel)
  show ?case
    unfolding fast_loop.simps by (rule uses_mono, (rule uses_intros Suc)+, simp_all)
qed

lemma uses_waits [uses_intros]:
  "uses 0 0 (wait_for_status_test K H fuel p t pid)"
  "uses 0 0 (wake_interrupt K fuel p pid irq_ea)"
  "uses 0 0 (no_late_event K fuel pid err_ea)"
  unfolding wait_for_status_test_def wake_interrupt_def no_late_event_def
  by (rule uses_mono, (rule uses_intros)+, simp_all)+

lemma uses_wait_irq_fast [uses_intros]:
  "uses 0 0 (wait_for_irq_test K H fuel p t pid irq_ea err_ea)" "uses 0 0 (wait_fast K H fuel p t pid irq_ea)"
  unfolding wait_for_irq_test_def wait_fast_def by (rule uses_mono, (rule uses_intros)+, simp_all)+

lemma uses_wait_done [uses_intros]: "uses 0 0 (wait_done K H fuel pid r p)"
  unfolding wait_done_def by (rule uses_mono, (rule uses_intros)+, simp_all)

lemma uses_test_step [uses_intros]: "uses 0 0 (test_step K H fuel pid i r)"
  unfolding test_step_def by (rule uses_mono, (rule uses_intros)+, simp_all)

lemma uses_loop_step:
  "(\<And>x. uses a b (f x)) \<Longrightarrow> uses a b m \<Longrightarrow> uses a b (case z of Some (Next_loop x) \<Rightarrow> f x | _ \<Rightarrow> m)"
  by (simp split: option.split loop_step.split)

lemma uses_test_loop [uses_intros]: "uses 0 0 (test_loop K H fuel pid is r)"
proof (induction "is" arbitrary: r)
  case Nil
  then show ?case by (simp add: uses_intros)
next
  case (Cons i "is")
  have "uses (0 + 0) (0 + 0) (test_loop K H fuel pid (i # is) r)"
    unfolding test_loop.simps
    by (intro uses_bind uses_test_step uses_loop_step Cons uses_quiet [OF quiet_return])
  then show ?case by simp
qed

lemma uses_test_prepare:
  assumes "irq_laws K"
  shows "uses 1 2 (test_prepare K H pid args src dst)"
  unfolding test_prepare_def completion_element_def test_connect_def
  by (rule uses_mono, (rule uses_intros uses_map [OF assms] uses_irq_alloc [OF assms])+, simp_all)

lemma closed_since_quiet: "closed_since s s1 \<Longrightarrow> untouched s1 s2 \<Longrightarrow> closed_since s s2"
  by (simp add: closed_since_def untouched_def)

lemma leave_spec:
  assumes "books s p q s1"
  shows "wp (leave K H args code) (\<lambda>r s'. r = code \<and> closed_since s s') s1"
  unfolding leave_def wp_bind wp_return
proof (rule wp_mono [OF close_since [OF assms]], elim conjE)
  fix s2
  assume "closed_since s s2"
  then show "wp (whenM (shared_mem args) (shm_destroy K H args)) (\<lambda>_ s'. code = code \<and> closed_since s s') s2"
    by (intro wp_mono [OF quietD [OF quiet_whenM [OF quiet_shm(2)]]]) (auto intro: closed_since_quiet)
qed

text \<open>The test on an AFU that has just been opened in state \<open>s\<close> ends with it closed, or is still
  waiting with it open.\<close>

definition test_post :: "'w st \<Rightarrow> int option \<Rightarrow> 'w st \<Rightarrow> bool" where
  "test_post s r s' \<longleftrightarrow> (case r of None \<Rightarrow> \<exists>p q. books s p q s'
     | Some code \<Rightarrow> (code = 0 \<or> code = - 1) \<and> closed_since s s')"

lemma leave_post:
  assumes "books s p q s1" "code = 0 \<or> code = - 1"
  shows "wp (do { c \<leftarrow> leave K H args code; State_Monad.return (Some c) }) (test_post s) s1"
  unfolding wp_bind wp_return
  by (rule wp_mono [OF leave_spec [OF assms(1)]]) (use assms(2) in \<open>auto simp: test_post_def\<close>)

lemma err_status_post:
  assumes "books s p q s1" "p \<le> table_limit" "q \<le> table_limit"
  shows "wp (do { err_status K pid h; c \<leftarrow> leave K H args (- 1); State_Monad.return (Some c) }) (test_post s) s1"
  unfolding wp_bind [of "err_status K pid h"]
  by (rule uses_books [OF uses_quiet [OF quiet_work(6)] assms(1)])
    (use assms in \<open>auto intro: leave_post\<close>)

lemma test_finish_spec:
  assumes b: "books s p q s1" and lim: "p \<le> table_limit" "q \<le> table_limit"
  shows "wp (test_finish K H fuel pid t0 step) (test_post s) s1"
proof (cases step)
  case (Next_loop r)
  have late: "wp (case good of None \<Rightarrow> State_Monad.return None
      | Some False \<Rightarrow> do { err_status K pid (tr_pp_mmio r); c \<leftarrow> leave K H (tr_args r) (- 1); State_Monad.return (Some c) }
      | Some True \<Rightarrow> do { test_inf pid fmt fargs; c \<leftarrow> leave K H (tr_args r) 0; State_Monad.return (Some c) })
      (test_post s) s2" if b2: "books s p q s2" for good s2 fmt fargs
  proof (cases good)
    case None
    with b2 show ?thesis by (auto simp: wp_return test_post_def)
  next
    case (Some g)
    have "wp (do { test_inf pid fmt fargs; c \<leftarrow> leave K H (tr_args r) 0; State_Monad.return (Some c) }) (test_post s) s2"
      unfolding wp_bind [of "test_inf pid fmt fargs"]
      by (rule uses_books [OF uses_quiet [OF quiet_test(2)] b2]) (use lim in \<open>auto intro: leave_post\<close>)
    with Some show ?thesis by (cases g) (auto intro: err_status_post [OF b2 lim])
  qed
  show ?thesis
    unfolding test_finish_def Next_loop loop_step.case wp_bind [of "gettimeofday H"] wp_bind [of "no_late_event _ _ _ _"]
  proof (rule uses_books [OF uses_quiet [OF quiet_client(2)] b])
    fix t1 s2
    assume "books s (p + 0) (q + 0) s2"
    then show "wp (no_late_event K fuel pid (tr_err_irq_ea r)) (\<lambda>good. wp (case good of None \<Rightarrow> State_Monad.return None
      | Some False \<Rightarrow> do { err_status K pid (tr_pp_mmio r); c \<leftarrow> leave K H (tr_args r) (- 1); State_Monad.return (Some c) }
      | Some True \<Rightarrow> do { test_inf pid ''%d loops in %d uS (%0.2f uS per loop)''
                 [FInt (loop_count (tr_args r)), FInt (elapsed t0 t1),
                  FReal (h_ratio_text H (elapsed t0 t1) (loop_count (tr_args r)))];
          c \<leftarrow> leave K H (tr_args r) 0; State_Monad.return (Some c) }) (test_post s)) s2"
      by (rule uses_books [OF uses_waits(3)]) (use lim in \<open>simp_all add: late\<close>)
  qed (use lim in simp_all)
qed (use assms in \<open>auto simp: test_finish_def intro: leave_post err_status_post\<close>)

lemma test_session_spec:
  assumes "irq_laws K" "afu_inv (cur_afu s)" "within 0 0 (cur_afu s)"
  shows "wp (test_session K H fuel pid args src dst) (test_post s) s"
proof -
  have lim: "2 \<le> table_limit" by (simp add: table_limit_def)
  have finish: "wp (case t of None \<Rightarrow> State_Monad.return None
      | Some step \<Rightarrow> test_finish K H fuel pid t0 step) (test_post s) s2" if "books s 1 2 s2" for t t0 s2
    using lim that by (cases t) (auto simp: wp_return test_post_def intro!: test_finish_spec [OF that])
  have loops: "wp (test_loop K H fuel pid is r) (\<lambda>t. wp (case t of None \<Rightarrow> State_Monad.return None
      | Some step \<Rightarrow> test_finish K H fuel pid t0 step) (test_post s)) s2" if "books s 1 2 s2" for "is" r t0 s2
    by (rule uses_books [OF uses_test_loop that]) (use lim in \<open>auto intro!: finish\<close>)
  have timed: "wp (gettimeofday H) (\<lambda>t0. wp (do { t \<leftarrow> test_loop K H fuel pid is r;
      (case t of None \<Rightarrow> State_Monad.return None | Some step \<Rightarrow> test_finish K H fuel pid t0 step) }) (test_post s)) s2"
    if "books s 1 2 s2" for "is" r s2
    unfolding wp_bind
    by (rule uses_books [OF uses_quiet [OF quiet_client(2)] that]) (use lim in \<open>auto intro!: loops\<close>)
  show ?thesis
    unfolding test_session_def wp_bind [of "test_prepare _ _ _ _ _ _"]
  proof (rule uses_books [OF uses_test_prepare [OF assms(1)] books_refl [OF assms(2,3)]])
    fix x s2
    assume "books s (0 + 1) (0 + 2) s2"
    then have b: "books s 1 2 s2" by (simp only: add_0)
    show "wp (case x of None \<Rightarrow> do { code \<leftarrow> leave K H args (- 1); State_Monad.return (Some code) }
      | Some r \<Rightarrow> do { t0 \<leftarrow> gettimeofday H; t \<leftarrow> test_loop K H fuel pid [0..<nat (loop_count args)] r;
          (case t of None \<Rightarrow> State_Monad.return None | Some step \<Rightarrow> test_finish K H fuel pid t0 step) }) (test_post s) s2"
      using timed [OF b] leave_post [OF b] by (cases x) (simp_all add: wp_bind [of "gettimeofday H"])
  qed (use lim in simp_all)
qed

section \<open>Time\<close>

definition stamp :: "timeval \<Rightarrow> int" where "stamp t = tv_sec t * 1000000 + tv_usec t"

definition normal_time :: "timeval \<Rightarrow> bool" where "normal_time t \<longleftrightarrow> 0 \<le> tv_usec t \<and> tv_usec t < 1000000"

lemma timer_after_stamp:
  assumes "normal_time a" "normal_time b"
  shows "timer_after a b \<longleftrightarrow> stamp b < stamp a"
  using assms unfolding timer_after_def stamp_def normal_time_def by auto

lemma timeradd_stamp:
  assumes "normal_time a" "normal_time b"
  shows "normal_time (timeradd a b)" "stamp (timeradd a b) = stamp a + stamp b"
  using assms unfolding timeradd_def stamp_def normal_time_def by (auto simp: Let_def)

text \<open>Time passes. \<open>now\<close> is the time of a world in whole microseconds. No call turns it back, and reading
  the clock gives a time between the start of the call and its end, so that any number of calls may share
  a microsecond; but the calls take time, and no span of time has room for infinitely many of them.\<close>

definition host_call :: "'w platform \<Rightarrow> 'w host \<Rightarrow> 'w \<Rightarrow> 'w \<Rightarrow> bool" where
  "host_call K H w w' \<longleftrightarrow> (\<exists>a n. w' = snd (os_load K a n w)) \<or> w' = snd (h_gettimeofday H w) \<or> w' = h_ocxl_wait H w"

definition time_passes :: "'w platform \<Rightarrow> 'w host \<Rightarrow> ('w \<Rightarrow> int) \<Rightarrow> bool" where
  "time_passes K H now \<longleftrightarrow> (\<forall>w. 0 \<le> now w) \<and> (\<forall>w w'. host_call K H w w' \<longrightarrow> now w \<le> now w') \<and>
     (\<forall>w t w'. h_gettimeofday H w = (t, w') \<longrightarrow> normal_time t \<and> now w \<le> stamp t \<and> stamp t \<le> now w') \<and>
     (\<forall>f until. (\<forall>i. host_call K H (f i) (f (Suc i))) \<longrightarrow> (\<exists>i. until < now (f i)))"

lemma time_passes_call:
  assumes "time_passes K H now"
  shows "os_load K a n w = (bs, w') \<Longrightarrow> now w \<le> now w'" "now w \<le> now (h_ocxl_wait H w)"
    and "h_gettimeofday H w = (t, w') \<Longrightarrow> normal_time t \<and> now w \<le> stamp t \<and> stamp t \<le> now w'"
  using assms unfolding time_passes_def host_call_def by (metis snd_conv)+

text \<open>The calls made before a time are a well-founded relation.\<close>

definition calls_before :: "'w platform \<Rightarrow> 'w host \<Rightarrow> ('w \<Rightarrow> int) \<Rightarrow> int \<Rightarrow> ('w \<times> 'w) set" where
  "calls_before K H now until = {(w', w). host_call K H w w' \<and> now w \<le> until}"

lemma wf_calls_before:
  assumes "time_passes K H now"
  shows "wf ((calls_before K H now until)\<^sup>+)"
proof (rule wf_trancl, unfold wf_iff_no_infinite_down_chain, rule notI)
  assume "\<exists>f. \<forall>i. (f (Suc i), f i) \<in> calls_before K H now until"
  then obtain f where f: "\<And>i. host_call K H (f i) (f (Suc i))" "\<And>i. now (f i) \<le> until"
    by (auto simp: calls_before_def)
  with assms obtain i where "until < now (f i)" unfolding time_passes_def by blast
  with f(2) [of i] show False by simp
qed

lemma poll_before:
  assumes "time_passes K H now" "os_load K a n w = (bs, w1)" "h_gettimeofday H w1 = (t, w2)" "stamp t \<le> until"
  shows "(w2, w) \<in> (calls_before K H now until)\<^sup>+"
proof -
  have "now w \<le> now w1" "now w1 \<le> stamp t" using time_passes_call [OF assms(1)] assms(2,3) by blast+
  moreover have "host_call K H w w1" "host_call K H w1 w2"
    using assms(2,3) unfolding host_call_def by (metis snd_conv)+
  ultimately have "(w1, w) \<in> calls_before K H now until" "(w2, w1) \<in> calls_before K H now until"
    using assms(4) by (simp_all add: calls_before_def)
  then show ?thesis by (rule trancl_into_trancl [OF r_into_trancl, rotated])
qed

lemma wait_before:
  assumes "time_passes K H now" "(w2, h_ocxl_wait H w) \<in> (calls_before K H now until)\<^sup>+"
    and "now (h_ocxl_wait H w) \<le> until"
  shows "(w2, w) \<in> (calls_before K H now until)\<^sup>+"
proof -
  have "(h_ocxl_wait H w, w) \<in> calls_before K H now until"
    using time_passes_call(2) [OF assms(1), of w] assms(3) by (auto simp: calls_before_def host_call_def)
  with assms(2) show ?thesis by (rule trancl_into_trancl)
qed

text \<open>The status of an element was not 0 in the last access to memory.\<close>

definition status_seen :: "'w platform \<Rightarrow> u64 \<Rightarrow> 'w st \<Rightarrow> bool" where
  "status_seen K we s \<longleftrightarrow> (\<exists>w bs. os_load K (we + 1) 1 w = (bs, wld s) \<and> native_word K bs \<noteq> (0 :: u8))"

lemma wp_status [wp_call]:
  "wp (we_status_at K we) Q s = (case os_load K (we + 1) 1 (wld s) of (bs, w) \<Rightarrow>
     Q (native_word K bs) (s\<lparr>wld := w, calls := calls s @ [CLoad (we + 1) 1]\<rparr>))"
  by (simp add: we_status_at_def load8_def wp_simps wp_call)

lemma wp_gettimeofday [wp_call]:
  "wp (gettimeofday H) Q s = (case h_gettimeofday H (wld s) of (t, w) \<Rightarrow> Q t (s\<lparr>wld := w\<rparr>))"
  by (simp add: gettimeofday_def wp_simps)

lemma wp_test_err [wp_call]:
  "wp (test_err pid fmt args) Q s = Q () (say_state Stderr (''Process %d: '' @ fmt @ nl) (FInt pid # args) s)"
  by (simp add: test_err_def wp_say)

lemma poll_returns:
  fixes K :: "'w platform"
  assumes time: "time_passes K H now" and deadline: "normal_time deadline"
  shows "\<exists>n. \<forall>fuel s temp. n \<le> fuel \<longrightarrow> wld s = w \<longrightarrow> \<not> timer_after temp deadline \<longrightarrow>
    wp (poll_status K H fuel deadline temp we pid) (\<lambda>r s'.
      r = Some 0 \<and> status_seen K we s' \<or> r = Some (- 1) \<and> stamp deadline < now (wld s')) s"
    (is "\<exists>n. ?returns n w")
proof (induction w rule: wf_induct_rule [OF wf_calls_before [OF time, of "stamp deadline"]])
  case (1 w)
  obtain bs w1 where load: "os_load K (we + 1) 1 w = (bs, w1)" by fastforce
  obtain t w2 where read: "h_gettimeofday H w1 = (t, w2)" by fastforce
  have t: "normal_time t" "stamp t \<le> now w2" using time_passes_call [OF time] read by blast+
  note after = timer_after_stamp [OF t(1) deadline]
  show ?case
  proof (cases "timer_after t deadline")
    case True
    with after t(2) have late: "stamp deadline < now w2" by simp
    have "?returns 2 w"
    proof (intro allI impI)
      fix fuel :: nat and temp and s :: "'w st"
      assume two: "2 \<le> fuel" and "wld s = w" "\<not> timer_after temp deadline"
      moreover from two obtain k where "fuel = Suc (Suc k)" by (metis add_2_eq_Suc le_Suc_ex)
      ultimately show "wp (poll_status K H fuel deadline temp we pid) (\<lambda>r s'.
          r = Some 0 \<and> status_seen K we s' \<or> r = Some (- 1) \<and> stamp deadline < now (wld s')) s"
        using load read True late by (auto simp: wp_simps wp_call status_seen_def)
    qed
    then show ?thesis ..
  next
    case False
    with after have "stamp t \<le> stamp deadline" by simp
    from 1 [OF poll_before [OF time load read this]] obtain n where n: "?returns n w2" by blast
    have "?returns (Suc n) w"
    proof (intro allI impI)
      fix fuel :: nat and temp and s :: "'w st"
      assume s: "Suc n \<le> fuel" "wld s = w" "\<not> timer_after temp deadline"
      then obtain k where k: "fuel = Suc k" "n \<le> k" by (metis Suc_le_D Suc_le_mono)
      with n False have "wp (poll_status K H k deadline t we pid) (\<lambda>r s'.
          r = Some 0 \<and> status_seen K we s' \<or> r = Some (- 1) \<and> stamp deadline < now (wld s'))
          (s\<lparr>calls := calls s @ [CLoad (we + 1) 1], wld := w2\<rparr>)" by simp
      with s k load read show "wp (poll_status K H fuel deadline temp we pid) (\<lambda>r s'.
          r = Some 0 \<and> status_seen K we s' \<or> r = Some (- 1) \<and> stamp deadline < now (wld s')) s"
        by (auto simp: wp_simps wp_call status_seen_def)
    qed
    then show ?thesis ..
  qed
qed

text \<open>The loop of \<open>wait_fast\<close> ends the same way.\<close>

lemma fast_returns:
  fixes K :: "'w platform"
  assumes time: "time_passes K H now" and deadline: "normal_time deadline"
  shows "\<exists>n. \<forall>fuel s. n \<le> fuel \<longrightarrow> wld s = w \<longrightarrow> wp (fast_loop K H fuel deadline we pid) (\<lambda>r s'.
    r = Some True \<and> status_seen K we s' \<or> r = Some False \<and> stamp deadline < now (wld s')) s"
    (is "\<exists>n. ?returns n w")
proof (induction w rule: wf_induct_rule [OF wf_calls_before [OF time, of "stamp deadline"]])
  case (1 w)
  obtain bs w1 where load: "os_load K (we + 1) 1 (h_ocxl_wait H w) = (bs, w1)" by fastforce
  obtain t w2 where read: "h_gettimeofday H w1 = (t, w2)" by fastforce
  have t: "normal_time t" "now w1 \<le> stamp t" "stamp t \<le> now w2" "now (h_ocxl_wait H w) \<le> now w1"
    using time_passes_call [OF time] load read by blast+
  note after = timer_after_stamp [OF t(1) deadline]
  obtain n where n: "\<not> timer_after t deadline \<longrightarrow> ?returns n w2"
  proof (cases "timer_after t deadline")
    case False
    with after have "stamp t \<le> stamp deadline" by simp
    with 1 [OF wait_before [OF time poll_before [OF time load read this]]] t that show ?thesis by force
  qed (use that in blast)
  have "?returns (Suc n) w"
  proof (intro allI impI)
    fix fuel and s :: "'w st"
    assume s: "Suc n \<le> fuel" "wld s = w"
    then obtain k where k: "fuel = Suc k" "n \<le> k" by (metis Suc_le_D Suc_le_mono)
    with n have "\<not> timer_after t deadline \<Longrightarrow> wp (fast_loop K H k deadline we pid) (\<lambda>r s'.
        r = Some True \<and> status_seen K we s' \<or> r = Some False \<and> stamp deadline < now (wld s'))
        (s\<lparr>calls := calls s @ [CLoad (we + 1) 1], wld := w2\<rparr>)" by simp
    with s k load read t after show "wp (fast_loop K H fuel deadline we pid) (\<lambda>r s'.
        r = Some True \<and> status_seen K we s' \<or> r = Some False \<and> stamp deadline < now (wld s')) s"
      by (auto simp: wp_simps wp_call ocxl_wait_def status_seen_def)
  qed
  then show ?case ..
qed

section \<open>Properties\<close>

text \<open>C7: polling for completion ends. On a host where time passes - every call takes some time, however
  little, so that no span of time has room for infinitely many calls - \<open>wait_for_status\<close> returns after
  finitely many rounds, from every state. It gives 0 only when its last access to memory read a
  status other than 0 in the work element, and -1 only when more than the timeout has passed since it was
  called.\<close>

theorem wait_for_status_ends:
  assumes "time_passes K H now"
  shows "\<exists>n. \<forall>fuel \<ge> n. wp (wait_for_status_test K H fuel we timeout pid) (\<lambda>r s'.
    r = Some 0 \<and> (\<exists>w bs. os_load K (we + 1) 1 w = (bs, wld s') \<and> native_word K bs \<noteq> (0 :: u8)) \<or>
    r = Some (- 1) \<and> now (wld s) + timeout * 1000000 < now (wld s')) s"
proof -
  obtain t w where read: "h_gettimeofday H (wld s) = (t, w)" by fastforce
  have t: "normal_time t" "now (wld s) \<le> stamp t" and "0 \<le> now (wld s)"
    using time_passes_call [OF assms] read assms unfolding time_passes_def by blast+
  let ?temp = "\<lparr>tv_sec = timeout, tv_usec = 0\<rparr>"
  have temp: "normal_time ?temp" "stamp ?temp = timeout * 1000000" by (simp_all add: normal_time_def stamp_def)
  note deadline = timeradd_stamp [OF t(1) temp(1)]
  have first: "\<not> timer_after ?temp (timeradd t ?temp)"
    using t(2) \<open>0 \<le> now (wld s)\<close> by (simp add: timer_after_stamp [OF temp(1) deadline(1)] deadline(2))
  from poll_returns [OF assms deadline(1), of w we pid] first obtain n where
    n: "wp (poll_status K H fuel (timeradd t ?temp) ?temp we pid) (\<lambda>r s'.
      r = Some 0 \<and> status_seen K we s' \<or> r = Some (- 1) \<and> stamp (timeradd t ?temp) < now (wld s'))
      (s\<lparr>wld := w\<rparr>)" if "n \<le> fuel" for fuel by fastforce
  have "wp (wait_for_status_test K H fuel we timeout pid) (\<lambda>r s'.
      r = Some 0 \<and> (\<exists>w bs. os_load K (we + 1) 1 w = (bs, wld s') \<and> native_word K bs \<noteq> (0 :: u8)) \<or>
      r = Some (- 1) \<and> now (wld s) + timeout * 1000000 < now (wld s')) s" if "n \<le> fuel" for fuel
    unfolding wait_for_status_test_def Let_def wp_bind wp_gettimeofday read prod.case
    by (rule wp_mono [OF n [OF that]]) (use t(2) in \<open>auto simp: deadline(2) temp(2) status_seen_def\<close>)
  then show ?thesis by blast
qed

text \<open>A host on which four calls share a second, for the example.\<close>

definition tick :: "demo_w \<Rightarrow> demo_w" where "tick w = w\<lparr>dw_block := Suc (dw_block w)\<rparr>"

definition timed_platform :: "demo_w platform" where
  "timed_platform = demo_irq_platform\<lparr>os_load := (\<lambda>a n w. (fst (os_load demo_irq_platform a n w), tick w))\<rparr>"

definition timed_host :: "demo_w host" where
  "timed_host = demo_host\<lparr>h_gettimeofday := (\<lambda>w. (\<lparr>tv_sec = int (dw_block w div 4), tv_usec = 0\<rparr>, tick w)),
     h_ocxl_wait := tick\<rparr>"

lemma demo_time_passes: "time_passes timed_platform timed_host (\<lambda>w. int (dw_block w div 4) * 1000000)"
proof -
  have calls: "host_call timed_platform timed_host w w' \<longleftrightarrow> w' = tick w" for w w'
    by (auto simp: host_call_def timed_platform_def timed_host_def)
  have "\<exists>i. until < int (dw_block (f i) div 4) * 1000000"
    if f: "\<forall>i. f (Suc i) = tick (f i)" for f :: "nat \<Rightarrow> demo_w" and until
  proof -
    have count: "dw_block (f i) = dw_block (f 0) + i" for i by (induction i) (simp_all add: f tick_def)
    define n where "n = nat (until + 1)"
    have "n \<le> dw_block (f (4 * n)) div 4" by (subst count) presburger
    moreover have "until < int n" by (simp add: n_def)
    ultimately have "until < int (dw_block (f (4 * n)) div 4) * 1000000" by linarith
    then show ?thesis ..
  qed
  then show ?thesis
    unfolding time_passes_def calls
    by (auto simp: timed_host_def stamp_def normal_time_def tick_def div_le_mono)
qed

theorem wait_for_status_ends_witness:
  "\<exists>n. \<forall>fuel \<ge> n. wp (wait_for_status_test timed_platform timed_host fuel 0x1000 2 42) (\<lambda>r s'.
    r = Some 0 \<or> r = Some (- 1) \<and> int (dw_block (wld demo_state) div 4) * 1000000 + 2 * 1000000 <
      int (dw_block (wld s') div 4) * 1000000) demo_state"
  using wait_for_status_ends [OF demo_time_passes, of "0x1000" 2 42 demo_state] by (fastforce elim!: wp_mono)

text \<open>C9: a process of the test that has opened its accelerator. When it returns, whatever the interrupts,
  the copies and the waiting gave, its status is 0 or -1 and the AFU is closed: every mapping, descriptor,
  interrupt and block of the library is given back but the block of the region array, which closing
  never frees. As long as it has not returned, which only a wait without end can keep up, the AFU is open and
  holds exactly what was acquired.\<close>

theorem test_afu_memcpy_closes:
  assumes "irq_laws K"
    and "run_state (test_buffers K H (h_getpid H (wld s)) args) s = (Inr (args', src, dst), s0)"
    and "run_state (ocxl_enable_messages OCXL_ERRORS) s0 = ((), s1)"
    and "run_state (open_device K args') s1 = ((OCXL_OK, h), s2)"
  shows "wp (test_afu_memcpy K H fuel args) (\<lambda>r s'. case r of
      None \<Rightarrow> 0 \<le> afu_fd (cur_afu s') \<and> (\<forall>x. x \<noteq> RMap MAP_FAILED (page_size (cur_afu s2)) \<longrightarrow>
        balance (calls s') x - owned (cur_afu s') x = balance (calls s2) x - owned (cur_afu s2) x)
    | Some code \<Rightarrow> (code = 0 \<or> code = - 1) \<and> afu_fd (cur_afu s') = - 1 \<and>
        (\<forall>x. x \<noteq> RFd (- 1) \<and> x \<noteq> RMap MAP_FAILED (page_size (cur_afu s2)) \<longrightarrow>
          balance (calls s') x = balance (calls s2) x - owned (cur_afu s2) x + block_owned (mmios (cur_afu s')) x)) s"
    (is "wp _ ?Q s")
proof -
  have fresh: "afu_inv (cur_afu s2)" "within 0 0 (cur_afu s2)"
    using assms(4) by (cases "device args'";
      auto simp: open_device_def ocxl_afu_open_def dest: open_fresh open_from_dev_fresh)+
  have "wp (test_session K H fuel (h_getpid H (wld s)) args' src dst) ?Q s2"
    by (rule wp_mono [OF test_session_spec [OF assms(1) fresh]])
      (auto simp: test_post_def closed_since_def books_def kept_def afu_inv_def debt_def split: option.splits)
  moreover have "run_state (test_afu_memcpy K H fuel args) s =
      run_state (test_session K H fuel (h_getpid H (wld s)) args' src dst) s2"
    using assms(2-4) by (simp add: test_afu_memcpy_def getpid_def sys_def State_Monad.bind_def split: prod.splits)
  ultimately show ?thesis by (simp add: wp_def)
qed

theorem test_afu_memcpy_closes_witness:
  "\<exists>s2 :: demo_w st. wp (test_afu_memcpy demo_irq_platform demo_host 3 default_args) (\<lambda>r s'. r = Some 0 \<longrightarrow>
     balance (calls s') (RFd 10) = balance (calls s2) (RFd 10) - owned (cur_afu s2) (RFd 10)) (demo_device 0x200000)"
proof -
  have laws: "irq_laws demo_irq_platform" by (simp add: demo_irq_platform_def demo_irq_laws)
  have b: "run_state (test_buffers demo_irq_platform demo_host (h_getpid demo_host (wld (demo_device 0x200000)))
      default_args) (demo_device 0x200000) = (Inr (default_args, 0x200000, 0x300000), demo_device 0x400000)"
    by (simp add: test_buffers_def default_args_def demo_host_def demo_device_def demo_state_def demo_world_def
        sys_def State_Monad.bind_def State_Monad.return_def MAP_FAILED_def)
  obtain s1 where s1: "run_state (ocxl_enable_messages OCXL_ERRORS) (demo_device 0x400000) = ((), s1)"
    by (metis old.unit.exhaust surj_pair)
  obtain s2 where s2: "run_state (open_device demo_irq_platform default_args) s1 = ((OCXL_OK, Some 100), s2)"
    using demo_device_opens [of "0x400000"] s1
    by (auto simp: open_device_def default_args_def AFU_NAME_test_def wp_def split: prod.splits)
  note closes = test_afu_memcpy_closes [OF laws b s1 s2]
  show ?thesis
    by (rule exI [of _ s2], rule wp_mono [OF closes]) (auto simp: block_owned_def)
qed

section \<open>Options\<close>

lemma test_switch_keeps:
  assumes "test_switch opts st = Some st'" "P st"
    and "\<And>c x st. P st \<Longrightarrow> P (test_option c x st)"
  shows "P st'"
  using assms(1,2) by (induction opts st rule: test_switch.induct) (auto split: if_splits intro: assms(3))

definition int_range :: "int \<Rightarrow> bool" where "int_range n \<longleftrightarrow> - (2 ^ 31) \<le> n \<and> n < 2 ^ 31"

definition args_typed :: "memcpy_test_args \<times> int \<Rightarrow> bool" where
  "args_typed st = (case st of (args, processes) \<Rightarrow> int_range (loop_count args) \<and> int_range (buf_size args) \<and>
     int_range (completion_timeout args) \<and> int_range processes)"

lemma args_typed_if: "args_typed a \<Longrightarrow> args_typed b \<Longrightarrow> args_typed (if c then a else b)"
  by simp

lemma test_option_typed:
  assumes "args_typed st"
  shows "args_typed (test_option c x st)"
proof -
  obtain args processes where st: "st = (args, processes)" by fastforce
  show ?thesis
    unfolding test_option_def st prod.case
    by (intro args_typed_if) (use assms atoi_range [of x] in \<open>simp_all add: st args_typed_def int_range_def\<close>)
qed

lemma test_defaults_typed:
  assumes "args_typed st" "test_defaults st = (args, processes)"
  shows "args_typed (args, processes)" "processes \<noteq> 0" "completion_timeout args \<noteq> - 1"
  using assms by (auto simp: test_defaults_def args_typed_def int_range_def AFU_MAX_PROCESSES_def Let_def
      split: prod.splits if_splits)

text \<open>C39: the arguments the test runs with. Whatever the command line, the program ends with status
  1 or -1, having called nothing of the library, or goes on with numbers in the range of
  \<open>int\<close>, a buffer size of at most 2048 that is a multiple of 64, a timeout that is set, at
  most one way to signal completion, and no two modes that exclude each other.\<close>

theorem test_arguments_typed:
  "wp (test_arguments name argv) (\<lambda>r s'. calls s' = calls s \<and> cur_afu s' = cur_afu s \<and>
     (case r of
        Inl code \<Rightarrow> code = 1 \<or> code = - 1
      | Inr (args, processes) \<Rightarrow>
          int_range (loop_count args) \<and> int_range (completion_timeout args) \<and> int_range processes \<and>
          int_range (buf_size args) \<and> buf_size args \<le> 2048 \<and> buf_size args mod 64 = 0 \<and>
          processes \<noteq> 0 \<and> completion_timeout args \<noteq> - 1 \<and> \<not> (wake_host_thread args \<and> use_irq args) \<and>
          \<not> (atomic_cas args \<and> (reallocate args \<or> shared_mem args)) \<and>
          \<not> (increment args \<and> (reallocate args \<or> shared_mem args)))) s"
proof -
  obtain opts rest where o: "getopt test_options argv [] = (opts, rest)" by fastforce
  have print: "wp (print_lines ts) Q s' = Q () (fold (\<lambda>t. say_state Stderr (t @ nl) []) ts s')"
    for ts Q and s' :: "'a st"
    by (induction ts arbitrary: s') (simp_all add: wp_simps wp_call)
  have frame: "calls (fold (\<lambda>t. say_state Stderr (t @ nl) []) ts s') = calls s'"
    "cur_afu (fold (\<lambda>t. say_state Stderr (t @ nl) []) ts s') = cur_afu s'" for ts and s' :: "'a st"
    by (induction ts arbitrary: s') simp_all
  have start: "args_typed (default_args, 1)" by (simp add: args_typed_def default_args_def int_range_def)
  show ?thesis
  proof (cases "test_switch opts (default_args, 1)")
    case None
    with o show ?thesis by (simp add: test_arguments_def usage_def wp_simps wp_call print frame)
  next
    case (Some st)
    obtain args processes where d: "test_defaults st = (args, processes)" by fastforce
    have "args_typed st" by (rule test_switch_keeps [OF Some]) (fact start test_option_typed)+
    note typed = test_defaults_typed [OF this d]
    show ?thesis
      using typed Some o d
      by (cases "test_conflict args rest")
        (auto simp: test_arguments_def usage_def wp_simps wp_call print frame args_typed_def size_invalid_def
          test_conflict_def split: if_splits)
  qed
qed

text \<open>The check of the size has no lower bound.\<close>

lemma negative_size_accepted:
  "wp (test_arguments ''memcpy'' [''-s'', ''-64'']) (\<lambda>r s'.
     r = Inr (default_args\<lparr>buf_size := - 64, completion_timeout := 10\<rparr>, 1) \<and>
     size_arg (- 64) = 2 ^ 64 - 64) s"
proof -
  have "atoi ''-64'' = - 64" by code_simp
  then show ?thesis
    by (simp add: test_arguments_def test_options_def test_option_def test_defaults_def test_conflict_def
        size_invalid_def default_args_def size_arg_def Let_def wp_simps)
qed

end
