(* ===== verification/Memcpy_Go.thy ===== *)
theory Memcpy_Go
  imports Memcpy_Test
begin

text \<open>
  In which order the test of \<open>ocxl_memcpy.c\<close> makes its stores when it queues the work of one loop:
  the elements first, the valid bit of the first element last (\<open>press the big red 'go' button\<close>).
  The calls are followed store by store, because the accelerator reads the queue while the program
  writes it.
\<close>

section \<open>Stores that leave a byte alone\<close>

text \<open>The stores of a list of calls leave the byte at \<open>p\<close> alone.\<close>

definition spares :: "u64 \<Rightarrow> call list \<Rightarrow> bool" where
  "spares p cs \<longleftrightarrow> (\<forall>c \<in> set cs. case c of CStore a bs \<Rightarrow> length bs \<le> unat (p - a) | _ \<Rightarrow> True)"

lemma spares_simps [simp]:
  "spares p []" "spares p (cs @ ds) \<longleftrightarrow> spares p cs \<and> spares p ds" "spares p (CLoad a n # cs) \<longleftrightarrow> spares p cs"
  "spares p (CStore a bs # cs) \<longleftrightarrow> length bs \<le> unat (p - a) \<and> spares p cs"
  by (auto simp: spares_def)

lemma spares_image: "spares p cs \<Longrightarrow> mem_image cs m p = m p"
  by (induction cs arbitrary: m) (auto simp: spares_def poke_outside split: call.splits)

lemma spares_take: "spares p cs \<Longrightarrow> spares p (take k cs)"
  by (auto simp: spares_def dest: in_set_takeD)

lemma base_at_apart:
  assumes "off + len \<le> 2 ^ 64" "k < 2 ^ 64" "k < off \<or> off + len \<le> k"
  shows "len \<le> unat (base_at q k - base_at q off)"
proof -
  have u: "unat (of_nat k :: u64) = k" "unat (of_nat off :: u64) = off \<or> off = 2 ^ 64"
    using assms by (auto simp: unat_of_nat)
  moreover have "base_at q k - base_at q off = of_nat k - of_nat off" by (simp add: base_at_def)
  ultimately show ?thesis using assms by (cases "off = 2 ^ 64") (auto simp: unat_sub_if')
qed

lemma we_stores_spare:
  assumes "32 * i + 32 \<le> 2 ^ 64" "32 * j + 32 \<le> 2 ^ 64" "i \<noteq> j"
  shows "spares (base_at q (32 * j)) (we_stores K (base_at q (32 * i)) wrap we)"
proof -
  have apart: "len \<le> unat (base_at q (32 * j) - base_at q (32 * i + off))" if "off + len \<le> 32" for off len
    using that assms by (intro base_at_apart) (auto simp: nat_neq_iff)
  show ?thesis
    using apart [of 1 1] apart [of 2 2] apart [of 4 1] apart [of 8 8] apart [of 16 8] apart [of 24 8] apart [of 0 1]
    by (simp add: we_stores_def base_at_fields)
qed

text \<open>The calls that fill a slot and leave its command byte, once stored, alone; the byte is
  that of an element which is not valid yet.\<close>

definition unpublished :: "u64 \<Rightarrow> call list \<Rightarrow> bool" where
  "unpublished p cs \<longleftrightarrow> (\<exists>before after c. cs = before @ CStore p [c] # after \<and> \<not> bit c 0 \<and> spares p before \<and> spares p after)"

lemma unpublished_more: "unpublished p cs \<Longrightarrow> spares p ds \<Longrightarrow> unpublished p (ds @ cs)" "unpublished p cs \<Longrightarrow> spares p ds \<Longrightarrow> unpublished p (cs @ ds)"
  unfolding unpublished_def by (metis append.assoc append_Cons spares_simps(2))+

lemma unpublished_prefix:
  assumes "unpublished p cs"
  shows "mem_image (take k cs) m p = m p \<or> \<not> bit (mem_image (take k cs) m p) 0"
proof -
  obtain before after c where cs: "cs = before @ CStore p [c] # after" "\<not> bit c 0" "spares p before" "spares p after"
    using assms by (auto simp: unpublished_def)
  show ?thesis
  proof (cases "k \<le> length before")
    case False
    then obtain d where "k = length before + Suc d" by (metis less_iff_Suc_add not_le add_Suc_right)
    then show ?thesis using cs by (simp add: mem_image_append spares_image spares_take poke_def)
  qed (use cs in \<open>simp add: spares_image spares_take\<close>)
qed

lemma we_stores_unpublished:
  assumes "\<not> bit (we_cmd we) 0" "\<not> bit wrap 0"
  shows "unpublished p (we_stores K p wrap we)"
proof -
  have "we_stores K p wrap we = take 6 (we_stores K p wrap we) @ CStore p [(we_cmd we AND NOT MEMCPY_WE_CMD_WRAP) OR wrap] # []"
    by (simp add: we_stores_def)
  moreover have "spares p (take 6 (we_stores K p wrap we))"
    by (simp add: we_stores_def unsigned_minus_1_eq_mask mask_eq_exp_minus_1)
  moreover have "\<not> bit ((we_cmd we AND NOT MEMCPY_WE_CMD_WRAP) OR wrap) 0"
    using assms by (simp add: bit_simps)
  ultimately show ?thesis unfolding unpublished_def by (metis spares_simps(1))
qed


section \<open>Slots of the queue\<close>

abbreviation slot :: "u64 \<Rightarrow> nat \<Rightarrow> u64" where "slot q n \<equiv> base_at q (32 * (n mod weq_cap))"

lemma slot_room: "32 * (n mod weq_cap) + 32 \<le> 2 ^ 64"
  using mod_less_divisor [of weq_cap n] by (simp add: weq_cap_value)

lemma slots_differ: "0 < d \<Longrightarrow> d < weq_cap \<Longrightarrow> (n + d) mod weq_cap \<noteq> n mod weq_cap"
  by (metis add_cancel_right_right dvd_imp_le mod_eq_dvd_iff_nat le_add1 add_diff_cancel_left' not_le)

lemma add_we_ring:
  assumes "ring_inv q n (weq, s)"
  shows "wp (memcpy3_add_we K weq we) (\<lambda>(p, weq') s'. p = slot q n \<and> ring_inv q (Suc n) (weq', s') \<and>
    (\<exists>wrap. \<not> bit wrap 0 \<and> calls s' = calls s @ we_stores K p wrap we)) s"
proof -
  have "ring_inv q (Suc n) (weq_step weq, s')" for s' :: "'a st"
    using weq_step_ring [OF assms] assms by (simp add: ring_inv_def)
  moreover have "\<not> bit (weq_wrap weq) 0" "weq_next weq = slot q n"
    using assms by (simp_all add: ring_inv_def MEMCPY_WE_CMD_WRAP_def)
  ultimately show ?thesis by (intro wp_mono [OF add_we_spec]) auto
qed

lemma add_we_other:
  assumes "ring_inv q (n + d) (weq, s)" "0 < d" "d < weq_cap"
  shows "wp (memcpy3_add_we K weq we) (\<lambda>(p, weq') s'. p = slot q (n + d) \<and> ring_inv q (n + Suc d) (weq', s') \<and>
    (\<exists>cs. calls s' = calls s @ cs \<and> spares (slot q n) cs)) s"
proof -
  have "spares (slot q n) (we_stores K (slot q (n + d)) wrap we)" for wrap
    using slots_differ [OF assms(2,3)] by (intro we_stores_spare slot_room)
  then show ?thesis by (intro wp_mono [OF add_we_ring [OF assms(1)]]) auto
qed

lemma set_valid_calls:
  "wp (set_valid K p) (\<lambda>_ s'. \<exists>v. calls s' = calls s @ [CLoad p 1, CStore p [v]] \<and> bit v 0) s"
  by (auto simp: set_valid_def load8_def wp_simps wp_call MEMCPY_WE_CMD_VALID_def bit_simps split: prod.split)

lemma set_valid_other:
  assumes "0 < d" "d < weq_cap"
  shows "wp (set_valid K (slot q (n + d))) (\<lambda>_ s'. \<exists>cs. calls s' = calls s @ cs \<and> spares (slot q n) cs) s"
proof -
  have "1 \<le> unat (slot q n - slot q (n + d))"
    using slots_differ [OF assms, of n] slot_room [of n] slot_room [of "n + d"]
    by (intro base_at_apart) auto
  then show ?thesis by (intro wp_mono [OF set_valid_calls]) auto
qed

section \<open>The work of one loop\<close>

text \<open>What the steps before the go button have done: \<open>d\<close> elements are in the queue, and the
  first is not published.\<close>

definition unseen :: "u64 \<Rightarrow> nat \<Rightarrow> 'w st \<Rightarrow> memcpy_weq \<Rightarrow> nat \<Rightarrow> 'w st \<Rightarrow> bool" where
  "unseen q n s weq d s' \<longleftrightarrow> 0 < d \<and> d \<le> 4 \<and> ring_inv q (n + d) (weq, s') \<and>
     (\<exists>cs. calls s' = calls s @ cs \<and> unpublished (slot q n) cs)"

lemma four_slots: "d < 4 \<Longrightarrow> d < weq_cap"
  by (simp add: weq_cap_value)

lemma unseen_first:
  assumes "ring_inv q n (weq, s1)" "\<not> bit (we_cmd we) 0" "calls s1 = calls s @ ds" "spares (slot q n) ds"
    and "\<And>weq' s2. unseen q n s weq' 1 s2 \<Longrightarrow> wp (f (slot q n, weq')) Q s2"
  shows "wp (memcpy3_add_we K weq we \<bind> f) Q s1"
  unfolding wp_bind
  by (rule wp_mono [OF add_we_ring [OF assms(1)]])
    (use assms(2-4) in \<open>auto simp: unseen_def intro!: assms(5) unpublished_more(1) we_stores_unpublished\<close>)

lemma unseen_add:
  assumes "unseen q n s weq d s1" "d < 4"
    and "\<And>weq' s2. unseen q n s weq' (Suc d) s2 \<Longrightarrow> wp (f (slot q (n + d), weq')) Q s2"
  shows "wp (memcpy3_add_we K weq we \<bind> f) Q s1"
  unfolding wp_bind
  by (rule wp_mono [OF add_we_other [of q n d]])
    (use assms(1,2) in \<open>auto simp: unseen_def intro!: four_slots assms(3) unpublished_more(2)\<close>)

lemma unseen_valid:
  assumes "unseen q n s weq d s1" "0 < e" "e < 4"
    and "\<And>s2. unseen q n s weq d s2 \<Longrightarrow> wp (f ()) Q s2"
  shows "wp (set_valid K (slot q (n + e)) \<bind> f) Q s1"
  unfolding wp_bind
  by (rule wp_mono [OF set_valid_other [of e]])
    (use assms(1-3) in \<open>auto simp: unseen_def ring_inv_def intro!: four_slots assms(4) unpublished_more(2)\<close>)

definition first_element :: "test_run \<Rightarrow> memcpy_work_element" where
  "first_element r = (if atomic_cas (tr_args r) then tr_atomic_cas_we r
     else if increment (tr_args r) then tr_increment_we r else tr_memcpy_we r)"

lemma queue_work_unseen:
  assumes "ring_inv q n (tr_weq r, s)" "\<not> bit (we_cmd (first_element r)) 0"
    and "increment (tr_args r) \<Longrightarrow> 4 \<le> unat (slot q n - tr_src r)"
  shows "wp (queue_work K r) (\<lambda>(first_we, last_we, weq) s'. first_we = slot q n \<and> (\<exists>d \<le> 3. unseen q n s weq d s')) s"
proof -
  have incr: "wp (do { v \<leftarrow> load32 K (tr_src r); store32 K (tr_src r) (htole32 K (le32toh K v + 1)) })
      (\<lambda>_ s1. ring_inv q n (tr_weq r, s1) \<and> (\<exists>ds. calls s1 = calls s @ ds \<and> spares (slot q n) ds)) s"
    if "increment (tr_args r)"
    using assms(1) assms(3) [OF that]
    by (auto simp: load32_def store32_def wp_simps wp_call ring_inv_def split: prod.split)
  consider (cas) "atomic_cas (tr_args r)" | (inc) "\<not> atomic_cas (tr_args r)" "increment (tr_args r)"
    | (copy) "\<not> atomic_cas (tr_args r)" "\<not> increment (tr_args r)" by blast
  then show ?thesis
  proof cases
    case cas
    have tail: "wp (do {
        (last_we, weq) \<leftarrow> memcpy3_add_we K weq (tr_increment_we r);
        set_valid K last_we;
        (last_we, weq) \<leftarrow> memcpy3_add_we K weq (tr_memcpy_we r);
        set_valid K last_we;
        State_Monad.return (slot q n, last_we, weq) })
      (\<lambda>(first_we, last_we, weq) s'. first_we = slot q n \<and> (\<exists>d \<le> 3. unseen q n s weq d s')) s1"
      if "unseen q n s weq 1 s1" for weq s1
    proof (rule unseen_add [OF that], simp, unfold prod.case, erule unseen_valid, simp, simp,
        erule unseen_add, simp, unfold prod.case, erule unseen_valid, simp, simp)
    qed (auto simp: wp_return eval_nat_numeral)
    from cas assms(2) show ?thesis
      by (auto simp: queue_work_def first_element_def intro!: unseen_first [OF assms(1), where ds = "[]"] tail)
  next
    case inc
    have "queue_work K r = do {
        _ \<leftarrow> do { v \<leftarrow> load32 K (tr_src r); store32 K (tr_src r) (htole32 K (le32toh K v + 1)) };
        (p, weq) \<leftarrow> memcpy3_add_we K (tr_weq r) (tr_increment_we r);
        State_Monad.return (p, p, weq) }"
      using inc by (simp add: queue_work_def bind_assoc)
    moreover have "wp (do { (p, weq) \<leftarrow> memcpy3_add_we K (tr_weq r) (tr_increment_we r); State_Monad.return (p, p, weq) })
      (\<lambda>(first_we, last_we, weq) s'. first_we = slot q n \<and> (\<exists>d \<le> 3. unseen q n s weq d s')) s1"
      if "ring_inv q n (tr_weq r, s1) \<and> (\<exists>ds. calls s1 = calls s @ ds \<and> spares (slot q n) ds)" for s1
      using that inc assms(2) by (auto simp: first_element_def wp_return intro!: unseen_first exI [of _ "Suc 0"])
    ultimately show ?thesis by (simp only: wp_bind [of "State_Monad.bind _ _"] wp_mono [OF incr [OF inc(2)]])
  next
    case copy
    with assms(2) show ?thesis
      by (auto simp: queue_work_def first_element_def wp_return intro!: unseen_first [OF assms(1), where ds = "[]"] exI [of _ "Suc 0"])
  qed
qed


section \<open>Properties\<close>

text \<open>C6: the go button is pressed last. Pressing it comes after all the stores that put the
  elements of a loop into the queue: whatever prefix of those the accelerator has seen, the first
  element's command byte is the one from before or one whose valid bit is clear, and the very last
  store sets the valid bit.\<close>

theorem press_go_publishes:
  assumes "ring_inv q n (tr_weq r, s)" "\<not> bit (we_cmd (first_element r)) 0"
    and "increment (tr_args r) \<Longrightarrow> 4 \<le> unat (weq_next (tr_weq r) - tr_src r)"
  shows "wp (press_go K r) (\<lambda>(first_we, last_we, weq) s'. first_we = weq_next (tr_weq r) \<and>
    (\<exists>cs v. calls s' = calls s @ cs @ [CLoad first_we 1, CStore first_we [v]] \<and> bit v 0 \<and>
      (\<forall>k m. mem_image (take k cs) m first_we = m first_we \<or> \<not> bit (mem_image (take k cs) m first_we) 0))) s"
    (is "wp _ ?Q s")
proof -
  have p: "weq_next (tr_weq r) = slot q n" using assms(1) by (simp add: ring_inv_def)
  have go: "wp (set_valid K (slot q n) \<bind> (\<lambda>_. State_Monad.return (slot q n, last_we, weq))) ?Q s1"
    if "unseen q n s w d s1" for last_we weq w d s1
    unfolding wp_bind
    by (rule wp_mono [OF set_valid_calls]) (use that in \<open>auto simp: wp_return p unseen_def dest: unpublished_prefix\<close>)
  have irq: "wp (memcpy3_add_we K w (tr_irq_we r) \<bind> (\<lambda>(last_we, weq). set_valid K (slot q n) \<bind>
      (\<lambda>_. State_Monad.return (slot q n, last_we, weq)))) ?Q s1" if "unseen q n s w d s1" "d \<le> 3" for w d s1
    by (rule unseen_add [OF that(1)]) (use that(2) go in auto)
  show ?thesis
    unfolding press_go_def wp_bind [of "queue_work K r"]
    by (rule wp_mono [OF queue_work_unseen [OF assms(1,2)]])
      (use assms(3) go irq in \<open>auto simp: p\<close>)
qed


text \<open>A loop with the lock, its increment and the interrupt.\<close>

definition demo_run :: test_run where
  "demo_run = \<lparr>tr_args = default_args\<lparr>atomic_cas := True, use_irq := True\<rparr>, tr_weq = fresh_weq 0x10000,
     tr_src = 0x200000, tr_dst = 0x300000, tr_atomic_cas_we = atomic_cas_element demo 0x300000,
     tr_increment_we = increment_element demo 0x200000 0x300000, tr_memcpy_we = memcpy_element demo 64 0x200000 0x300000,
     tr_irq_we = memcpy_element demo 64 0x200000 0x300000, tr_afu_irq_ea = 0, tr_err_irq_ea = 0, tr_pp_mmio = None\<rparr>"

theorem press_go_publishes_witness:
  "wp (press_go demo demo_run) (\<lambda>(first_we, last_we, weq) s'. first_we = 0x10000 \<and>
     (\<exists>cs v. calls s' = cs @ [CLoad 0x10000 1, CStore 0x10000 [v]] \<and> bit v 0)) demo_state"
proof -
  have "ring_inv 0x10000 0 (tr_weq demo_run, demo_state)"
    unfolding demo_run_def test_run.simps by (rule ring_inv_fresh) simp
  moreover have "\<not> bit (we_cmd (first_element demo_run)) 0"
    by (simp add: first_element_def demo_run_def default_args_def atomic_cas_element_def MEMCPY_WE_CMD_def bit_simps)
  ultimately show ?thesis
    by (rule wp_mono [OF press_go_publishes])
      (auto simp: demo_run_def default_args_def fresh_weq_def demo_state_def)
qed

end
