(* ===== verification/Memcpy_Processes.thy ===== *)
theory Memcpy_Processes
  imports Memcpy_Test Ocxl_Steps "HOL-Library.Multiset"
begin

text \<open>
  The processes of \<open>src/afutests/memcpy/ocxl_memcpy.c\<close> (lines 814 to 829): \<open>main\<close> forks its
  children, each of which runs \<open>test_afu_memcpy\<close> and exits with its value, and then calls
  \<open>wait\<close> as often as it called \<open>fork\<close>. The steps of the parent and the ends of the children
  come in any order. The results of \<open>wait\<close> are what \<open>test_main\<close> takes for its parameter.
\<close>

section \<open>How a child ends\<close>

datatype ending = Exits int | Killed nat

text \<open>The status word \<open>wait\<close> writes: the low byte of an exit status in bits 8 to 15, the number
  of a signal in the low bits.\<close>

primrec status_word :: "ending \<Rightarrow> int" where
  "status_word (Exits code) = (code mod 256) * 256"
| "status_word (Killed sig) = int sig"

abbreviation failed :: "ending \<Rightarrow> bool" where
  "failed e \<equiv> e \<noteq> Exits 0"

text \<open>The children of a run: the state in which each is forked, by its process number, with a world of its
  own that holds what the accelerator and the other processes do to it, and the signal that kills it, if
  one does.\<close>

record 'w child_run =
  forked_in :: "int \<Rightarrow> 'w st"
  killed_by :: "int \<Rightarrow> nat option"

text \<open>The child \<open>pid\<close> ends with \<open>e\<close>: it is killed, or \<open>test_afu_memcpy\<close> returns in it. A child that
  waits for ever and is not killed has no end.\<close>

definition child_ends ::
  "'w platform \<Rightarrow> 'w host \<Rightarrow> memcpy_test_args \<Rightarrow> 'w child_run \<Rightarrow> int \<Rightarrow> ending \<Rightarrow> bool" where
  "child_ends K H args C pid e = (case killed_by C pid of
       Some sig \<Rightarrow> 0 < sig \<and> e = Killed sig
     | None \<Rightarrow> (\<exists>fuel code s'. run_state (test_afu_memcpy K H fuel args) (forked_in C pid) = (Some code, s') \<and>
         e = Exits code))"

section \<open>The processes\<close>

record processes =
  forks_left :: nat
  waits_left :: nat
  running :: "int list"
  zombies :: "(int \<times> ending) list"
  reaped :: "(int \<times> ending) list"
  not_forked :: nat \<comment> \<open>calls of \<open>fork\<close> that failed\<close>
  wait_results :: "(int \<times> int option) list"

definition fork_all :: "nat \<Rightarrow> processes" where
  "fork_all n = \<lparr>forks_left = n, waits_left = n, running = [], zombies = [], reaped = [], not_forked = 0,
     wait_results = []\<rparr>"

definition pids :: "processes \<Rightarrow> int list" where
  "pids P = running P @ map fst (zombies P) @ map fst (reaped P)"

inductive process_step :: "(int \<Rightarrow> ending \<Rightarrow> bool) \<Rightarrow> processes \<Rightarrow> processes \<Rightarrow> bool" for ends where
  fork_child: "forks_left P = Suc n \<Longrightarrow> 0 < pid \<Longrightarrow> pid \<notin> set (pids P) \<Longrightarrow>
    process_step ends P (P\<lparr>forks_left := n, running := running P @ [pid]\<rparr>)"
| fork_fails: "forks_left P = Suc n \<Longrightarrow>
    process_step ends P (P\<lparr>forks_left := n, not_forked := Suc (not_forked P)\<rparr>)"
| child_end: "pid \<in> set (running P) \<Longrightarrow> ends pid e \<Longrightarrow>
    process_step ends P (P\<lparr>running := remove1 pid (running P), zombies := zombies P @ [(pid, e)]\<rparr>)"
| wait_child: "forks_left P = 0 \<Longrightarrow> waits_left P = Suc n \<Longrightarrow> (pid, e) \<in> set (zombies P) \<Longrightarrow>
    process_step ends P (P\<lparr>waits_left := n, zombies := remove1 (pid, e) (zombies P), reaped := reaped P @ [(pid, e)],
      wait_results := wait_results P @ [(pid, Some (status_word e))]\<rparr>)"
| wait_fails: "forks_left P = 0 \<Longrightarrow> waits_left P = Suc n \<Longrightarrow> running P = [] \<Longrightarrow> zombies P = [] \<Longrightarrow>
    process_step ends P (P\<lparr>waits_left := n, wait_results := wait_results P @ [(- 1, None)]\<rparr>)"

definition all_waited :: "processes \<Rightarrow> bool" where
  "all_waited P \<longleftrightarrow> forks_left P = 0 \<and> waits_left P = 0"

section \<open>What holds in every state\<close>

definition waited :: "int \<times> ending \<Rightarrow> int \<times> int option" where
  "waited c = (fst c, Some (status_word (snd c)))"

definition process_inv :: "(int \<Rightarrow> ending \<Rightarrow> bool) \<Rightarrow> nat \<Rightarrow> processes \<Rightarrow> bool" where
  "process_inv ends n P \<longleftrightarrow>
     (\<exists>k. wait_results P = map waited (reaped P) @ replicate k (- 1, None) \<and>
       (0 < k \<longrightarrow> running P = [] \<and> zombies P = [] \<and> forks_left P = 0) \<and>
       length (reaped P) + k + waits_left P = n) \<and>
     length (pids P) + not_forked P + forks_left P = n \<and>
     list_all ((<) 0) (pids P) \<and> distinct (pids P) \<and>
     list_all (\<lambda>(pid, e). ends pid e) (zombies P) \<and> list_all (\<lambda>(pid, e). ends pid e) (reaped P)"

lemma process_inv_start: "process_inv ends n (fork_all n)"
  by (simp add: process_inv_def fork_all_def pids_def)

lemma pids_perm:
  assumes "mset (pids P') = mset (pids P)"
  shows "length (pids P') = length (pids P)" "list_all ((<) 0) (pids P') = list_all ((<) 0) (pids P)"
    "distinct (pids P') = distinct (pids P)"
  using assms mset_eq_length [OF assms] mset_eq_setD [OF assms] mset_eq_imp_distinct_iff [OF assms]
  by (auto simp: list_all_iff)

lemma set_remove1D: "list_all p xs \<Longrightarrow> list_all p (remove1 x xs)"
  by (induction xs) auto

lemma process_inv_step:
  assumes "process_inv ends n P" "process_step ends P P'"
  shows "process_inv ends n P'"
  using assms(2)
proof cases
  case (fork_child m pid)
  then show ?thesis using assms(1) by (auto simp: process_inv_def pids_def)
next
  case (fork_fails m)
  then show ?thesis using assms(1) by (auto simp: process_inv_def pids_def)
next
  case (child_end pid e)
  then have "mset (pids P') = mset (pids P)" by (auto simp: pids_def)
  from pids_perm [OF this] child_end show ?thesis using assms(1)
    by (fastforce simp: process_inv_def)
next
  case (wait_child m pid e)
  have "mset (zombies P) = add_mset (pid, e) (mset (remove1 (pid, e) (zombies P)))" using wait_child(4) by simp
  from arg_cong [OF this, of "image_mset fst"] have "mset (pids P') = mset (pids P)"
    using wait_child(1) by (simp add: pids_def)
  moreover have "ends pid e" using assms(1) wait_child(4) by (auto simp: process_inv_def list_all_iff)
  ultimately show ?thesis using assms(1) pids_perm [of P' P] wait_child
    by (auto simp: process_inv_def waited_def set_remove1D)
next
  case (wait_fails m)
  then have same: "pids P' = pids P" by (simp add: pids_def)
  from assms(1) obtain k where k: "wait_results P = map waited (reaped P) @ replicate k (- 1, None)"
    "length (reaped P) + k + waits_left P = n" by (auto simp: process_inv_def)
  then have "wait_results P' = map waited (reaped P') @ replicate (Suc k) (- 1, None)"
    "length (reaped P') + Suc k + waits_left P' = n" using wait_fails by (simp_all add: replicate_append_same)
  with same wait_fails show ?thesis using assms(1) unfolding process_inv_def by (intro conjI exI [of _ "Suc k"]) auto
qed

definition process_work :: "processes \<Rightarrow> nat" where
  "process_work P = 2 * forks_left P + length (running P) + waits_left P"

lemma process_work_step: "process_step ends P P' \<Longrightarrow> process_work P' < process_work P"
proof (induction rule: process_step.induct)
  case (child_end pid P e)
  then have "0 < length (running P)" by auto
  with child_end show ?case by (simp add: process_work_def length_remove1)
qed (auto simp: process_work_def)

text \<open>The states without a next step: all is waited for, or the parent is in \<open>wait\<close> and no child that
  is left will ever end.\<close>

definition endless :: "(int \<Rightarrow> ending \<Rightarrow> bool) \<Rightarrow> int \<Rightarrow> bool" where
  "endless ends pid \<longleftrightarrow> (\<forall>e. \<not> ends pid e)"

definition blocked :: "(int \<Rightarrow> ending \<Rightarrow> bool) \<Rightarrow> processes \<Rightarrow> bool" where
  "blocked ends P \<longleftrightarrow> forks_left P = 0 \<and> zombies P = [] \<and> running P \<noteq> [] \<and> list_all (endless ends) (running P)"

lemma next_step:
  assumes "\<not> all_waited P" "\<not> blocked ends P"
  shows "\<exists>P'. process_step ends P P' \<and> set (running P') \<subseteq> set (running P)"
proof (cases "forks_left P")
  case 0
  with assms(1) obtain m where m: "waits_left P = Suc m" by (cases "waits_left P") (auto simp: all_waited_def)
  consider "running P = []" "zombies P = []" | pid e where "(pid, e) \<in> set (zombies P)"
    | pid e where "pid \<in> set (running P)" "ends pid e"
    using assms(2) 0 by (cases "zombies P") (auto simp: blocked_def endless_def list_all_iff)
  then show ?thesis
  proof cases
    case 1
    with process_step.wait_fails [OF 0 m] show ?thesis by fastforce
  next
    case 2
    with process_step.wait_child [OF 0 m] show ?thesis by fastforce
  next
    case 3
    from process_step.child_end [of _ P ends, OF this] set_remove1_subset [of pid "running P"] show ?thesis by fastforce
  qed
next
  case (Suc m)
  from process_step.fork_fails [OF this] show ?thesis by fastforce
qed

lemma waited_none_left:
  assumes "process_inv ends n P" "all_waited P"
  shows "running P = []" "zombies P = []"
proof -
  from assms obtain k where "0 < k \<longrightarrow> running P = [] \<and> zombies P = []" "length (reaped P) + k = n"
      "length (pids P) + not_forked P = n"
    by (auto simp: process_inv_def all_waited_def)
  then show "running P = []" "zombies P = []" by (cases "0 < k"; simp add: pids_def)+
qed

inductive_cases process_stepE: "process_step ends P P'"

lemma settled_no_step:
  assumes "process_inv ends n P" "all_waited P \<or> blocked ends P"
  shows "\<not> process_step ends P P'"
  using assms(2)
proof
  assume "all_waited P"
  with waited_none_left [OF assms(1)] show ?thesis by (auto simp: all_waited_def elim: process_stepE)
qed (auto simp: blocked_def endless_def list_all_iff elim: process_stepE)

interpretation processes: progressing "process_step ends" "process_inv ends n"
  "\<lambda>P. all_waited P \<or> blocked ends P" process_work for ends n
  using process_inv_step process_work_step next_step by unfold_locales blast+

text \<open>When every child that runs can end, nothing blocks: the steps that fork no further child.\<close>

definition no_new :: "(int \<Rightarrow> ending \<Rightarrow> bool) \<Rightarrow> processes \<Rightarrow> processes \<Rightarrow> bool" where
  "no_new ends P P' \<longleftrightarrow> process_step ends P P' \<and> set (running P') \<subseteq> set (running P)"

definition can_end :: "(int \<Rightarrow> ending \<Rightarrow> bool) \<Rightarrow> processes \<Rightarrow> bool" where
  "can_end ends P \<longleftrightarrow> list_all (\<lambda>pid. \<not> endless ends pid) (running P)"

interpretation finishing: progressing "no_new ends" "\<lambda>P. process_inv ends n P \<and> can_end ends P" all_waited
  process_work for ends n
proof (unfold_locales, goal_cases)
  case (1 P P')
  then show ?case using process_inv_step [of ends n P P'] by (auto simp: no_new_def can_end_def list_all_iff)
next
  case (2 P P')
  then show ?case by (auto simp: no_new_def process_work_step)
next
  case (3 P)
  then have "\<not> blocked ends P" by (cases "running P") (auto simp: blocked_def can_end_def)
  with 3 next_step [of P ends] show ?case by (auto simp: no_new_def)
qed

lemma endless_runs_on:
  assumes "(process_step ends)\<^sup>*\<^sup>* P P'" "pid \<in> set (running P)" "endless ends pid"
  shows "pid \<in> set (running P')"
  using assms
proof (induction rule: rtranclp_induct)
  case (step Q R)
  then show ?case by (auto simp: endless_def elim!: process_stepE intro!: in_set_remove1 [THEN iffD2])
qed

lemma waited_iff_can_end:
  assumes "process_inv ends n P"
  shows "(\<exists>P'. (process_step ends)\<^sup>*\<^sup>* P P' \<and> all_waited P') \<longleftrightarrow> can_end ends P"
proof
  assume "\<exists>P'. (process_step ends)\<^sup>*\<^sup>* P P' \<and> all_waited P'"
  then obtain P' where P': "(process_step ends)\<^sup>*\<^sup>* P P'" "all_waited P'" by blast
  with waited_none_left(1) [OF processes.run_inv [OF P'(1) assms]] endless_runs_on [OF P'(1)]
  show "can_end ends P" by (auto simp: can_end_def list_all_iff)
next
  assume "can_end ends P"
  with assms finishing.reaches_final [of ends n P] obtain P' where "(no_new ends)\<^sup>*\<^sup>* P P'" "all_waited P'" by blast
  moreover have "no_new ends \<le> process_step ends" by (auto simp: no_new_def)
  ultimately show "\<exists>P'. (process_step ends)\<^sup>*\<^sup>* P P' \<and> all_waited P'" by (meson rtranclp_mono predicate2D)
qed

lemma waited_all:
  assumes "process_inv ends n P" "all_waited P"
  shows "wait_results P = map waited (reaped P) @ replicate (not_forked P) (- 1, None)"
    "length (reaped P) + not_forked P = n" "list_all (\<lambda>(pid, e). 0 < pid \<and> ends pid e) (reaped P)"
    "distinct (map fst (reaped P))"
proof -
  from assms obtain k where k: "wait_results P = map waited (reaped P) @ replicate k (- 1, None)"
    "length (reaped P) + k = n" "length (pids P) + not_forked P = n"
    by (auto simp: process_inv_def all_waited_def)
  with waited_none_left [OF assms] have "k = not_forked P" by (simp add: pids_def)
  with k show "wait_results P = map waited (reaped P) @ replicate (not_forked P) (- 1, None)"
    "length (reaped P) + not_forked P = n" by auto
  show "list_all (\<lambda>(pid, e). 0 < pid \<and> ends pid e) (reaped P)" "distinct (map fst (reaped P))"
    using assms(1) by (auto simp: process_inv_def pids_def list_all_iff split_beta)
qed

section \<open>Counting\<close>

definition failures :: "(int \<times> ending) list \<Rightarrow> int" where
  "failures cs = int (length (filter (failed \<circ> snd) cs))"

definition first_failed :: "(int \<times> ending) list \<Rightarrow> int" where
  "first_failed cs = (case filter (failed \<circ> snd) cs of [] \<Rightarrow> - 1 | c # _ \<Rightarrow> fst c)"

lemma failures_simps [simp]:
  "failures [] = 0" "failures (c # cs) = (if failed (snd c) then 1 + failures cs else failures cs)"
  by (simp_all add: failures_def)

lemma first_failed_simps [simp]:
  "first_failed [] = - 1" "first_failed (c # cs) = (if failed (snd c) then fst c else first_failed cs)"
  by (simp_all add: first_failed_def)

definition plain :: "int \<times> ending \<Rightarrow> bool" where
  "plain c \<longleftrightarrow> 0 < fst c \<and> (status_word (snd c) = 0 \<longleftrightarrow> \<not> failed (snd c))"

lemma wp_tally_waited:
  "list_all plain cs \<Longrightarrow> wp (tally (map waited cs @ ws) j rc failing) Q s =
   wp (tally ws (if cs = [] then j else Some (status_word (snd (last cs)))) (rc + failures cs)
     (if failing = - 1 then first_failed cs else failing)) Q s"
proof (induction cs arbitrary: j rc failing)
  case (Cons c cs)
  then show ?case by (auto simp: waited_def plain_def read_status_def wp_simps add.assoc)
qed simp

lemma wp_tally_stale:
  "wp (tally (replicate k (- 1, None)) (Some v) rc failing) Q s =
   Q (if v = 0 then rc else rc + int k, failing) s"
proof (induction k arbitrary: rc failing)
  case (Suc k)
  then show ?case by (cases "v = 0") (simp_all add: read_status_def wp_simps add.assoc)
qed (simp add: wp_simps)

lemma test_afu_memcpy_code:
  assumes "irq_laws K" "run_state (test_afu_memcpy K H fuel args) s = (Some code, s')"
  shows "code \<in> {0, 1, - 1}"
proof -
  have buffers: "wp (test_buffers K H pid args) (\<lambda>b _. \<forall>c. b = Inl c \<longrightarrow> c \<in> {1, - 1}) s0" for pid s0
    unfolding test_buffers_def by (auto simp: wp_simps wp_call split: prod.splits) (simp add: wp_def split: prod.splits)
  have session: "wp (test_session K H fuel pid args' src dst) (\<lambda>r _. r = None \<or> r = Some 0 \<or> r = Some (- 1)) s2"
    if "run_state (open_device K args') s1 = ((OCXL_OK, h), s2)" for pid args' src dst s1 s2 h
  proof -
    have "afu_inv (cur_afu s2)" "within 0 0 (cur_afu s2)"
      using that by (cases "device args'";
        auto simp: open_device_def ocxl_afu_open_def dest: open_fresh open_from_dev_fresh)+
    from test_session_spec [OF assms(1) this] show ?thesis
      by (rule wp_mono) (auto simp: test_post_def)
  qed
  have "wp (test_afu_memcpy K H fuel args) (\<lambda>r _. \<forall>c. r = Some c \<longrightarrow> c \<in> {0, 1, - 1}) s"
    (is "wp _ ?Q s") unfolding test_afu_memcpy_def
  proof (rule wp_after, unfold wp_bind, rule wp_mono [OF buffers])
    fix pid s1 and b :: "int + memcpy_test_args \<times> u64 \<times> u64"
    assume b: "\<forall>c. b = Inl c \<longrightarrow> c \<in> {1, - 1}"
    show "wp (case b of Inl code \<Rightarrow> State_Monad.return (Some code)
        | Inr (args, src, dst) \<Rightarrow> do {
            ocxl_enable_messages OCXL_ERRORS;
            (err, _) \<leftarrow> open_device K args;
            if err \<noteq> OCXL_OK then do {
              test_err pid ''ocxl_afu_open() failed: %d'' [FInt (err_code err)];
              State_Monad.return (Some (- 1))
            } else test_session K H fuel pid args src dst
          }) ?Q s1"
    proof (cases b)
      case (Inr x)
      obtain args' src dst where x: "x = (args', src, dst)" by (cases x)
      have tested: "wp (test_session K H fuel pid args' src dst) ?Q s3"
        if "run_state (open_device K args') s2 = ((OCXL_OK, h), s3)" for s2 s3 h
        by (rule wp_mono [OF session [OF that]]) auto
      show ?thesis unfolding Inr x sum.case prod.case
        by (rule wp_after, rule wp_bind_run) (use tested in \<open>auto simp: wp_return intro!: wp_after\<close>)
    qed (use b in \<open>simp add: wp_return\<close>)
  qed
  with assms(2) show ?thesis by (simp add: wp_def)
qed

lemma child_ends_plain:
  assumes "irq_laws K" "list_all (\<lambda>(pid, e). 0 < pid \<and> child_ends K H args C pid e) cs"
  shows "list_all plain cs"
proof -
  have "status_word e = 0 \<longleftrightarrow> e = Exits 0" if e: "child_ends K H args C pid e" for pid e
  proof (cases "killed_by C pid")
    case None
    with e obtain fuel code s' where code: "e = Exits code"
        "run_state (test_afu_memcpy K H fuel args) (forked_in C pid) = (Some code, s')"
      by (auto simp: child_ends_def)
    with test_afu_memcpy_code [OF assms(1) code(2)] show ?thesis by auto
  qed (use e in \<open>simp add: child_ends_def\<close>)
  with assms(2) show ?thesis by (auto simp: list_all_iff plain_def)
qed

section \<open>The verdict\<close>

text \<open>Programs that write nothing to the standard output.\<close>

definition errs :: "('w, 'a) prog \<Rightarrow> bool" where
  "errs m \<longleftrightarrow> (\<forall>s. wp m (\<lambda>_ s'. \<exists>new. outs s' = outs s @ new \<and> (\<forall>t. Stdout t \<notin> set new)) s)"

lemma errs_bind: "errs m \<Longrightarrow> (\<And>x. errs (f x)) \<Longrightarrow> errs (State_Monad.bind m f)"
  unfolding errs_def wp_bind by (fastforce elim!: wp_mono)

lemma errs_silent: "(\<And>s. wp m (\<lambda>_ s'. outs s' = outs s) s) \<Longrightarrow> errs m"
  unfolding errs_def by (force elim!: wp_mono)

lemma errs_when: "errs m \<Longrightarrow> errs (whenM b m)"
  by (simp add: errs_def wp_simps)

lemma errs_say: "errs (say Stderr fmt args)"
  by (auto simp: errs_def wp_say say_state_def split: option.splits)

lemma errs_basic: "errs (State_Monad.return x)" "errs (sys f)" "errs (errno K)" "errs (int_mul a b)"
  "errs (shared_counter K args)"
  by (auto intro!: errs_silent simp: errno_def int_mul_def shared_counter_def load32_def wp_simps wp_call
      split: prod.splits)

lemma errs_shm_destroy: "errs (shm_destroy K H args)"
  unfolding shm_destroy_def perror_def by (intro errs_bind errs_basic errs_when errs_say)

lemma success_text: "c_format (''Test successful'' @ nl) [] = Some (''Test successful'' @ nl)"
  by code_simp

text \<open>The counter of the processes does not have the value it should.\<close>

definition atomicity_error :: "'w platform \<Rightarrow> memcpy_test_args \<Rightarrow> int \<Rightarrow> 'w st \<Rightarrow> bool" where
  "atomicity_error K args processes s \<longleftrightarrow> atomic_cas args \<and>
     fst (run_state (shared_counter K args) s) \<noteq> sint (of_int (processes * loop_count args) :: 32 word)"

lemma bad_counter_spec:
  "wp (bad_counter K H args processes) (\<lambda>bad s'. (bad \<longleftrightarrow> atomicity_error K args processes s) \<and>
     (\<exists>new. outs s' = outs s @ new \<and> (\<forall>t. Stdout t \<notin> set new))) s"
proof -
  have "errs (bad_counter K H args processes)"
    unfolding bad_counter_def
    by (auto intro!: errs_bind errs_basic errs_say errs_shm_destroy)
  moreover have "wp (bad_counter K H args processes) (\<lambda>bad s'. bad \<longleftrightarrow> atomicity_error K args processes s) s"
  proof (cases "atomic_cas args")
    case True
    obtain v s1 where v: "run_state (shared_counter K args) s = (v, s1)" by fastforce
    let ?m = "sint (of_int (processes * loop_count args) :: 32 word)"
    have rest: "wp (int_mul processes (loop_count args)) (\<lambda>m s2. m = ?m) s1"
      by (simp add: int_mul_def wp_simps)
    from True v show ?thesis
      by (auto simp: bad_counter_def atomicity_error_def wp_bind wp_def [of "shared_counter K args" _ s] wp_simps wp_say
          wp_iff [of "shared_counter K args"] wp_iff [of "shm_destroy K H args"] intro!: wp_mono [OF rest])
  qed (simp add: bad_counter_def atomicity_error_def wp_simps)
  ultimately show ?thesis by (simp add: wp_conj errs_def)
qed

lemma test_verdict_spec:
  "wp (test_verdict K H args processes rc failing) (\<lambda>r s'.
     r = (if atomicity_error K args processes s then - 1 else rc) \<and>
     (\<exists>new. outs s' = outs s @ new \<and> (Stdout (''Test successful'' @ nl) \<in> set new \<longleftrightarrow> r = 0))) s"
  if "0 \<le> rc"
proof -
  show ?thesis
    unfolding test_verdict_def wp_bind [of "bad_counter _ _ _ _"]
    by (rule wp_mono [OF bad_counter_spec])
      (auto simp: wp_simps wp_say say_state_def success_text [unfolded append.simps] success_text split: option.splits)
qed

text \<open>Two processes without an accelerator: one ends with -1, the other is killed.\<close>

lemmas then_steps = converse_rtranclp_into_rtranclp

definition demo_children :: "demo_w child_run" where
  "demo_children = \<lparr>forked_in = (\<lambda>pid. demo_state), killed_by = [102 \<mapsto> 9]\<rparr>"

abbreviation demo_ends :: "int \<Rightarrow> ending \<Rightarrow> bool" where
  "demo_ends \<equiv> child_ends demo_irq_platform demo_host default_args demo_children"

lemma demo_child_ends: "demo_ends 102 (Killed 9)" "pid \<noteq> 102 \<Longrightarrow> demo_ends pid (Exits (- 1))"
proof -
  have "wp (test_afu_memcpy demo_irq_platform demo_host 0 default_args) (\<lambda>r s'. r = Some (- 1)) demo_state"
    by (simp add: test_afu_memcpy_def getpid_def test_buffers_def open_device_def test_err_def default_args_def demo_host_def
        AFU_NAME_test_def open_defs demo_opening wp_simps wp_call Let_def MAP_FAILED_def)
  then show "pid \<noteq> 102 \<Longrightarrow> demo_ends pid (Exits (- 1))"
    by (auto simp: child_ends_def demo_children_def wp_def split: prod.splits)
qed (simp add: child_ends_def demo_children_def)

definition demo_processes :: processes where
  "demo_processes = \<lparr>forks_left = 0, waits_left = 0, running = [], zombies = [],
     reaped = [(102, Killed 9), (101, Exits (- 1))], not_forked = 0,
     wait_results = [(102, Some 9), (101, Some 65280)]\<rparr>"

lemma demo_processes_run: "(process_step demo_ends)\<^sup>*\<^sup>* (fork_all 2) demo_processes"
  unfolding demo_processes_def
  apply (rule then_steps, rule process_step.fork_child [of _ 1 101], simp_all add: fork_all_def pids_def)
  apply (rule then_steps, rule process_step.fork_child [of _ 0 102], simp_all add: pids_def)
  apply (rule then_steps, rule process_step.child_end [of 102 _ _ "Killed 9"], simp_all add: demo_child_ends)
  apply (rule then_steps, rule process_step.wait_child [of _ 1 102 "Killed 9"], simp_all)
  apply (rule then_steps, rule process_step.child_end [of 101 _ _ "Exits (- 1)"], simp_all add: demo_child_ends)
  apply (rule then_steps, rule process_step.wait_child [of _ 0 101 "Exits (- 1)"], simp_all)
  done

text \<open>C10: the memcpy test waits for every process it has started, in whatever order they end. When every
  call of \<open>fork\<close> succeeds, it counts each child once, and as failed exactly those that did not end with
  status 0, by the value of \<open>test_afu_memcpy\<close> or by a signal: \<open>main\<close> returns the number of failed children,
  or -1 when the atomic test finds a wrong value in the shared counter. It prints ``Test successful'' if and
  only if the value it returns is 0. The exit status of the program is the value modulo 256.\<close>

theorem test_counts_failures:
  assumes "irq_laws K" "(process_step (child_ends K H args C))\<^sup>*\<^sup>* (fork_all n) P" "all_waited P"
    and "not_forked P = 0"
  shows "length (reaped P) = n \<and> distinct (map fst (reaped P)) \<and>
    wp (do { (rc, failing) \<leftarrow> tally (wait_results P) None 0 (- 1); test_verdict K H args (int n) rc failing })
      (\<lambda>r s'. r = (if atomicity_error K args (int n) s then - 1
          else int (length (filter (\<lambda>(pid, e). e \<noteq> Exits 0) (reaped P)))) \<and>
        (\<exists>new. outs s' = outs s @ new \<and> (Stdout (''Test successful'' @ nl) \<in> set new \<longleftrightarrow> r = 0)) \<and>
        (status_word (Exits r) = 0 \<longleftrightarrow> 256 dvd r)) s"
proof -
  note inv = processes.run_inv [OF assms(2) process_inv_start]
  note all = waited_all [OF inv assms(3)]
  have tally: "wp (tally (wait_results P) None 0 (- 1)) Q s = Q (failures (reaped P), first_failed (reaped P)) s" for Q
    using wp_tally_waited [OF child_ends_plain [OF assms(1) all(3)], of "[]" None 0 "- 1" Q s]
    by (simp add: all(1) assms(4) wp_simps)
  have failures: "failures (reaped P) = int (length (filter (\<lambda>(pid, e). e \<noteq> Exits 0) (reaped P)))"
    by (simp add: failures_def comp_def case_prod_unfold)
  have "wp (test_verdict K H args (int n) (failures (reaped P)) failing)
      (\<lambda>r s'. r = (if atomicity_error K args (int n) s then - 1
          else int (length (filter (\<lambda>(pid, e). e \<noteq> Exits 0) (reaped P)))) \<and>
        (\<exists>new. outs s' = outs s @ new \<and> (Stdout (''Test successful'' @ nl) \<in> set new \<longleftrightarrow> r = 0)) \<and>
        (status_word (Exits r) = 0 \<longleftrightarrow> 256 dvd r)) s" for failing
    by (rule wp_mono [OF test_verdict_spec]) (simp_all add: failures mod_eq_0_iff_dvd)
  then show ?thesis using all(2,4) assms(4) by (simp add: wp_bind tally)
qed

theorem test_counts_failures_witness:
  "let P = demo_processes in (process_step demo_ends)\<^sup>*\<^sup>* (fork_all 2) P \<and>
    wp (do { (rc, failing) \<leftarrow> tally (wait_results P) None 0 (- 1);
        test_verdict demo_irq_platform demo_host default_args (int 2) rc failing }) (\<lambda>r s'. r = 2) demo_state"
proof -
  have laws: "irq_laws demo_irq_platform" by (simp add: demo_irq_platform_def demo_irq_laws)
  have "all_waited demo_processes" "not_forked demo_processes = 0"
    "\<not> atomicity_error demo_irq_platform default_args (int 2) demo_state"
    "int (length (filter (\<lambda>(pid, e). e \<noteq> Exits 0) (reaped demo_processes))) = 2"
    by (simp_all add: demo_processes_def all_waited_def default_args_def atomicity_error_def)
  with test_counts_failures [OF laws demo_processes_run, of demo_state] demo_processes_run show ?thesis
    unfolding Let_def by (auto elim!: wp_mono)
qed

text \<open>When \<open>fork\<close> fails for some of the processes, nobody notices: the calls of \<open>wait\<close> that
  are too many fail and leave the status of the child before, which is counted again, once for every
  process that was never started, if that child failed, and not at all if it did not. The test
  then reports success for processes that never ran.\<close>

lemma failed_forks_miscounted:
  assumes "irq_laws K" "(process_step (child_ends K H args C))\<^sup>*\<^sup>* (fork_all n) P" "all_waited P"
    and "not_forked P < n"
  shows "length (reaped P) = n - not_forked P \<and>
    wp (tally (wait_results P) None 0 (- 1)) (\<lambda>(rc, failing) s'. s' = s \<and>
      rc = failures (reaped P) + (if failed (snd (last (reaped P))) then int (not_forked P) else 0)) s"
proof -
  note inv = processes.run_inv [OF assms(2) process_inv_start]
  note all = waited_all [OF inv assms(3)]
  have some: "reaped P \<noteq> []" using all(2) assms(4) by auto
  note plain = child_ends_plain [OF assms(1) all(3)]
  with some have "status_word (snd (last (reaped P))) = 0 \<longleftrightarrow> \<not> failed (snd (last (reaped P)))"
    by (simp add: list_all_iff plain_def)
  then show ?thesis using all(2) some by (auto simp: all(1) wp_tally_waited [OF plain] wp_tally_stale)
qed

lemma failed_forks_miscounted_witness:
  "let P = \<lparr>forks_left = 0, waits_left = 0, running = [], zombies = [], reaped = [(102, Killed 9)], not_forked = 1,
       wait_results = [(102, Some 9), (- 1, None)]\<rparr> in
    wp (tally (wait_results P) None 0 (- 1)) (\<lambda>(rc, failing) s'. rc = 2) demo_state"
proof -
  let ?P = "\<lparr>forks_left = 0, waits_left = 0, running = [], zombies = [], reaped = [(102, Killed 9)], not_forked = 1,
       wait_results = [(102, Some 9), (- 1, None)]\<rparr>"
  have laws: "irq_laws demo_irq_platform" by (simp add: demo_irq_platform_def demo_irq_laws)
  have "(process_step demo_ends)\<^sup>*\<^sup>* (fork_all 2) ?P"
    apply (rule then_steps, rule process_step.fork_child [of _ 1 102], simp_all add: fork_all_def pids_def)
    apply (rule then_steps, rule process_step.fork_fails [of _ 0], simp_all)
    apply (rule then_steps, rule process_step.child_end [of 102 _ _ "Killed 9"], simp_all add: demo_child_ends)
    apply (rule then_steps, rule process_step.wait_child [of _ 1 102 "Killed 9"], simp_all)
    apply (rule then_steps, rule process_step.wait_fails [of _ 0], simp_all)
    done
  from failed_forks_miscounted [OF laws this, of demo_state] show ?thesis
    unfolding Let_def by (auto simp: all_waited_def simp del: tally.simps elim!: wp_mono)
qed

text \<open>C23: when the memcpy test comes to its end and when it does not, however the processes are scheduled. A
  run for \<open>n\<close> processes has at most \<open>3 * n\<close> steps of the parent and ends of children. It stops only when
  every call of \<open>wait\<close> has returned, or when the parent is left in \<open>wait\<close> with children none of which ever
  ends: \<open>test_afu_memcpy\<close> returns in none of them and no signal kills it. And from any state the
  end can be reached if and only if every child that runs is killed or returns from \<open>test_afu_memcpy\<close>.\<close>

theorem test_processes_finish:
  assumes "(process_step (child_ends K H args C) ^^ k) (fork_all n) P"
  shows "k \<le> 3 * n \<and>
    ((\<nexists>P'. process_step (child_ends K H args C) P P') \<longleftrightarrow> all_waited P \<or>
       (forks_left P = 0 \<and> zombies P = [] \<and> running P \<noteq> [] \<and>
        (\<forall>pid \<in> set (running P). \<nexists>e. child_ends K H args C pid e))) \<and>
    ((\<exists>P'. (process_step (child_ends K H args C))\<^sup>*\<^sup>* P P' \<and> all_waited P') \<longleftrightarrow>
       (\<forall>pid \<in> set (running P). \<exists>e. child_ends K H args C pid e))"
proof -
  let ?ends = "child_ends K H args C"
  note run = processes.run_bounded [OF assms process_inv_start]
  then have inv: "process_inv ?ends n P" ..
  have "process_work (fork_all n) = 3 * n" by (simp add: process_work_def fork_all_def)
  moreover have "(\<nexists>P'. process_step ?ends P P') \<longleftrightarrow> all_waited P \<or> blocked ?ends P"
    using settled_no_step [OF inv] next_step [of P ?ends] by blast
  ultimately show ?thesis
    using run waited_iff_can_end [OF inv] by (simp add: blocked_def can_end_def endless_def list_all_iff)
qed

theorem test_processes_finish_witness:
  "\<exists>P'. (process_step demo_ends)\<^sup>*\<^sup>* ((fork_all 2)\<lparr>forks_left := 1, running := [102]\<rparr>) P' \<and> all_waited P'"
proof -
  have "(process_step demo_ends ^^ 1) (fork_all 2) ((fork_all 2)\<lparr>forks_left := 1, running := [102]\<rparr>)"
    using process_step.fork_child [of "fork_all 2" 1 102 demo_ends] by (simp add: fork_all_def pids_def eq_OO)
  from test_processes_finish [OF this] demo_child_ends(1) show ?thesis by auto
qed

end
