(* ===== verification/Ocxl_Getopt_Long.thy ===== *)
theory Ocxl_Getopt_Long
  imports Ocxl_Getopt
begin

text \<open>
  \<open>getopt_long\<close> as GNU's C library has it, without \<open>POSIXLY_CORRECT\<close>: options and other
  arguments may be mixed, a long option may be shortened to a prefix no other option has, its
  argument follows after \<open>=\<close> or is the next argument. An option that is not listed, is not
  unique, lacks its argument or has one too many gives \<open>?\<close>; the message \<open>getopt_long\<close>
  writes for it is left out. Also \<open>strtoul\<close> with the base taken from the text, and
  \<open>strcasecmp\<close>.
\<close>

record long_option =
  lo_name :: string
  lo_has_arg :: bool
  lo_flag :: bool  \<comment> \<open>the option sets a variable and \<open>getopt_long\<close> returns 0\<close>
  lo_val :: char

datatype opt_result = Opt char "string option" | OptFlag string

definition find_long :: "long_option list \<Rightarrow> string \<Rightarrow> long_option option" where
  "find_long longs nm =
     (case filter (\<lambda>x. lo_name x = nm) longs of
        x # _ \<Rightarrow> Some x
      | [] \<Rightarrow> (case filter (\<lambda>x. take (length nm) (lo_name x) = nm) longs of
                 [x] \<Rightarrow> Some x
               | _ \<Rightarrow> None))"

definition long_result :: "long_option \<Rightarrow> string option \<Rightarrow> opt_result" where
  "long_result x arg = (if lo_flag x then OptFlag (lo_name x) else Opt (lo_val x) arg)"

text \<open>One long option \<open>--text\<close>: the result and the arguments that are left.\<close>

definition long_option_step ::
  "long_option list \<Rightarrow> string \<Rightarrow> string list \<Rightarrow> opt_result \<times> string list" where
  "long_option_step longs txt rest =
     (let nm = takeWhile (\<lambda>c. c \<noteq> CHR ''='') txt; val = dropWhile (\<lambda>c. c \<noteq> CHR ''='') txt in
      case find_long longs nm of
        None \<Rightarrow> (Opt CHR ''?'' None, rest)
      | Some x \<Rightarrow>
          if lo_has_arg x then
            (if val \<noteq> [] then (long_result x (Some (tl val)), rest)
             else (case rest of
                     [] \<Rightarrow> (Opt CHR ''?'' None, [])
                   | a # as \<Rightarrow> (long_result x (Some a), as)))
          else if val \<noteq> [] then (Opt CHR ''?'' None, rest)
          else (long_result x None, rest))"

lemma long_option_step_shorter:
  "sum_list (map length (snd (long_option_step longs txt rest))) + length (snd (long_option_step longs txt rest)) <
   Suc (k + (sum_list (map length rest) + length rest))"
  by (simp add: long_option_step_def Let_def split: option.split list.split)

function getopt_long ::
  "long_option list \<Rightarrow> (char \<times> bool) list \<Rightarrow> string list \<Rightarrow> string \<Rightarrow> opt_result list" where
  "getopt_long longs spec [] [] = []"
| "getopt_long longs spec (a # as) [] =
     (if a = ''--'' then []
      else if take 2 a = ''--'' then
        fst (long_option_step longs (drop 2 a) as) #
        getopt_long longs spec (snd (long_option_step longs (drop 2 a) as)) []
      else if 2 \<le> length a \<and> hd a = CHR ''-'' then getopt_long longs spec as (tl a)
      else getopt_long longs spec as [])"
| "getopt_long longs spec as (c # cs) =
     (case map_of spec c of
        None \<Rightarrow> Opt CHR ''?'' None # getopt_long longs spec as cs
      | Some False \<Rightarrow> Opt c None # getopt_long longs spec as cs
      | Some True \<Rightarrow>
          if cs \<noteq> [] then Opt c (Some cs) # getopt_long longs spec as []
          else (case as of
                  [] \<Rightarrow> [Opt CHR ''?'' None]
                | b # bs \<Rightarrow> Opt c (Some b) # getopt_long longs spec bs []))"
  by pat_completeness auto

termination getopt_long
  by (relation "measure (\<lambda>(longs, spec, as, cs). sum_list (map length as) + length as + length cs)")
    (auto simp: add.assoc long_option_step_shorter)

definition strtoul0 :: "string \<Rightarrow> u64" where
  "strtoul0 s =
     (let t = dropWhile c_isspace s;
          neg = (t \<noteq> [] \<and> hd t = CHR ''-'');
          u = (if t \<noteq> [] \<and> (hd t = CHR ''-'' \<or> hd t = CHR ''+'') then tl t else t);
          hex = (3 \<le> length u \<and> u ! 0 = CHR ''0'' \<and> (u ! 1 = CHR ''x'' \<or> u ! 1 = CHR ''X'') \<and> is_digit 16 (u ! 2));
          base = (if hex then 16 else if u \<noteq> [] \<and> hd u = CHR ''0'' then 8 else 10);
          v = value_of base (takeWhile (is_digit base) (if hex then drop 2 u else u))
      in if ULONG_MAX < v then of_nat ULONG_MAX else if neg then - of_nat v else of_nat v)"

text \<open>A \<open>unsigned long\<close> stored in an \<open>int\<close>.\<close>

definition int_of_ulong :: "u64 \<Rightarrow> int" where "int_of_ulong v = sint (ucast v :: 32 word)"

definition c_tolower :: "char \<Rightarrow> char" where
  "c_tolower c = (let n = of_char c :: nat in if 65 \<le> n \<and> n \<le> 90 then char_of (n + 32) else c)"

definition strcaseeq :: "string \<Rightarrow> string \<Rightarrow> bool" where
  "strcaseeq a b = (map c_tolower a = map c_tolower b)"


end
