(* ===== verification/Afp_Common.thy ===== *)
theory Afp_Common
  imports Ocxl_Client Ocxl_Getopt_Long
begin

text \<open>
  What the two tests of the AFP accelerator share: the registers of \<open>ocxl_afp3.h\<close>, the calls
  they make beyond the library (the record \<open>bench\<close>), writing and reading one register with the
  error path both programs have, and opening the device.

  Floating point arithmetic is kept as the expression the program computes; the text it prints
  for one is given by the host.
\<close>

section \<open>Registers\<close>

definition AFUExtraReadEA_AFP_REGISTER :: u64 where "AFUExtraReadEA_AFP_REGISTER = 0x0038"

definition AFUWED_AFP_REGISTER :: u64 where "AFUWED_AFP_REGISTER = 0x0040"

definition AFUBufmask_AFP_REGISTER :: u64 where "AFUBufmask_AFP_REGISTER = 0x0048"

definition AFUPASID_AFP_REGISTER :: u64 where "AFUPASID_AFP_REGISTER = 0x0050"

definition AFUMisc_AFP_REGISTER :: u64 where "AFUMisc_AFP_REGISTER = 0x0058"

definition AFUEnable_AFP_REGISTER :: u64 where "AFUEnable_AFP_REGISTER = 0x0060"

definition AFUControl_AFP_REGISTER :: u64 where "AFUControl_AFP_REGISTER = 0x0068"

text \<open>\<open>AFUPerfCnt0_AFP_REGISTER\<close> to \<open>AFUPerfCnt7_AFP_REGISTER\<close>\<close>

definition AFUPerfCnt_AFP_REGISTERS :: "u64 list" where
  "AFUPerfCnt_AFP_REGISTERS = [0x00C0, 0x00C8, 0x00D0, 0x00D8, 0x00E0, 0x00E8, 0x00F0, 0x00F8]"

definition AFP_NAME :: string where "AFP_NAME = ''IBM,AFP3''"

definition disableAfu :: u64 where "disableAfu = 0"

definition resetCnt :: u64 where "resetCnt = 0x4000000000000000"

section \<open>The host of a benchmark\<close>

datatype cdouble = DInt int | DMul cdouble cdouble | DDiv cdouble cdouble

record 'w bench =
  b_posix_memalign :: "nat \<Rightarrow> nat \<Rightarrow> 'w \<Rightarrow> (int \<times> u64) \<times> 'w"
  b_sleep :: "nat \<Rightarrow> 'w \<Rightarrow> 'w"
  b_usleep :: "nat \<Rightarrow> 'w \<Rightarrow> 'w"
  b_timebase :: "'w \<Rightarrow> u64 \<times> 'w"
  b_signal :: "int \<Rightarrow> 'w \<Rightarrow> bool \<times> 'w"  \<comment> \<open>True when the handler was installed\<close>
  b_signals :: "'w \<Rightarrow> int list \<times> 'w"  \<comment> \<open>the signals that have arrived since the last look\<close>
  b_double_text :: "nat \<Rightarrow> cdouble \<Rightarrow> string"  \<comment> \<open>the text with that many digits after the point\<close>

definition nap :: "'w bench \<Rightarrow> nat \<Rightarrow> ('w, unit) prog" where
  "nap B n = sys (\<lambda>w. ((), b_sleep B n w))"

definition show_double :: "'w bench \<Rightarrow> nat \<Rightarrow> cdouble \<Rightarrow> farg" where
  "show_double B prec d = FReal (b_double_text B prec d)"

text \<open>A host for the examples: memory at the next free address, no signals.\<close>

definition demo_bench :: "demo_w bench" where
  "demo_bench = \<lparr>b_posix_memalign = (\<lambda>a n w. ((0, dw_addr w), w\<lparr>dw_addr := dw_addr w + of_nat n\<rparr>)),
     b_sleep = (\<lambda>n w. w), b_usleep = (\<lambda>n w. w), b_timebase = (\<lambda>w. (of_nat (dw_block w), w)),
     b_signal = (\<lambda>n w. (True, w)), b_signals = (\<lambda>w. ([], w)), b_double_text = (\<lambda>p d. ''0.00'')\<rparr>"

section \<open>Steps with an error path\<close>

text \<open>The programs end with the error of the first step that fails: a step gives that exit
  status, or its result.\<close>

definition andthen :: "('w, int + 'a) prog \<Rightarrow> ('a \<Rightarrow> ('w, int + 'b) prog) \<Rightarrow> ('w, int + 'b) prog" where
  "andthen m f = do { r \<leftarrow> m; (case r of Inl e \<Rightarrow> State_Monad.return (Inl e) | Inr x \<Rightarrow> f x) }"

definition give_up :: "string \<Rightarrow> ocxl_err \<Rightarrow> ('w, int + 'a) prog" where
  "give_up fmt err = do { say Stderr fmt [FInt (err_code err)]; State_Monad.return (Inl (err_code err)) }"

definition write_register ::
  "'w platform \<Rightarrow> ocxl_mmio_h \<Rightarrow> string \<Rightarrow> u64 \<Rightarrow> u64 \<Rightarrow> ('w, int + unit) prog" where
  "write_register K h complaint reg v = do {
     err \<leftarrow> ocxl_mmio_write64 K h reg OCXL_MMIO_LITTLE_ENDIAN v;
     if err \<noteq> OCXL_OK then give_up complaint err else State_Monad.return (Inr ())
   }"

definition read_register :: "'w platform \<Rightarrow> ocxl_mmio_h \<Rightarrow> u64 \<Rightarrow> ('w, int + u64) prog" where
  "read_register K h reg = do {
     (err, v) \<leftarrow> ocxl_mmio_read64 K h reg OCXL_MMIO_LITTLE_ENDIAN;
     if err \<noteq> OCXL_OK then give_up ''ocxl_mmio_read64: %d'' err else State_Monad.return (Inr (the v))
   }"

definition open_afp :: "'w platform \<Rightarrow> string option \<Rightarrow> ('w, ocxl_err \<times> block option) prog" where
  "open_afp K dev = (case dev of Some d \<Rightarrow> ocxl_afu_open_from_dev K d | None \<Rightarrow> ocxl_afu_open K AFP_NAME)"

text \<open>Opening, attaching and mapping the global registers, as both programs do; \<open>complaint\<close> is
  the format of the message for a failed mapping.\<close>

definition attach_and_map ::
  "'w platform \<Rightarrow> bool \<Rightarrow> string \<Rightarrow> ('w, int + ocxl_mmio_h) prog" where
  "attach_and_map K verbose complaint = do {
     whenM verbose (say Stdout (''Calling ocxl_afu_attach'' @ nl) []);
     err \<leftarrow> ocxl_afu_attach K 0;
     if err \<noteq> OCXL_OK then give_up ''ocxl_afu_attach: %d'' err
     else do {
       (err, h) \<leftarrow> ocxl_mmio_map K OCXL_GLOBAL_MMIO;
       if err \<noteq> OCXL_OK then give_up complaint err else State_Monad.return (Inr h)
     }
   }"

text \<open>\<open>strtoul\<close> of an option's argument; an option without one has a null pointer.\<close>

definition strtoul_arg :: "string option \<Rightarrow> ('w, u64) prog" where
  "strtoul_arg arg = (case arg of
       Some s \<Rightarrow> State_Monad.return (strtoul0 s)
     | None \<Rightarrow> do { undefined_behaviour UB_null_argument; State_Monad.return 0 })"

text \<open>The encoding of the data sizes.\<close>

definition size_code :: "bool \<Rightarrow> int \<Rightarrow> int option" where
  "size_code with_512 n = (if n = 64 then Some 1 else if n = 128 then Some 2
     else if n = 256 \<or> with_512 \<and> n = 512 then Some 3 else None)"

section \<open>The books of the AFU\<close>

lemma quiet_afp [quiet_intros]:
  "quiet (nap B n)" "quiet (give_up fmt err)" "quiet (strtoul_arg arg)"
  unfolding nap_def give_up_def strtoul_arg_def by (intro quiet_intros)+

lemma quiet_registers [quiet_intros]:
  "quiet (write_register K h complaint reg v)" "quiet (read_register K h reg)"
  unfolding write_register_def read_register_def by (intro quiet_intros)+

lemma quiet_andthen [quiet_intros]: "quiet m \<Longrightarrow> (\<And>x. quiet (f x)) \<Longrightarrow> quiet (andthen m f)"
  unfolding andthen_def by (intro quiet_intros)

declare quiet_afp [THEN uses_quiet, uses_intros] quiet_registers [THEN uses_quiet, uses_intros]

lemma uses_andthen [uses_intros]:
  assumes "uses a b m" "\<And>x. uses c d (f x)"
  shows "uses (a + max 0 c) (b + max 0 d) (andthen m f)"
  unfolding andthen_def by (intro uses_bind uses_sum assms uses_quiet quiet_return)

lemma uses_attach_and_map:
  assumes "irq_laws K"
  shows "uses 1 0 (attach_and_map K verbose complaint)"
  unfolding attach_and_map_def by (rule uses_mono, (rule uses_intros uses_map [OF assms])+, simp_all)

text \<open>A program that goes on with the result of a step.\<close>

lemma wp_andthen:
  "wp (andthen m f) Q s = wp m (\<lambda>r s'. case r of Inl e \<Rightarrow> Q (Inl e) s' | Inr x \<Rightarrow> wp (f x) Q s') s"
  unfolding andthen_def wp_bind by (rule arg_cong [where f = "\<lambda>P. wp m P s"]) (auto simp: fun_eq_iff wp_return split: sum.split)

lemma wp_sum:
  assumes "wp m (\<lambda>r s'. case r of Inl e \<Rightarrow> P e s' | Inr x \<Rightarrow> R x s') s"
    and "\<And>e s'. P e s' \<Longrightarrow> Q (Inl e) s'" "\<And>x s'. R x s' \<Longrightarrow> Q (Inr x) s'"
  shows "wp m Q s"
  by (rule wp_mono [OF assms(1)]) (use assms(2,3) in \<open>auto split: sum.splits\<close>)

text \<open>The AFU and the handle of its mapped registers, after the programs have got it.\<close>

definition good_handle :: "ocxl_mmio_h \<Rightarrow> ocxl_afu \<Rightarrow> bool" where
  "good_handle h a \<longleftrightarrow> (\<exists>r m. h = Some r \<and> mmio_deref a r = Some m \<and> mm_start m \<noteq> 0 \<and> snd r < unat (mmio_count a))"

definition mapped_books :: "'w st \<Rightarrow> ocxl_mmio_h \<Rightarrow> 'w st \<Rightarrow> bool" where
  "mapped_books s h s' \<longleftrightarrow> books s 1 0 s' \<and> good_handle h (cur_afu s')"

lemma mapped_booksD: "mapped_books s h s' \<Longrightarrow> books s 1 0 s'"
  by (simp add: mapped_books_def)

lemma books_untouched: "books s p q s1 \<Longrightarrow> untouched s1 s2 \<Longrightarrow> books s p q s2"
  unfolding books_def by (metis kept_def kept_trans untouched_def untouched_kept)

lemma quiet_mapped:
  assumes "quiet m" "mapped_books s h s1" "\<And>x s2. mapped_books s h s2 \<Longrightarrow> Q x s2"
  shows "wp m Q s1"
  by (rule wp_mono [OF quietD [OF assms(1)]])
    (metis assms(2,3) books_untouched mapped_books_def untouched_def)

lemma map_gives_handle:
  assumes "irq_laws K" "books s 0 0 s1"
  shows "wp (ocxl_mmio_map K ty) (\<lambda>(rc, h) s'. books s 1 0 s' \<and> (rc = OCXL_OK \<longrightarrow> good_handle h (cur_afu s'))) s1"
proof -
  have inv: "afu_inv (cur_afu s1)" "within 0 0 (cur_afu s1)" using assms(2) by (auto simp: books_def kept_def)
  then have pre: "mmio_pre (cur_afu s1)" "mmap_nonnull K"
    using assms(1) by (auto simp: mmio_pre_def afu_inv_def mmio_room_def within_def irq_laws_def)
  have handle: "good_handle (snd r) (cur_afu s')" if "map_post sz ty s1 r s'" "fst r = OCXL_OK" for sz r s'
    using that by (cases r) (auto simp: map_post_def good_handle_def Let_def split: option.splits)
  have "wp (ocxl_mmio_map K ty) (\<lambda>r s'. fst r = OCXL_OK \<longrightarrow> good_handle (snd r) (cur_afu s')) s1"
    unfolding ocxl_mmio_map_def by (rule wp_mono [OF map_advanced_spec [OF pre]]) (use handle in blast)
  moreover have "wp (ocxl_mmio_map K ty) (\<lambda>_ s'. books s 1 0 s') s1"
    by (rule uses_books [OF uses_map [OF assms(1)] assms(2)]) (simp_all add: table_limit_def)
  ultimately have "wp (ocxl_mmio_map K ty) (\<lambda>r s'. (fst r = OCXL_OK \<longrightarrow> good_handle (snd r) (cur_afu s')) \<and> books s 1 0 s') s1"
    by (simp add: wp_conj)
  then show ?thesis by (rule wp_mono) (auto split: prod.split)
qed

lemma err_code_nonzero: "err \<noteq> OCXL_OK \<Longrightarrow> err_code err \<noteq> 0"
  by (cases err) auto

lemma books_more: "books s 0 0 s' \<Longrightarrow> books s 1 0 s'"
  by (simp add: books_def within_def)

lemma give_up_books:
  assumes "books s p q s1" "err \<noteq> OCXL_OK"
  shows "wp (give_up fmt err) (\<lambda>r s'. (\<exists>e. r = Inl e \<and> e \<noteq> 0) \<and> books s p q s') s1"
  using assms(1) err_code_nonzero [OF assms(2)]
  by (auto simp: give_up_def wp_simps wp_call books_def kept_def within_def debt_def)

lemma attach_and_map_spec:
  assumes "irq_laws K" "afu_inv (cur_afu s)" "within 0 0 (cur_afu s)"
  shows "wp (attach_and_map K verbose complaint) (\<lambda>r s'.
    case r of Inl e \<Rightarrow> e \<noteq> 0 \<and> books s 1 0 s' | Inr h \<Rightarrow> mapped_books s h s') s" (is "wp _ ?Q s")
proof -
  have lim: "0 \<le> table_limit" by simp
  have stop: "wp (give_up fmt err) ?Q s1" if "books s 1 0 s1" "err \<noteq> OCXL_OK" for fmt err s1
    by (rule wp_mono [OF give_up_books [OF that]]) auto
  have map: "wp (ocxl_mmio_map K OCXL_GLOBAL_MMIO) (\<lambda>x. wp (if fst x \<noteq> OCXL_OK then give_up complaint (fst x)
      else State_Monad.return (Inr (snd x))) ?Q) s1" if "books s 0 0 s1" for s1
    by (rule wp_mono [OF map_gives_handle [OF assms(1) that]])
      (auto simp: wp_return mapped_books_def intro!: stop)
  have attach: "wp (ocxl_afu_attach K 0) (\<lambda>err. wp (if err \<noteq> OCXL_OK then give_up ''ocxl_afu_attach: %d'' err
      else do { (err, h) \<leftarrow> ocxl_mmio_map K OCXL_GLOBAL_MMIO;
        if err \<noteq> OCXL_OK then give_up complaint err else State_Monad.return (Inr h) }) ?Q) s1"
    if "books s 0 0 s1" for s1
    by (rule uses_books [OF uses_attach that])
      (use map in \<open>auto simp: wp_bind case_prod_beta table_limit_def intro!: stop [OF books_more]\<close>)
  show ?thesis
    unfolding attach_and_map_def wp_bind [of "whenM _ _"] wp_bind [of "ocxl_afu_attach K 0"]
    by (rule uses_books [OF uses_whenM [OF uses_quiet [OF quiet_client(1)]] books_refl [OF assms(2,3)]])
      (use attach in \<open>auto simp: table_limit_def\<close>)
qed

lemma open_afp_fresh:
  "wp (open_afp K dev) (\<lambda>r s'. fst r = OCXL_OK \<longrightarrow> afu_inv (cur_afu s') \<and> within 0 0 (cur_afu s')) s"
proof -
  have "afu_inv (cur_afu s1) \<and> within 0 0 (cur_afu s1)"
    if "run_state (open_afp K dev) s = ((OCXL_OK, h), s1)" for h s1
    using that open_fresh [of K AFP_NAME None "- 1" s h s1] open_from_dev_fresh [of K _ s h s1]
    by (auto simp: open_afp_def ocxl_afu_open_def split: option.splits)
  then show ?thesis by (auto simp: wp_def split: prod.split)
qed

text \<open>An AFP accelerator to open, for the examples.\<close>

definition demo_afp :: "demo_w st" where
  "demo_afp = demo_state\<lparr>wld := demo_world\<lparr>dw_devices := [''IBM,AFP3.1:0:0.1.0''], dw_addr := 0x200000\<rparr>\<rparr>"

lemma demo_afp_name:
  "strchr ''IBM,AFP3.1:0:0.1.0'' CHR ''.'' = Some 8" "sscanf_count pci_format ''1:0:0.1.0'' = 5"
proof -
  show "strchr ''IBM,AFP3.1:0:0.1.0'' CHR ''.'' = Some 8" by code_simp
  show "sscanf_count pci_format ''1:0:0.1.0'' = 5" by (simp add: sscanf_count_def demo_scan)
qed

lemmas demo_afp_opening = open_afp_def AFP_NAME_def demo_afp_def open_defs demo_opening demo_afp_name demo_scan

section \<open>Exit statuses\<close>

text \<open>A step that fails never gives the exit status 0.\<close>

definition nonzero_exit :: "('w, int + 'a) prog \<Rightarrow> bool" where
  "nonzero_exit m \<longleftrightarrow> (\<forall>s. wp m (\<lambda>r _. r \<noteq> Inl 0) s)"

named_theorems exit_intros \<open>steps whose failure is an exit status other than 0\<close>

lemma nz_return [exit_intros]: "nonzero_exit (State_Monad.return (Inr x))"
  by (simp add: nonzero_exit_def wp_return)

lemma nz_Inl: "e \<noteq> 0 \<Longrightarrow> nonzero_exit (State_Monad.return (Inl e))"
  by (simp add: nonzero_exit_def wp_return)

lemma nz_bind [exit_intros]: "(\<And>x. nonzero_exit (f x)) \<Longrightarrow> nonzero_exit (State_Monad.bind m f)"
  unfolding nonzero_exit_def wp_bind by (blast intro: wp_mono [OF wp_True])

lemma nz_andthen [exit_intros]:
  assumes "nonzero_exit m" "\<And>x. nonzero_exit (f x)"
  shows "nonzero_exit (andthen m f)"
  unfolding nonzero_exit_def wp_andthen
  by (rule allI, rule wp_mono [OF assms(1) [unfolded nonzero_exit_def, rule_format]])
    (use assms(2) in \<open>auto simp: nonzero_exit_def split: sum.split\<close>)

lemma nz_if [exit_intros]:
  "(b \<Longrightarrow> nonzero_exit m) \<Longrightarrow> (\<not> b \<Longrightarrow> nonzero_exit n) \<Longrightarrow> nonzero_exit (if b then m else n)"
  by simp

lemma nz_prod [exit_intros]: "(\<And>x y. nonzero_exit (f x y)) \<Longrightarrow> nonzero_exit (case z of (x, y) \<Rightarrow> f x y)"
  by (cases z) simp

lemma nz_Let [exit_intros]: "(\<And>x. nonzero_exit (f x)) \<Longrightarrow> nonzero_exit (let x = e in f x)"
  by (simp add: Let_def)

lemma nz_give_up [exit_intros]: "err \<noteq> OCXL_OK \<Longrightarrow> nonzero_exit (give_up fmt err)"
  unfolding give_up_def by (intro exit_intros nz_Inl err_code_nonzero)

lemma nz_registers [exit_intros]:
  "nonzero_exit (write_register K h complaint reg v)" "nonzero_exit (read_register K h reg)"
  unfolding write_register_def read_register_def by (intro exit_intros; assumption)+

lemma quiet_exit:
  assumes "quiet m" "nonzero_exit m" "mapped_books s h s1"
    and "\<And>x s2. mapped_books s h s2 \<Longrightarrow> Q (Inr x) s2"
    and "\<And>e s2. e \<noteq> 0 \<Longrightarrow> mapped_books s h s2 \<Longrightarrow> Q (Inl e) s2"
  shows "wp m Q s1"
proof -
  have "wp m (\<lambda>r s2. r \<noteq> Inl 0 \<and> mapped_books s h s2) s1"
    using assms(2) quiet_mapped [OF assms(1,3), of "\<lambda>_. mapped_books s h"] by (simp add: wp_conj nonzero_exit_def)
  then show ?thesis by (rule wp_mono) (metis assms(4,5) sum.exhaust)
qed

text \<open>How both programs end: with status 0 and the AFU closed, or with another status and the AFU
  as it was used.\<close>

definition exit_post :: "'w st \<Rightarrow> int \<Rightarrow> 'w st \<Rightarrow> bool" where
  "exit_post s e s' \<longleftrightarrow> (if e = 0 then closed_since s s' else books s 1 0 s')"

section \<open>Registers in order\<close>

text \<open>Writing registers one after the other stops at the first that is not inside the region.\<close>

definition register_fits :: "ocxl_mmio_area \<Rightarrow> u64 \<times> u64 \<Rightarrow> bool" where
  "register_fits m w \<longleftrightarrow> mm_start m \<noteq> 0 \<and> unat (fst w) + 8 \<le> unat (mm_length m)"

definition register_store :: "ocxl_mmio_area \<Rightarrow> u64 \<times> u64 \<Rightarrow> call" where
  "register_store m w = CStore (mm_start m + fst w) (bytes_le 8 (snd w))"

definition in_order :: "ocxl_mmio_area \<Rightarrow> (u64 \<times> u64) list \<Rightarrow> 'w st \<Rightarrow> int + unit \<Rightarrow> 'w st \<Rightarrow> bool" where
  "in_order m ws s r s' \<longleftrightarrow> calls s' = calls s @ map (register_store m) (takeWhile (register_fits m) ws) \<and>
     cur_afu s' = cur_afu s \<and> ub s' = ub s \<and> (if list_all (register_fits m) ws then r = Inr () else \<exists>e. r = Inl e \<and> e \<noteq> 0)"

lemma write_register_in_order:
  assumes "mmio_deref (cur_afu s) h = Some m" "uint (mm_length m) < 2 ^ 63" "0 \<le> sint reg"
  shows "wp (write_register K (Some h) complaint reg v) (in_order m [(reg, v)] s) s"
proof -
  have ok: "register_fits m (reg, v) \<longleftrightarrow> access_result m reg 8 = OCXL_OK"
    by (simp add: register_fits_def access_result_def)
  show ?thesis
  proof (cases "access_result m reg 8 = OCXL_OK")
    case True
    then have "access_pre s h m reg 8" using access_result_pre(2) [OF assms] by simp
    from write64_wp [OF this] show ?thesis
      unfolding write_register_def wp_bind
      by (rule wp_mono) (use True in \<open>auto simp: wp_return in_order_def ok register_store_def accessed_def encode64_def\<close>)
  next
    case False
    from write_refused(2) [OF assms False] show ?thesis
      unfolding write_register_def wp_bind
      by (rule wp_mono)
        (use False in \<open>auto simp: wp_return wp_bind wp_say in_order_def ok refused_def give_up_def err_code_nonzero\<close>)
  qed
qed

lemma in_order_andthen:
  assumes "wp p (in_order m [w] s) s"
    and "\<And>s1. cur_afu s1 = cur_afu s \<Longrightarrow> ub s1 = ub s \<Longrightarrow> wp q (in_order m ws s1) s1"
  shows "wp (andthen p (\<lambda>_. q)) (in_order m (w # ws) s) s"
  unfolding wp_andthen
proof (rule wp_mono [OF assms(1)])
  fix r s1 assume r: "in_order m [w] s r s1"
  show "case r of Inl e \<Rightarrow> in_order m (w # ws) s (Inl e) s1 | Inr x \<Rightarrow> wp q (in_order m (w # ws) s) s1"
  proof (cases r)
    case (Inr x)
    with r have "cur_afu s1 = cur_afu s" "ub s1 = ub s" "register_fits m w" "calls s1 = calls s @ [register_store m w]"
      by (auto simp: in_order_def split: if_splits)
    then show ?thesis
      unfolding Inr sum.case by (intro wp_mono [OF assms(2)]) (auto simp: in_order_def)
  qed (use r in \<open>auto simp: in_order_def split: if_splits\<close>)
qed

text \<open>Steps that touch neither the AFU nor the registers.\<close>

lemma in_order_say:
  "calls s1 = calls s \<Longrightarrow> cur_afu s1 = cur_afu s \<Longrightarrow> ub s1 = ub s \<Longrightarrow> in_order m ws s1 = in_order m ws s"
  by (simp add: in_order_def fun_eq_iff)

end
