(* ===== verification/Afp_Bandwidth.thy ===== *)
theory Afp_Bandwidth
  imports Afp_Common
begin

text \<open>
  \<open>src/afutests/afp/ocxl_afp3.c\<close>: the bandwidth test of the AFP accelerator. It reads its
  options, writes the registers that start the accelerator, reads eight counters in intervals and
  prints the rates, and stops it. The static variables the options set are the record
  \<open>afp_options\<close>. \<open>main\<close> is cut into its options, the setup, and the measurement.
\<close>

section \<open>Options\<close>

definition BUF_4MB :: nat where "BUF_4MB = 4194304"

definition enableAfu :: u64 where "enableAfu = 0x8000000000000000"

record afp_options =
  ao_verbose :: bool
  tags_ld :: int
  tags_st :: int
  size_ld :: int
  size_st :: int
  numLoops :: u16
  waitTime :: u16
  offsetmask :: u64
  prefetch :: bool
  ao_device :: "string option"

definition afp_defaults :: afp_options where
  "afp_defaults = \<lparr>ao_verbose = False, tags_ld = 0, tags_st = 7, size_ld = 128, size_st = 128,
     numLoops = 3, waitTime = 2, offsetmask = 0x3FF, prefetch = False, ao_device = None\<rparr>"

definition tab1 :: string where "tab1 = [CHR 0x09]"

fun print_each :: "(string \<times> farg list) list \<Rightarrow> ('w, unit) prog" where
  "print_each [] = skip"
| "print_each ((fmt, args) # rest) = do { say Stdout (fmt @ nl) args; print_each rest }"

definition print_help :: "string \<Rightarrow> afp_options \<Rightarrow> ('w, unit) prog" where
  "print_help name ao = print_each [
     (''Usage: %s [ options ]'', [FStr name]),
     (tab1 @ ''--tags_ld   '' @ tab1 @ ''Number of tags for loads.  Default=%d'', [FInt (tags_ld ao)]),
     (tab1 @ ''--tags_st   '' @ tab1 @ ''Number of tags for stores.  Default=%d'', [FInt (tags_st ao)]),
     (tab1 @ ''            '' @ tab1 @ '' 0 -   0 tags (disabled)'', []),
     (tab1 @ ''            '' @ tab1 @ '' 1 -   1 tag'', []),
     (tab1 @ ''            '' @ tab1 @ '' 2 -   2 tags'', []),
     (tab1 @ ''            '' @ tab1 @ '' 3 -   4 tags'', []),
     (tab1 @ ''            '' @ tab1 @ '' 4 -  16 tags'', []),
     (tab1 @ ''            '' @ tab1 @ '' 5 -  64 tags'', []),
     (tab1 @ ''            '' @ tab1 @ '' 6 - 256 tags'', []),
     (tab1 @ ''            '' @ tab1 @ '' 7 - 512 tags'', []),
     (tab1 @ ''--size_ld   '' @ tab1 @ ''Data size, in Bytes, for loads.   Supported values: 64, 128, 256.  Default=%d'', [FInt (size_ld ao)]),
     (tab1 @ ''--size_st   '' @ tab1 @ ''Data size, in Bytes, for stores.  Supported values: 64, 128, 256.  Default=%d'', [FInt (size_st ao)]),
     (tab1 @ ''--npu_ld    '' @ tab1 @ ''Use rd_wnitc.n for loads.  Default is rd_wnitc'', []),
     (tab1 @ ''--npu_st    '' @ tab1 @ ''Use dma_w.n for stores.  Default is dma_w'', []),
     (tab1 @ ''--num       '' @ tab1 @ ''Number of times to check perf counts, default is %d'', [FInt (uint (numLoops ao))]),
     (tab1 @ ''--wait      '' @ tab1 @ ''Amount of seconds to wait between perf count reads, default is %d'', [FInt (uint (waitTime ao))]),
     (tab1 @ ''--prefetch  '' @ tab1 @ ''Initialize buffer memory'', []),
     (tab1 @ ''--offsetmask'' @ tab1 @ ''Determines how much of buffer to use.  Default 512kB.  Valid Range: 4K-512M.  Format: NumberLetter, e.g. 4K, 512K, 1M, 512M'', []),
     (tab1 @ ''--device    '' @ tab1 @ ''Device to open instead of first AFP AFU found'', []),
     (tab1 @ ''--verbose   '' @ tab1 @ ''Verbose output'', []),
     (tab1 @ ''--help      '' @ tab1 @ ''Print this message'', []),
     ([], [])]"

definition long_arg :: "string \<Rightarrow> char \<Rightarrow> long_option" where
  "long_arg nm c = \<lparr>lo_name = nm, lo_has_arg = True, lo_flag = False, lo_val = c\<rparr>"

definition long_plain :: "string \<Rightarrow> char \<Rightarrow> long_option" where
  "long_plain nm c = \<lparr>lo_name = nm, lo_has_arg = False, lo_flag = False, lo_val = c\<rparr>"

definition long_flag :: "string \<Rightarrow> long_option" where
  "long_flag nm = \<lparr>lo_name = nm, lo_has_arg = False, lo_flag = True, lo_val = CHR 0x01\<rparr>"

definition afp_long_options :: "long_option list" where
  "afp_long_options = [long_arg ''tags_ld'' CHR ''a'', long_arg ''tags_st'' CHR ''b'',
     long_arg ''size_ld'' CHR ''y'', long_arg ''size_st'' CHR ''z'', long_arg ''num'' CHR ''n'',
     long_arg ''wait'' CHR ''w'', long_plain ''prefetch'' CHR ''p'', long_arg ''offsetmask'' CHR ''o'',
     long_flag ''verbose'', long_plain ''help'' CHR ''h'', long_arg ''device'' CHR ''d'']"

definition afp_short_options :: "(char \<times> bool) list" where
  "afp_short_options = [(CHR ''a'', False), (CHR ''v'', False), (CHR ''h'', False), (CHR ''c'', True), (CHR ''d'', True)]"

text \<open>The sizes \<open>--offsetmask\<close> knows, with their masks in pages.\<close>

definition offset_masks :: "(string \<times> u64) list" where
  "offset_masks = [(''4K'', 0x00), (''8K'', 0x01), (''16K'', 0x03), (''32K'', 0x07), (''64K'', 0x0F),
     (''128K'', 0x1F), (''256K'', 0x3F), (''512K'', 0x7F), (''1M'', 0xFF), (''2M'', 0x1FF), (''4M'', 0x3FF),
     (''8M'', 0x7FF), (''16M'', 0xFFF), (''32M'', 0x1FFF), (''64M'', 0x3FFF), (''128M'', 0x7FFF),
     (''256M'', 0xFFFF), (''512M'', 0x1FFFF), (''1G'', 0x3FFFF), (''2G'', 0x7FFFF), (''4G'', 0xFFFFF)]"

definition offset_mask_of :: "string \<Rightarrow> u64 option" where
  "offset_mask_of txt = map_option snd (find (\<lambda>(nm, m). strcaseeq txt nm) offset_masks)"

definition set_offsetmask :: "string \<Rightarrow> string \<Rightarrow> afp_options \<Rightarrow> ('w, int + afp_options) prog" where
  "set_offsetmask name txt ao =
     (case offset_mask_of txt of
        None \<Rightarrow> do {
          say Stderr (''Illegal value entered for --offsetmask argument = 0x%lx  Must be string: 4K-512M'' @ nl)
            [FInt (uint (offsetmask ao))];
          print_help name ao;
          State_Monad.return (Inl (- 1))
        }
      | Some m \<Rightarrow> do {
          whenM (m > 0x3FF)
            (say Stdout (''Warning: offsetmask is bigger than the 4MB memory buffer allocated by this app'' @ nl) []);
          State_Monad.return (Inr (ao\<lparr>offsetmask := m\<rparr>))
        })"

text \<open>The switch over one option; case \<open>0\<close> is an option that sets its flag.\<close>

definition afp_option :: "string \<Rightarrow> opt_result \<Rightarrow> afp_options \<Rightarrow> ('w, int + afp_options) prog" where
  "afp_option name r ao =
     (case r of
        OptFlag nm \<Rightarrow> State_Monad.return (Inr (ao\<lparr>ao_verbose := True\<rparr>))
      | Opt c arg \<Rightarrow>
          if c = CHR ''v'' then State_Monad.return (Inr ao)
          else if c = CHR ''a'' then do { v \<leftarrow> strtoul_arg arg; State_Monad.return (Inr (ao\<lparr>tags_ld := int_of_ulong v\<rparr>)) }
          else if c = CHR ''b'' then do { v \<leftarrow> strtoul_arg arg; State_Monad.return (Inr (ao\<lparr>tags_st := int_of_ulong v\<rparr>)) }
          else if c = CHR ''y'' then do { v \<leftarrow> strtoul_arg arg; State_Monad.return (Inr (ao\<lparr>size_ld := int_of_ulong v\<rparr>)) }
          else if c = CHR ''z'' then do { v \<leftarrow> strtoul_arg arg; State_Monad.return (Inr (ao\<lparr>size_st := int_of_ulong v\<rparr>)) }
          else if c = CHR ''n'' then do { v \<leftarrow> strtoul_arg arg; State_Monad.return (Inr (ao\<lparr>numLoops := ucast v\<rparr>)) }
          else if c = CHR ''w'' then do { v \<leftarrow> strtoul_arg arg; State_Monad.return (Inr (ao\<lparr>waitTime := ucast v\<rparr>)) }
          else if c = CHR ''p'' then State_Monad.return (Inr (ao\<lparr>prefetch := True\<rparr>))
          else if c = CHR ''o'' then set_offsetmask name (the arg) ao
          else if c = CHR ''d'' then State_Monad.return (Inr (ao\<lparr>ao_device := arg\<rparr>))
          else do {
            print_help name ao;
            State_Monad.return (Inl (if c = CHR ''h'' then 0 else - 1))
          })"

fun afp_switch :: "string \<Rightarrow> opt_result list \<Rightarrow> afp_options \<Rightarrow> ('w, int + afp_options) prog" where
  "afp_switch name [] ao = State_Monad.return (Inr ao)"
| "afp_switch name (r # rs) ao = andthen (afp_option name r ao) (afp_switch name rs)"

text \<open>A size of the options, encoded; \<open>what\<close> names the option.\<close>

definition checked_size :: "string \<Rightarrow> string \<Rightarrow> int \<Rightarrow> afp_options \<Rightarrow> ('w, int + int) prog" where
  "checked_size name what n ao =
     (case size_code False n of
        Some c \<Rightarrow> State_Monad.return (Inr c)
      | None \<Rightarrow> do {
          say Stderr (''Illegal value entered for --'' @ what @ '' argument = %d'' @ nl) [FInt n];
          print_help name ao;
          State_Monad.return (Inl (- 1))
        })"

text \<open>The options, the mask in bytes, and the encoded sizes.\<close>

definition afp_arguments :: "string \<Rightarrow> string list \<Rightarrow> ('w, int + afp_options \<times> int \<times> int) prog" where
  "afp_arguments name argv =
     andthen (afp_switch name (getopt_long afp_long_options afp_short_options argv []) afp_defaults) (\<lambda>ao.
       let ao = ao\<lparr>offsetmask := push_bit 12 (offsetmask ao)\<rparr> in
       andthen (checked_size name ''size_ld'' (size_ld ao) ao) (\<lambda>ld.
       andthen (checked_size name ''size_st'' (size_st ao) ao) (\<lambda>st.
       State_Monad.return (Inr (ao, ld, st)))))"

section \<open>Setup\<close>

text \<open>\<open>npu_ld\<close> and \<open>npu_st\<close> are 0: no option sets them. The products are of type
  \<open>int\<close>.\<close>

definition afp_wed :: "u64 \<Rightarrow> afp_options \<Rightarrow> int \<Rightarrow> int \<Rightarrow> ('w, u64) prog" where
  "afp_wed buffer ao ld st = do {
     a \<leftarrow> int_mul (tags_ld ao) 512;
     b \<leftarrow> int_mul (tags_st ao) 8;
     State_Monad.return (buffer + of_int a + of_int (ld * 128) + 0 + of_int b + of_int (st * 2) + 0)
   }"

definition allocate_buffer :: "'w platform \<Rightarrow> 'w bench \<Rightarrow> afp_options \<Rightarrow> ('w, int + u64) prog" where
  "allocate_buffer K B ao = do {
     (rc, buffer) \<leftarrow> sys (b_posix_memalign B BUF_4MB BUF_4MB);
     if rc \<noteq> 0 then do {
       say Stderr ''Memory alloc failed for buffer: %d'' [FInt rc];
       State_Monad.return (Inl rc)
     } else do {
       whenM (ao_verbose ao) (say Stdout (''Allocated Buffer memory @ %p'' @ nl) [FPtr buffer]);
       whenM (prefetch ao) (do {
         say Stdout (''Initializing allocated memory'' @ nl) [];
         c_memset K buffer 0x66 BUF_4MB
       });
       State_Monad.return (Inr buffer)
     }
   }"

text \<open>A register written after a message of the verbose mode.\<close>

definition announce :: "bool \<Rightarrow> string \<Rightarrow> u64 \<Rightarrow> ('w, unit) prog" where
  "announce verbose fmt v = whenM verbose (say Stdout (fmt @ nl) [FInt (uint v)])"

definition set_register ::
  "'w platform \<Rightarrow> ocxl_mmio_h \<Rightarrow> bool \<Rightarrow> string \<Rightarrow> u64 \<Rightarrow> u64 \<Rightarrow> ('w, int + unit) prog" where
  "set_register K h verbose fmt reg v = do {
     announce verbose fmt v;
     write_register K h ''ocxl_mmio_write64: %d'' reg v
   }"

definition start_afp ::
  "'w platform \<Rightarrow> ocxl_mmio_h \<Rightarrow> u64 \<Rightarrow> afp_options \<Rightarrow> int \<Rightarrow> int \<Rightarrow> ('w, int + unit) prog" where
  "start_afp K h buffer ao ld st = do {
     p \<leftarrow> ocxl_afu_get_pasid;
     andthen (set_register K h (ao_verbose ao) ''PASID = %ld'' AFUPASID_AFP_REGISTER (ucast p)) (\<lambda>_. do {
     wed_in \<leftarrow> afp_wed buffer ao ld st;
     andthen (set_register K h (ao_verbose ao) ''WED = 0x%lx'' AFUWED_AFP_REGISTER wed_in) (\<lambda>_.
     andthen (set_register K h (ao_verbose ao) ''BUFMASK = %lx'' AFUBufmask_AFP_REGISTER (offsetmask ao)) (\<lambda>_.
     andthen (set_register K h (ao_verbose ao) ''CONTROL_REG(reset) = %lx'' AFUControl_AFP_REGISTER resetCnt) (\<lambda>_.
     andthen (set_register K h (ao_verbose ao) ''ENABLE_REG = %lx'' AFUEnable_AFP_REGISTER enableAfu) (\<lambda>_. do {
       say Stdout (''Parameters used: tags_ld=%d - size_ld=%d - tags_st=%d - size_st=%d'' @ nl)
         [FInt (tags_ld ao), FInt (size_ld ao), FInt (tags_st ao), FInt (size_st ao)];
       State_Monad.return (Inr ())
     }))))
     })
   }"

section \<open>Measurement\<close>

text \<open>The counters are read one after the other; the first that fails ends the program.\<close>

fun read_counters :: "'w platform \<Rightarrow> ocxl_mmio_h \<Rightarrow> u64 list \<Rightarrow> ('w, int + u64 list) prog" where
  "read_counters K h [] = State_Monad.return (Inr [])"
| "read_counters K h (reg # regs) =
     andthen (read_register K h reg) (\<lambda>v.
     andthen (read_counters K h regs) (\<lambda>vs. State_Monad.return (Inr (v # vs))))"

definition counter_names :: "string list" where
  "counter_names = [''Total Cycles   '', ''Good Resp Total'', ''Good Resp Load '', ''Good Resp Store'',
     ''Retries - Total'', ''Retries - Loads'', ''Retries - Store'', ''No cred cycles '']"

text \<open>Bytes per count: the first and the last counter count events.\<close>

definition counter_weights :: "int list" where "counter_weights = [1, 64, 64, 64, 64, 64, 64, 1]"

definition microseconds :: "timeval \<Rightarrow> timeval \<Rightarrow> cdouble" where
  "microseconds t0 t1 = DInt ((tv_sec t1 - tv_sec t0) * 1000000 + tv_usec t1 - tv_usec t0)"

text \<open>The three rates of a counter: by the clock of the program, per cycle of the accelerator, and
  by its clock of 200 MHz.\<close>

definition app_rate :: "cdouble \<Rightarrow> int \<Rightarrow> u64 \<Rightarrow> cdouble" where
  "app_rate us weight delta =
     DDiv (DMul (DInt (uint delta)) (DDiv (DInt weight) (DDiv us (DInt 1000000)))) (DInt 1000000000)"

definition cycle_rate :: "u64 \<Rightarrow> int \<Rightarrow> u64 \<Rightarrow> cdouble" where
  "cycle_rate cycles weight delta = DDiv (DMul (DInt (uint delta)) (DInt weight)) (DInt (uint cycles))"

definition clock_rate :: "u64 \<Rightarrow> int \<Rightarrow> u64 \<Rightarrow> cdouble" where
  "clock_rate cycles weight delta =
     DDiv (DMul (DInt (uint delta)) (DDiv (DInt weight) (DDiv (DInt (uint cycles)) (DInt 200000000)))) (DInt 1000000000)"

definition report_counter ::
  "'w bench \<Rightarrow> cdouble \<Rightarrow> u64 \<Rightarrow> string \<times> int \<times> u64 \<times> u64 \<Rightarrow> ('w, unit) prog" where
  "report_counter B us cycles x = (case x of (nm, weight, prev, count) \<Rightarrow>
     let delta = count - prev in
     say Stdout (nm @ '' %016lx %016lx %016lx %#12.8f %#1.8f %#12.8f'' @ nl)
       [FInt (uint count), FInt (uint prev), FInt (uint delta), show_double B 8 (app_rate us weight delta),
        show_double B 8 (cycle_rate cycles weight delta), show_double B 8 (clock_rate cycles weight delta)])"

fun report_counters ::
  "'w bench \<Rightarrow> cdouble \<Rightarrow> u64 \<Rightarrow> (string \<times> int \<times> u64 \<times> u64) list \<Rightarrow> ('w, unit) prog" where
  "report_counters B us cycles [] = say Stdout nl []"
| "report_counters B us cycles (x # xs) = do { report_counter B us cycles x; report_counters B us cycles xs }"

definition measure_once ::
  "'w platform \<Rightarrow> 'w host \<Rightarrow> 'w bench \<Rightarrow> ocxl_mmio_h \<Rightarrow> timeval \<Rightarrow> u64 list \<Rightarrow>
   ('w, int + timeval \<times> u64 list) prog" where
  "measure_once K H B h t_prev prev = do {
     t \<leftarrow> gettimeofday H;
     andthen (read_counters K h AFUPerfCnt_AFP_REGISTERS) (\<lambda>counts. do {
       report_counters B (microseconds t_prev t) (hd counts - hd prev)
         (zip counter_names (zip counter_weights (zip prev counts)));
       State_Monad.return (Inr (t, counts))
     })
   }"

fun measure_loop ::
  "'w platform \<Rightarrow> 'w host \<Rightarrow> 'w bench \<Rightarrow> ocxl_mmio_h \<Rightarrow> nat \<Rightarrow> nat \<Rightarrow> timeval \<Rightarrow> u64 list \<Rightarrow>
   ('w, int + unit) prog" where
  "measure_loop K H B h wait 0 t prev = State_Monad.return (Inr ())"
| "measure_loop K H B h wait (Suc n) t prev =
     andthen (measure_once K H B h t prev) (\<lambda>(t, prev). do {
       nap B wait;
       measure_loop K H B h wait n t prev
     })"

definition measure_bandwidth ::
  "'w platform \<Rightarrow> 'w host \<Rightarrow> 'w bench \<Rightarrow> ocxl_mmio_h \<Rightarrow> afp_options \<Rightarrow> ('w, int + unit) prog" where
  "measure_bandwidth K H B h ao = do {
     nap B 1;
     say Stdout (''Counter         Curr Count (64B) Prev Count       Count Diff.      BW (GB/s) using App clock'' @
       tab1 @ ''Bytes or Events per AFP cycle'' @ tab1 @ tab1 @ ''BW using 200MHz AFU clock (GB/s)'' @ nl) [];
     say Stdout (replicate 89 CHR ''-'' @ nl) [];
     t \<leftarrow> gettimeofday H;
     andthen (read_counters K h AFUPerfCnt_AFP_REGISTERS) (\<lambda>prev. do {
       nap B (unat (waitTime ao));
       measure_loop K H B h (unat (waitTime ao)) (unat (numLoops ao)) t prev
     })
   }"

text \<open>\<open>main\<close> on the open AFU, up to the write that stops the accelerator.\<close>

definition afp_body ::
  "'w platform \<Rightarrow> 'w host \<Rightarrow> 'w bench \<Rightarrow> afp_options \<Rightarrow> int \<Rightarrow> int \<Rightarrow> ('w, int + unit) prog" where
  "afp_body K H B ao ld st =
     andthen (attach_and_map K (ao_verbose ao) ''global ocxl_mmio_map: %d'') (\<lambda>h.
     andthen (allocate_buffer K B ao) (\<lambda>buffer.
     andthen (start_afp K h buffer ao ld st) (\<lambda>_.
     andthen (measure_bandwidth K H B h ao) (\<lambda>_. do {
       whenM (ao_verbose ao) (say Stdout (''Stopping AFU'' @ nl) []);
       write_register K h ''ocxl_mmio_write64: %d'' AFUEnable_AFP_REGISTER disableAfu
     }))))"

definition afp_session ::
  "'w platform \<Rightarrow> 'w host \<Rightarrow> 'w bench \<Rightarrow> afp_options \<Rightarrow> int \<Rightarrow> int \<Rightarrow> ('w, int) prog" where
  "afp_session K H B ao ld st = do {
     r \<leftarrow> afp_body K H B ao ld st;
     (case r of
        Inl e \<Rightarrow> State_Monad.return e
      | Inr _ \<Rightarrow> do {
          whenM (ao_verbose ao) (say Stdout (''Free afu'' @ nl) []);
          ocxl_afu_close K;
          State_Monad.return 0
        })
   }"

definition afp_open :: "'w platform \<Rightarrow> afp_options \<Rightarrow> ('w, int + unit) prog" where
  "afp_open K ao = do {
     ocxl_enable_messages OCXL_ERRORS;
     whenM (ao_verbose ao) (say Stdout (''Calling ocxl_afu_open'' @ nl) []);
     (err, _) \<leftarrow> open_afp K (ao_device ao);
     if err \<noteq> OCXL_OK then do {
       say Stderr (''ocxl_afu_open() failed for %s, error %d'' @ nl)
         [FStr (case ao_device ao of Some d \<Rightarrow> d | None \<Rightarrow> AFP_NAME), FInt (err_code err)];
       State_Monad.return (Inl (err_code err))
     } else State_Monad.return (Inr ())
   }"

definition afp_main ::
  "'w platform \<Rightarrow> 'w host \<Rightarrow> 'w bench \<Rightarrow> string \<Rightarrow> string list \<Rightarrow> ('w, int) prog" where
  "afp_main K H B name argv = do {
     a \<leftarrow> afp_arguments name argv;
     (case a of
        Inl e \<Rightarrow> State_Monad.return e
      | Inr (ao, ld, st) \<Rightarrow> do {
          d \<leftarrow> afp_open K ao;
          (case d of
             Inl e \<Rightarrow> State_Monad.return e
           | Inr _ \<Rightarrow> afp_session K H B ao ld st)
        })
   }"

section \<open>The books of the AFU\<close>

lemma quiet_setup [quiet_intros]:
  "quiet (allocate_buffer K B ao)" "quiet (announce verbose fmt v)"
  "quiet (afp_wed buffer ao ld st)"
  unfolding allocate_buffer_def announce_def afp_wed_def by (intro quiet_intros)+

lemma quiet_pasid [quiet_intros]: "quiet ocxl_afu_get_pasid"
  unfolding ocxl_afu_get_pasid_def by (intro quiet_intros)

lemma quiet_start [quiet_intros]:
  "quiet (set_register K h verbose fmt reg v)" "quiet (start_afp K h buffer ao ld st)"
  unfolding start_afp_def set_register_def by (intro quiet_intros)+

lemma quiet_counters [quiet_intros]: "quiet (read_counters K h regs)"
  by (induction regs) (auto intro!: quiet_intros)

lemma quiet_report [quiet_intros]: "quiet (report_counters B us cycles xs)"
  by (induction xs) (auto intro!: quiet_intros simp: report_counter_def Let_def split: prod.split)

lemma quiet_measure_loop [quiet_intros]: "quiet (measure_loop K H B h wait n t prev)"
  by (induction n arbitrary: t prev) (auto intro!: quiet_intros simp: measure_once_def)

lemma quiet_measure [quiet_intros]: "quiet (measure_bandwidth K H B h ao)"
  unfolding measure_bandwidth_def by (intro quiet_intros)

lemma nz_setup [exit_intros]: "nonzero_exit (allocate_buffer K B ao)"
  unfolding allocate_buffer_def by (intro exit_intros nz_Inl) simp_all

lemma nz_start [exit_intros]: "nonzero_exit (start_afp K h buffer ao ld st)"
  unfolding start_afp_def set_register_def by (intro exit_intros)

lemma nz_counters [exit_intros]: "nonzero_exit (read_counters K h regs)"
  by (induction regs) (auto intro!: exit_intros)

lemma nz_measure_loop [exit_intros]: "nonzero_exit (measure_loop K H B h wait n t prev)"
  by (induction n arbitrary: t prev) (auto intro!: exit_intros simp: measure_once_def)

lemma nz_measure [exit_intros]: "nonzero_exit (measure_bandwidth K H B h ao)"
  unfolding measure_bandwidth_def by (intro exit_intros)

lemma afp_session_spec:
  assumes "irq_laws K" "afu_inv (cur_afu s)" "within 0 0 (cur_afu s)"
  shows "wp (afp_session K H B ao ld st) (exit_post s) s"
proof -
  have stop: "exit_post s e s'" if "e \<noteq> 0" "mapped_books s h s'" for e h s'
    using that by (simp add: exit_post_def mapped_books_def)
  let ?rest = "\<lambda>h. andthen (allocate_buffer K B ao) (\<lambda>buffer. andthen (start_afp K h buffer ao ld st) (\<lambda>_.
    andthen (measure_bandwidth K H B h ao) (\<lambda>_. do {
      whenM (ao_verbose ao) (say Stdout (''Stopping AFU'' @ nl) []);
      write_register K h ''ocxl_mmio_write64: %d'' AFUEnable_AFP_REGISTER disableAfu })))"
  let ?conclude = "\<lambda>r. case r of Inl e \<Rightarrow> State_Monad.return e | Inr _ \<Rightarrow> do {
    whenM (ao_verbose ao) (say Stdout (''Free afu'' @ nl) []); ocxl_afu_close K; State_Monad.return 0 }"
  have close: "wp (?conclude (Inr x)) (exit_post s) s1" if b: "mapped_books s h s1" for x :: unit and h s1
  proof -
    have "wp (ocxl_afu_close K) (\<lambda>_. exit_post s 0) s2" if "mapped_books s h s2" for s2
      by (rule wp_mono [OF close_since [OF mapped_booksD [OF that]]]) (simp add: exit_post_def)
    then have "wp (whenM (ao_verbose ao) (say Stdout (''Free afu'' @ nl) [])) (\<lambda>_. wp (ocxl_afu_close K) (\<lambda>_. exit_post s 0)) s1"
      by (intro quiet_mapped [OF _ b] quiet_intros)
    then show ?thesis by (simp add: wp_bind wp_return)
  qed
  have rest: "wp (?rest h) (\<lambda>r. wp (?conclude r) (exit_post s)) s1" if "mapped_books s h s1" for h s1
    by (rule quiet_exit [OF _ _ that]) (auto intro!: quiet_intros exit_intros close [simplified] stop simp: wp_return)
  show ?thesis
    unfolding afp_session_def afp_body_def wp_bind [of "andthen _ _"] wp_andthen [of "attach_and_map _ _ _"]
    by (rule wp_mono [OF attach_and_map_spec [OF assms]])
      (auto simp: wp_return exit_post_def rest split: sum.splits)
qed

lemma afp_open_fresh:
  assumes "run_state (afp_open K ao) s = (Inr (), s1)"
  shows "afu_inv (cur_afu s1)" "within 0 0 (cur_afu s1)"
proof -
  have "wp (afp_open K ao) (\<lambda>r s'. r = Inr () \<longrightarrow> afu_inv (cur_afu s') \<and> within 0 0 (cur_afu s')) s"
    by (auto simp: afp_open_def wp_bind wp_say wp_return wp_whenM case_prod_beta
        intro!: wp_mono [OF wp_True [of "ocxl_enable_messages OCXL_ERRORS"]] wp_mono [OF open_afp_fresh])
  from wpD [OF this assms] show "afu_inv (cur_afu s1)" "within 0 0 (cur_afu s1)" by simp_all
qed

section \<open>Starting the accelerator\<close>

lemma set_register_in_order:
  assumes "mmio_deref (cur_afu s) h = Some m" "uint (mm_length m) < 2 ^ 63" "0 \<le> sint reg"
  shows "wp (set_register K (Some h) verbose fmt reg v) (in_order m [(reg, v)] s) s"
proof -
  let ?s = "say_state Stdout (fmt @ nl) [FInt (uint v)] s"
  have "in_order m [(reg, v)] ?s = in_order m [(reg, v)] s" by (rule in_order_say) simp_all
  moreover have "wp (write_register K (Some h) ''ocxl_mmio_write64: %d'' reg v) (in_order m [(reg, v)] ?s) ?s"
    using assms by (intro write_register_in_order) simp_all
  ultimately show ?thesis
    by (simp add: set_register_def announce_def wp_bind wp_whenM wp_say write_register_in_order [OF assms])
qed

lemma wp_int_mul:
  "- (2 ^ 31) \<le> a * b \<Longrightarrow> a * b < 2 ^ 31 \<Longrightarrow> wp (int_mul a b) Q s = Q (a * b) s"
  by (simp add: int_mul_def wp_simps signed_of_int signed_take_bit_int_eq_self del: of_int_mult)

definition afp_wed_value :: "u64 \<Rightarrow> afp_options \<Rightarrow> int \<Rightarrow> int \<Rightarrow> u64" where
  "afp_wed_value buffer ao ld st = buffer + of_int (512 * tags_ld ao + 128 * ld + 8 * tags_st ao + 2 * st)"

lemma wp_afp_wed:
  assumes "tags_ld ao \<in> {0..7}" "tags_st ao \<in> {0..7}"
  shows "wp (afp_wed buffer ao ld st) Q s = Q (afp_wed_value buffer ao ld st) s"
proof -
  have "0 \<le> tags_ld ao * 512" "tags_ld ao * 512 < 2 ^ 31" "0 \<le> tags_st ao * 8" "tags_st ao * 8 < 2 ^ 31"
    using assms by auto
  then show ?thesis
    by (simp add: afp_wed_def wp_bind wp_int_mul wp_return afp_wed_value_def algebra_simps)
qed

lemma word_field:
  assumes "0 \<le> r" "r < w" "0 \<le> a" "a < k"
  shows "(w * (k * x + a) + r) div w mod k = (a :: int)"
proof -
  have "(w * (k * x + a) + r) div w = k * x + a" using assms by simp
  then show ?thesis using assms by simp
qed

section \<open>Properties\<close>

text \<open>C11: the bandwidth test starts the accelerator in order. It writes the PASID, the work element
  descriptor, the mask of the buffer, the reset of the counters and the enable bit to their registers, in
  little endian and in this order, and stops with an error at the first register that does not lie inside
  the mapped region; in particular the accelerator is never enabled before everything else is set. The numbers
  of tags are from 0 to 7, as documented.\<close>

theorem afp_start_sequence:
  assumes "mmio_deref (cur_afu s) h = Some m" "uint (mm_length m) < 2 ^ 63"
    and "tags_ld ao \<in> {0..7}" "tags_st ao \<in> {0..7}"
  shows "wp (start_afp K (Some h) buffer ao ld st) (\<lambda>r s'.
    (let ws = [(0x50, ucast (pasid (cur_afu s))),
               (0x40, buffer + of_int (512 * tags_ld ao + 128 * ld + 8 * tags_st ao + 2 * st)),
               (0x48, offsetmask ao), (0x68, 2 ^ 62), (0x60, 2 ^ 63)];
         fits = (\<lambda>(reg, v). mm_start m \<noteq> 0 \<and> unat reg + 8 \<le> unat (mm_length m))
     in calls s' = calls s @ map (\<lambda>(reg, v). CStore (mm_start m + reg) (bytes_le 8 v)) (takeWhile fits ws) \<and>
        ub s' = ub s \<and>
        (if mm_start m \<noteq> 0 \<and> 0x70 \<le> unat (mm_length m) then r = Inr () else (\<exists>e. r = Inl e \<and> e \<noteq> 0)))) s"
proof -
  let ?ws = "[(0x50, ucast (pasid (cur_afu s))), (0x40, afp_wed_value buffer ao ld st), (0x48, offsetmask ao),
    (0x68, resetCnt), (0x60, enableAfu)]"
  have set: "wp (set_register K (Some h) verbose fmt reg v) (in_order m [(reg, v)] s1) s1"
    if "cur_afu s1 = cur_afu s" "0 \<le> sint reg" for verbose fmt reg v s1
    using that assms by (intro set_register_in_order) simp_all
  have finish: "wp (do { say Stdout fmt args; State_Monad.return (Inr ()) }) (in_order m [] s1) s1" for fmt args s1
    by (simp add: wp_bind wp_say wp_return in_order_def)
  have wed: "wp (afp_wed buffer ao ld st \<bind> f) Q s1" if "wp (f (afp_wed_value buffer ao ld st)) Q s1" for f :: "u64 \<Rightarrow> ('a, int + unit) prog" and Q s1
    using that by (simp add: wp_bind wp_afp_wed [OF assms(3,4)])
  have regs: "0 \<le> sint (0x50 :: u64)" "0 \<le> sint (0x40 :: u64)" "0 \<le> sint (0x48 :: u64)" "0 \<le> sint (0x68 :: u64)"
    "0 \<le> sint (0x60 :: u64)" by simp_all
  have "wp (start_afp K (Some h) buffer ao ld st) (in_order m ?ws s) s"
    unfolding start_afp_def ocxl_afu_get_pasid_def wp_bind [of "afu_get _"] wp_afu_get
      AFUPASID_AFP_REGISTER_def AFUWED_AFP_REGISTER_def AFUBufmask_AFP_REGISTER_def AFUControl_AFP_REGISTER_def AFUEnable_AFP_REGISTER_def
    by (rule in_order_andthen set wed finish regs refl | assumption | simp)+
  moreover have "list_all (register_fits m) ?ws \<longleftrightarrow> mm_start m \<noteq> 0 \<and> 0x70 \<le> unat (mm_length m)"
    by (auto simp: register_fits_def)
  moreover have "register_fits m = (\<lambda>(reg, v). mm_start m \<noteq> 0 \<and> unat reg + 8 \<le> unat (mm_length m))"
    "register_store m = (\<lambda>(reg, v). CStore (mm_start m + reg) (bytes_le 8 v))"
    by (auto simp: register_fits_def register_store_def)
  ultimately show ?thesis
    unfolding in_order_def Let_def afp_wed_value_def resetCnt_def enableAfu_def
    by (elim wp_mono) simp
qed

theorem afp_start_sequence_witness:
  "wp (start_afp demo (Some (50, 0)) 0x400000 afp_defaults 2 2) (\<lambda>r s'. r = Inr () \<and>
     map (\<lambda>c. case c of CStore a bs \<Rightarrow> a | _ \<Rightarrow> 0) (calls s') = [0x300050, 0x300040, 0x300048, 0x300068, 0x300060]) demo_mapped"
  by (rule wp_mono [OF afp_start_sequence [OF demo_mapped_deref]])
    (simp_all add: demo_region_def afp_defaults_def demo_mapped_def demo_state_def)

text \<open>C38: the work element descriptor of the bandwidth test is an encoding. For a buffer aligned to a
  page, tags from 0 to 7 and encoded sizes from 0 to 3, the address of the buffer and the four fields
  can be read back from it, and the bits of \<open>npu_ld\<close> and \<open>npu_st\<close> are clear.\<close>

theorem afp_wed_roundtrip:
  assumes "uint buffer mod 4096 = 0" "tags_ld ao \<in> {0..7}" "tags_st ao \<in> {0..7}" "ld \<in> {0..3}" "st \<in> {0..3}"
  shows "wp (afp_wed buffer ao ld st) (\<lambda>v s'. s' = s \<and> uint v div 4096 * 4096 = uint buffer \<and>
    uint v div 512 mod 8 = tags_ld ao \<and> uint v div 128 mod 4 = ld \<and> uint v div 64 mod 2 = 0 \<and>
    uint v div 8 mod 8 = tags_st ao \<and> uint v div 2 mod 4 = st \<and> uint v mod 2 = 0) s"
proof -
  let ?f = "512 * tags_ld ao + 128 * ld + 8 * tags_st ao + 2 * st"
  obtain q where q: "uint buffer = 4096 * q" using assms(1) by (metis mod_0_imp_dvd dvdE)
  have f: "0 \<le> ?f" "?f < 4096" using assms(2-5) by auto
  have n: "0 \<le> q" "q < 2 ^ 52" using q uint_lt2p [of buffer] uint_ge_0 [of buffer] by simp_all
  with q f have "uint buffer + ?f < 2 ^ 64" by simp
  moreover have "uint (of_int k :: u64) = k" if "0 \<le> k" "k < 4096" for k
    using that by (simp add: uint_word_of_int)
  ultimately have v: "uint (afp_wed_value buffer ao ld st) = 4096 * q + ?f"
    using f q n by (simp add: afp_wed_value_def uint_word_ariths(1) del: of_int_add of_int_mult)
  have v: "uint (afp_wed_value buffer ao ld st) = 4096 * q + ?f" "uint (afp_wed_value buffer ao ld st) = 512 * (8 * q + tags_ld ao) + (128 * ld + 8 * tags_st ao + 2 * st)"
    "uint (afp_wed_value buffer ao ld st) = 128 * (4 * (8 * q + tags_ld ao) + ld) + (8 * tags_st ao + 2 * st)"
    "uint (afp_wed_value buffer ao ld st) = 64 * (2 * (4 * (8 * q + tags_ld ao) + ld) + 0) + (8 * tags_st ao + 2 * st)"
    "uint (afp_wed_value buffer ao ld st) = 8 * (8 * (2 * (4 * (8 * q + tags_ld ao) + ld)) + tags_st ao) + 2 * st"
    "uint (afp_wed_value buffer ao ld st) = 2 * (4 * (8 * (2 * (4 * (8 * q + tags_ld ao) + ld)) + tags_st ao) + st) + 0"
    by (simp_all add: v)
  have "uint (afp_wed_value buffer ao ld st) div 4096 = q" unfolding v(1) using f by simp
  moreover have "uint (afp_wed_value buffer ao ld st) div 512 mod 8 = tags_ld ao"
    unfolding v(2) using assms by (intro word_field) auto
  moreover have "uint (afp_wed_value buffer ao ld st) div 128 mod 4 = ld"
    unfolding v(3) using assms by (intro word_field) auto
  moreover have "uint (afp_wed_value buffer ao ld st) div 64 mod 2 = 0"
    unfolding v(4) using assms by (intro word_field) auto
  moreover have "uint (afp_wed_value buffer ao ld st) div 8 mod 8 = tags_st ao"
    unfolding v(5) using assms by (intro word_field) auto
  moreover have "uint (afp_wed_value buffer ao ld st) div 2 mod 4 = st"
    unfolding v(6) using assms by (intro word_field) auto
  moreover have "uint (afp_wed_value buffer ao ld st) mod 2 = 0" by (simp only: v(6) add_0_right mod_mult_self1_is_0)
  ultimately show ?thesis unfolding wp_afp_wed [OF assms(2,3)] q by (simp only: mult.commute)
qed

theorem afp_wed_roundtrip_witness:
  "wp (afp_wed 0x400000 afp_defaults 2 2) (\<lambda>v s'. s' = demo_state \<and> uint v div 8 mod 8 = 7 \<and>
     uint v div 128 mod 4 = 2) demo_state"
  by (rule wp_mono [OF afp_wed_roundtrip]) (simp_all add: afp_defaults_def)

text \<open>C16: the bandwidth test keeps the books of the library. Once its accelerator is open, however the
  setup, the registers and the measurement go, it ends with status 0 and the AFU closed, everything
  given back but the block of the region array, or with another status and the AFU open and holding
  exactly what was acquired.\<close>

theorem afp_main_balances:
  assumes "irq_laws K" "run_state (afp_arguments name argv) s = (Inr (ao, ld, st), s0)"
    and "run_state (afp_open K ao) s0 = (Inr (), s1)"
  shows "wp (afp_main K H B name argv) (\<lambda>e s'.
    if e = 0 then afu_fd (cur_afu s') = - 1 \<and>
      (\<forall>x. x \<noteq> RFd (- 1) \<and> x \<noteq> RMap MAP_FAILED (page_size (cur_afu s1)) \<longrightarrow>
        balance (calls s') x = balance (calls s1) x - owned (cur_afu s1) x + block_owned (mmios (cur_afu s')) x)
    else 0 \<le> afu_fd (cur_afu s') \<and> (\<forall>x. x \<noteq> RMap MAP_FAILED (page_size (cur_afu s1)) \<longrightarrow>
        balance (calls s') x - owned (cur_afu s') x = balance (calls s1) x - owned (cur_afu s1) x)) s"
    (is "wp _ ?Q s")
proof -
  have "wp (afp_session K H B ao ld st) ?Q s1"
    by (rule wp_mono [OF afp_session_spec [OF assms(1) afp_open_fresh [OF assms(3)]]])
      (auto simp: exit_post_def closed_since_def books_def kept_def afu_inv_def debt_def split: if_splits)
  moreover have "run_state (afp_main K H B name argv) s = run_state (afp_session K H B ao ld st) s1"
    using assms(2,3) by (simp add: afp_main_def State_Monad.bind_def)
  ultimately show ?thesis by (simp add: wp_def)
qed

lemma demo_afp_opens:
  assumes "ao_device ao = None" "\<not> ao_verbose ao"
  shows "wp (afp_open demo_irq_platform ao) (\<lambda>r s'. r = Inr ()) demo_afp"
  by (simp add: assms afp_open_def demo_afp_opening wp_simps wp_call Let_def)

theorem afp_main_balances_witness:
  "\<exists>s1 :: demo_w st. wp (afp_main demo_irq_platform demo_host demo_bench ''ocxl_afp3'' []) (\<lambda>e s'. e = 0 \<longrightarrow>
     afu_fd (cur_afu s') = - 1 \<and>
     balance (calls s') (RFd 10) = balance (calls s1) (RFd 10) - owned (cur_afu s1) (RFd 10)) demo_afp"
proof -
  have laws: "irq_laws demo_irq_platform" by (simp add: demo_irq_platform_def demo_irq_laws)
  let ?ao = "afp_defaults\<lparr>offsetmask := push_bit 12 (offsetmask afp_defaults)\<rparr>"
  have p: "run_state (afp_arguments ''ocxl_afp3'' []) demo_afp = (Inr (?ao, 2, 2), demo_afp)"
    by (simp add: afp_arguments_def andthen_def checked_size_def size_code_def afp_defaults_def State_Monad.bind_def
        State_Monad.return_def)
  obtain s1 where s1: "run_state (afp_open demo_irq_platform ?ao) demo_afp = (Inr (), s1)"
    using demo_afp_opens [of ?ao] by (fastforce simp: wp_def afp_defaults_def split: prod.splits)
  show ?thesis
    by (rule exI [of _ s1], rule wp_mono [OF afp_main_balances [OF laws p s1]])
      (auto simp: block_owned_def split: if_splits)
qed

end
