(* ===== verification/Afp_Latency.thy ===== *)
theory Afp_Latency
  imports Afp_Bandwidth
begin

text \<open>
  \<open>src/afutests/afp/ocxl_afp3_latency.c\<close>: the latency test of the AFP accelerator, which
  writes a register and spins on memory until the accelerator has answered, many times. The static
  variables are the record \<open>lat_options\<close>; \<open>ocapi_afp3_lat\<close> is cut into its setup, the
  measurement and the end.

  A loop that waits for the accelerator takes fuel and gives \<open>None\<close> when it runs out. The
  program looks at \<open>flag_stop\<close>, which its signal handler sets, once in every round: the handler
  is run there for the signals that have arrived. The part of \<open>ping_OVER_8B\<close> behind its
  \<open>return\<close> is never reached.
\<close>

section \<open>Options\<close>

definition BUF_512MB :: nat where "BUF_512MB = 512 * 1024 * 1024"

record lat_options =
  lat_device :: "string option"
  lat_verbose :: bool
  size_ping :: int
  pong_size :: int  \<comment> \<open>\<open>size_st\<close>\<close>
  extra_read :: bool
  iterations :: u64

definition lat_defaults :: lat_options where
  "lat_defaults = \<lparr>lat_device = None, lat_verbose = False, size_ping = 8, pong_size = 64, extra_read = False,
     iterations = 10000\<rparr>"

definition lat_help :: "string \<Rightarrow> lat_options \<Rightarrow> ('w, unit) prog" where
  "lat_help name lo = do {
     say Stdout nl [];
     print_each [
       (''Usage: %s [ options ]'', [FStr name]),
       (tab1 @ ''-i 10000     --iterations'' @ tab1 @ ''Default=%ld'', [FInt (sint (iterations lo))]),
       (tab1 @ ''-p 64 to 512 --pong      '' @ tab1 @ ''Pong size from card to host (Bytes) Default=%d'', [FInt (pong_size lo)]),
       (tab1 @ ''-x           --extraread '' @ tab1 @ ''Add an DMA extraread before the DMA Wr Default is no'', []),
       (tab1 @ ''-f           --forever   '' @ tab1 @ ''Run until CTRL+C, Default=no'', []),
       (tab1 @ ''-d           --device    '' @ tab1 @ ''Device to open instead of first AFP AFU found'', []),
       (tab1 @ ''-v           --verbose   '' @ tab1 @ ''Verbose output'', []),
       (tab1 @ ''-h           --help      '' @ tab1 @ ''Print this message'', []),
       ([], [])]
   }"

definition lat_long_options :: "long_option list" where
  "lat_long_options = [long_arg ''iterations'' CHR ''i'', long_arg ''ping'' CHR ''m'', long_arg ''pong'' CHR ''p'',
     long_plain ''extraread'' CHR ''x'', long_plain ''forever'' CHR ''f'', long_flag ''verbose'',
     long_plain ''help'' CHR ''h'', long_arg ''device'' CHR ''d'']"

definition lat_short_options :: "(char \<times> bool) list" where
  "lat_short_options = [(CHR ''v'', False), (CHR ''x'', False), (CHR ''h'', False), (CHR ''i'', True),
     (CHR ''p'', True), (CHR ''m'', True), (CHR ''f'', False), (CHR ''d'', True)]"

text \<open>An option that sets its flag makes \<open>getopt_long\<close> return 0, for which the switch has no
  case: it goes to \<open>default\<close>, with the flag set.\<close>

definition lat_option :: "string \<Rightarrow> opt_result \<Rightarrow> lat_options \<Rightarrow> ('w, int + lat_options) prog" where
  "lat_option name r lo =
     (case r of
        OptFlag nm \<Rightarrow> do { lat_help name (lo\<lparr>lat_verbose := True\<rparr>); State_Monad.return (Inl (- 1)) }
      | Opt c arg \<Rightarrow>
          if c = CHR ''v'' then State_Monad.return (Inr (lo\<lparr>lat_verbose := True\<rparr>))
          else if c = CHR ''i'' then do { v \<leftarrow> strtoul_arg arg; State_Monad.return (Inr (lo\<lparr>iterations := v\<rparr>)) }
          else if c = CHR ''m'' then do { v \<leftarrow> strtoul_arg arg; State_Monad.return (Inr (lo\<lparr>size_ping := int_of_ulong v\<rparr>)) }
          else if c = CHR ''p'' then do { v \<leftarrow> strtoul_arg arg; State_Monad.return (Inr (lo\<lparr>pong_size := int_of_ulong v\<rparr>)) }
          else if c = CHR ''x'' then State_Monad.return (Inr (lo\<lparr>extra_read := True\<rparr>))
          else if c = CHR ''f'' then State_Monad.return (Inr (lo\<lparr>iterations := 0\<rparr>))
          else if c = CHR ''d'' then State_Monad.return (Inr (lo\<lparr>lat_device := arg\<rparr>))
          else do {
            lat_help name lo;
            State_Monad.return (Inl (if c = CHR ''h'' then 0 else - 1))
          })"

fun lat_switch :: "string \<Rightarrow> opt_result list \<Rightarrow> lat_options \<Rightarrow> ('w, int + lat_options) prog" where
  "lat_switch name [] lo = State_Monad.return (Inr lo)"
| "lat_switch name (r # rs) lo = andthen (lat_option name r lo) (lat_switch name rs)"

section \<open>Ping and pong\<close>

text \<open>\<open>printf_buf\<close>: lines of 32 bytes in groups of 8.\<close>

fun printf_bytes :: "'w platform \<Rightarrow> u64 \<Rightarrow> nat list \<Rightarrow> ('w, unit) prog" where
  "printf_bytes K p [] = say Stdout nl []"
| "printf_bytes K p (j # js) = do {
     whenM (j mod 8 = 0) (say Stdout '' '' []);
     b \<leftarrow> load8 K (p + of_nat j);
     say Stdout ''%02x'' [FInt (uint b)];
     printf_bytes K p js
   }"

fun printf_lines :: "'w platform \<Rightarrow> u64 \<Rightarrow> nat list \<Rightarrow> ('w, unit) prog" where
  "printf_lines K p [] = say Stdout nl []"
| "printf_lines K p (i # is) = do {
     say Stdout ''0x%016lx:'' [FInt (uint (p + of_nat (32 * i)))];
     printf_bytes K (p + of_nat (32 * i)) [0..<32];
     printf_lines K p is
   }"

definition printf_buf :: "'w platform \<Rightarrow> u64 \<Rightarrow> u64 \<Rightarrow> ('w, unit) prog" where
  "printf_buf K addr sz = printf_lines K addr [0..<unat (sz div 32)]"

definition read_timebase :: "'w bench \<Rightarrow> ('w, u64) prog" where
  "read_timebase B = sys (b_timebase B)"

definition load64 :: "'w platform \<Rightarrow> u64 \<Rightarrow> ('w, u64) prog" where
  "load64 K a = do { bs \<leftarrow> do_load K a 8; State_Monad.return (native_word K bs) }"

definition store64 :: "'w platform \<Rightarrow> u64 \<Rightarrow> u64 \<Rightarrow> ('w, unit) prog" where
  "store64 K a v = do_store K a (native_bytes K 8 v)"

text \<open>The handler prints and sets the flag; here for the signals that have arrived.\<close>

fun stop_handler :: "int list \<Rightarrow> bool \<Rightarrow> ('w, bool) prog" where
  "stop_handler [] flag_stop = State_Monad.return flag_stop"
| "stop_handler (sig # sigs) flag_stop = do {
     say Stdout (''Signal %d received, stopping'' @ nl) [FInt sig];
     stop_handler sigs True
   }"

definition look_for_stop :: "'w bench \<Rightarrow> bool \<Rightarrow> ('w, bool) prog" where
  "look_for_stop B flag_stop = do { sigs \<leftarrow> sys (b_signals B); stop_handler sigs flag_stop }"

text \<open>\<open>while (*flag == 0);\<close> True when it ends.\<close>

fun spin :: "'w platform \<Rightarrow> nat \<Rightarrow> u64 \<Rightarrow> ('w, bool) prog" where
  "spin K 0 flag = State_Monad.return False"
| "spin K (Suc fuel) flag = do {
     v \<leftarrow> load64 K flag;
     if v = 0 then spin K fuel flag else State_Monad.return True
   }"

fun ping_loop ::
  "'w platform \<Rightarrow> 'w bench \<Rightarrow> nat \<Rightarrow> u64 \<Rightarrow> u64 \<Rightarrow> u64 \<Rightarrow> u64 \<Rightarrow> u64 \<Rightarrow> bool \<Rightarrow> ('w, u64 option) prog" where
  "ping_loop K B 0 enable_reg flag enable_in loop_count j flag_stop = State_Monad.return None"
| "ping_loop K B (Suc fuel) enable_reg flag enable_in loop_count j flag_stop =
     (if \<not> j < loop_count then State_Monad.return (Some j)
      else do {
        flag_stop \<leftarrow> look_for_stop B flag_stop;
        if flag_stop then State_Monad.return (Some j)
        else do {
          store64 K flag 0;
          store64 K enable_reg enable_in;
          answered \<leftarrow> spin K (Suc fuel) flag;
          if answered then ping_loop K B fuel enable_reg flag enable_in loop_count (j + 1) flag_stop
          else State_Monad.return None
        }
      })"

text \<open>The time taken and the rounds made.\<close>

definition ping_8B ::
  "'w platform \<Rightarrow> 'w bench \<Rightarrow> nat \<Rightarrow> u64 \<Rightarrow> u64 \<Rightarrow> u64 \<Rightarrow> u64 \<Rightarrow> ('w, (u64 \<times> u64) option) prog" where
  "ping_8B K B fuel global_mmio_start flag enable_in count = do {
     whenM (count = 0) (say Stdout (''Running test forever, interrupt with ctrl-c'' @ nl) []);
     t0 \<leftarrow> read_timebase B;
     r \<leftarrow> ping_loop K B fuel (global_mmio_start + AFUEnable_AFP_REGISTER) flag enable_in
            (if count \<noteq> 0 then count else - 1) 0 False;
     (case r of
        None \<Rightarrow> State_Monad.return None
      | Some j \<Rightarrow> do { t1 \<leftarrow> read_timebase B; State_Monad.return (Some (t1 - t0, j)) })
   }"

definition ping_OVER_8B :: "('w, u64 \<times> u64) prog" where
  "ping_OVER_8B = do {
     say Stderr (''Use of ping data bigger than 8B requires special support in the ocxl driver for mmio write-combine. Disabled by default as it generates HMI on default setup'' @ nl) [];
     State_Monad.return (0, 1)
   }"

section \<open>The test\<close>

definition lat_checked_size :: "string \<Rightarrow> int \<Rightarrow> ('w, int + int) prog" where
  "lat_checked_size what n =
     (case size_code True n of
        Some c \<Rightarrow> State_Monad.return (Inr c)
      | None \<Rightarrow> do {
          say Stdout (nl @ ''Illegal value entered for --'' @ what @ '' argument = %d!!!!'' @ nl) [FInt n];
          State_Monad.return (Inl (- 1))
        })"

definition lat_tags_ld :: int where "lat_tags_ld = 0"

definition lat_tags_st :: int where "lat_tags_st = 7"

definition lat_wed :: "u64 \<Rightarrow> int \<Rightarrow> int \<Rightarrow> u64" where
  "lat_wed buffer ld st = buffer + of_int (push_bit 9 lat_tags_ld) + of_int (push_bit 7 ld) + 0 +
     of_int (push_bit 3 lat_tags_st) + of_int (push_bit 1 st) + 0"

abbreviation BIT :: "nat \<Rightarrow> u64" where "BIT n \<equiv> push_bit n 1"

definition use_large_data :: "lat_options \<Rightarrow> bool" where "use_large_data lo = (size_ping lo \<noteq> 8)"

definition enable_bits :: "lat_options \<Rightarrow> u64" where
  "enable_bits lo =
     (let e = BIT 63 OR BIT 62;
          e = (if pong_size lo = 512 then e OR BIT 61 else e);
          e = (if use_large_data lo then e OR BIT 60 else e);
          e = (if extra_read lo then e OR BIT 59 else e)
      in if pong_size lo = 512 then e OR BIT 58 else e)"

definition lat_register ::
  "'w platform \<Rightarrow> ocxl_mmio_h \<Rightarrow> string \<Rightarrow> u64 \<Rightarrow> u64 \<Rightarrow> ('w, int + unit) prog" where
  "lat_register K h nm reg v = write_register K h (''ocxl_mmio_write64('' @ nm @ ''): %d'' @ nl) reg v"

fun store_words :: "'w platform \<Rightarrow> u64 \<Rightarrow> (nat \<Rightarrow> u64) \<Rightarrow> nat list \<Rightarrow> ('w, unit) prog" where
  "store_words K p f [] = skip"
| "store_words K p f (i # is) = do { store64 K (p + of_nat (8 * i)) (f i); store_words K p f is }"

text \<open>The mapped registers and where they start (lines 258 to 280).\<close>

definition lat_registers :: "'w platform \<Rightarrow> lat_options \<Rightarrow> ('w, int + ocxl_mmio_h \<times> u64) prog" where
  "lat_registers K lo =
     andthen (attach_and_map K (lat_verbose lo) (''ocxl_mmio_map: %d'' @ nl)) (\<lambda>h. do {
       (err, info) \<leftarrow> ocxl_mmio_get_info (the h);
       if err \<noteq> OCXL_OK then give_up (''ocxl_mmio_get_info: %d'' @ nl) err
       else do {
         say Stdout (''MMIO INFO: address 0x%016lx - size 0x%lx'' @ nl)
           [FInt (uint (fst (the info))), FInt (uint (snd (the info)))];
         State_Monad.return (Inr (h, fst (the info)))
       }
     })"

definition lat_buffer :: "'w platform \<Rightarrow> 'w bench \<Rightarrow> lat_options \<Rightarrow> ('w, int + u64) prog" where
  "lat_buffer K B lo = do {
     (rc, buffer) \<leftarrow> sys (b_posix_memalign B BUF_512MB BUF_512MB);
     if rc \<noteq> 0 then do {
       perror K ''memalign main buffer'';
       State_Monad.return (Inl (- 1))
     } else do {
       announce (lat_verbose lo) ''Allocated Buffer memory @ 0x%016llx'' buffer;
       State_Monad.return (Inr buffer)
     }
   }"

text \<open>The extra read (lines 352 to 377).\<close>

definition lat_extra_read :: "'w platform \<Rightarrow> ocxl_mmio_h \<Rightarrow> u64 \<Rightarrow> lat_options \<Rightarrow> ('w, int + unit) prog" where
  "lat_extra_read K h buffer lo =
     (if extra_read lo then do {
        let ea = buffer + 1024;
        announce (lat_verbose lo) ''EXTRA_READ_EA = %016lx'' ea;
        andthen (lat_register K h ''AFUExtraReadEA_AFP_REGISTER'' AFUExtraReadEA_AFP_REGISTER ea) (\<lambda>_. do {
          say Stdout (''Initializing extra_read memory .....'' @ nl) [];
          store_words K (buffer + 1024) (\<lambda>j. 0xdafa0201dafa0100 + of_nat j) [0..<64];
          whenM (lat_verbose lo) (do {
            say Stdout (''Done initializing extra read memory'' @ nl) [];
            printf_buf K ea 512
          });
          State_Monad.return (Inr ())
        })
      } else State_Monad.return (Inr ()))"

definition lat_misc :: "'w platform \<Rightarrow> ocxl_mmio_h \<Rightarrow> lat_options \<Rightarrow> ('w, int + unit) prog" where
  "lat_misc K h lo =
     (if use_large_data lo then do {
        announce (lat_verbose lo) ''MISC_REG = %016lx'' (push_bit 12 1);
        lat_register K h ''AFUMisc_AFP_REGISTER'' AFUMisc_AFP_REGISTER (push_bit 12 1)
      } else State_Monad.return (Inr ()))"

text \<open>The registers before the test (lines 294 to 377).\<close>

definition lat_setup ::
  "'w platform \<Rightarrow> ocxl_mmio_h \<Rightarrow> u64 \<Rightarrow> lat_options \<Rightarrow> int \<Rightarrow> int \<Rightarrow> ('w, int + unit) prog" where
  "lat_setup K h buffer lo ld st =
     andthen (lat_register K h ''AFUEnable_AFP_REGISTER'' AFUEnable_AFP_REGISTER disableAfu) (\<lambda>_. do {
     announce (lat_verbose lo) ''WED = %016lx'' (lat_wed buffer ld st);
     andthen (lat_register K h ''AFUWED_AFP_REGISTER'' AFUWED_AFP_REGISTER (lat_wed buffer ld st)) (\<lambda>_. do {
     announce (lat_verbose lo) ''BUFMASK = %016lx'' (push_bit 12 0x7F);
     andthen (lat_register K h ''AFUBufmask_AFP_REGISTER'' AFUBufmask_AFP_REGISTER (push_bit 12 0x7F)) (\<lambda>_.
     andthen (lat_misc K h lo) (\<lambda>_. do {
     announce (lat_verbose lo) ''CONTROL_REG (reset) = %016lx'' resetCnt;
     andthen (lat_register K h ''AFUControl_AFP_REGISTER'' AFUControl_AFP_REGISTER resetCnt) (\<lambda>_.
     lat_extra_read K h buffer lo)
     }))
     })
     })"

text \<open>The test and its report (lines 379 to 439): \<open>None\<close> when the accelerator does not answer.\<close>

definition lat_before :: "'w platform \<Rightarrow> u64 \<Rightarrow> lat_options \<Rightarrow> ('w, unit) prog" where
  "lat_before K buffer lo = do {
     whenM (lat_verbose lo) (do {
       say Stdout ''ENABLE_REG = %016lx'' [FInt (uint (enable_bits lo))];
       (if use_large_data lo then say Stdout (tab1 @ ''> use large data regs value'' @ nl) []
        else say Stdout nl [])
     });
     store_words K buffer (\<lambda>_. 0) [0..<nat (pong_size lo div 8)];
     whenM (lat_verbose lo) (do {
       say Stdout (''Buffer before test'' @ nl) [];
       printf_buf K buffer 512
     });
     whenM (lat_verbose lo) (say Stdout (''Calling ping_pong test'' @ nl) []);
     say Stdout (''MMIO WR %dB (host to card) -> %sDMA WR %dB (card to host)'' @ nl)
       [FInt (size_ping lo), FStr (if extra_read lo then ''DMA RD + '' else []), FInt (pong_size lo)]
   }"

definition flag_location :: "lat_options \<Rightarrow> nat" where
  "flag_location lo = nat ((pong_size lo - 64) div 8)"

definition lat_ping ::
  "'w platform \<Rightarrow> 'w bench \<Rightarrow> nat \<Rightarrow> u64 \<Rightarrow> u64 \<Rightarrow> lat_options \<Rightarrow> ('w, (u64 \<times> u64) option) prog" where
  "lat_ping K B fuel start buffer lo =
     (if size_ping lo = 8
      then ping_8B K B fuel start (buffer + of_nat (8 * flag_location lo)) (enable_bits lo) (iterations lo)
      else do { r \<leftarrow> ping_OVER_8B; State_Monad.return (Some r) })"

definition lat_report ::
  "'w platform \<Rightarrow> 'w bench \<Rightarrow> u64 \<Rightarrow> lat_options \<Rightarrow> u64 \<times> u64 \<Rightarrow> ('w, unit) prog" where
  "lat_report K B buffer lo r = (case r of (total_latency, count) \<Rightarrow> do {
     whenM (lat_verbose lo) (do {
       sys (\<lambda>w. ((), b_usleep B 100000 w));
       say Stdout (nl @ ''Buffer after test'' @ nl) [];
       printf_buf K buffer 512
     });
     let scaled = DMul (DInt (uint total_latency)) (DInt 1000);
     say Stdout (''Completed %lu iterations. Total time measured using timebase: %10.2f ns'' @ nl)
       [FInt (uint count), show_double B 2 (DDiv scaled (DInt 512))];
     say Stdout (''Average roundtrip per iteration: %10.2f ns'' @ nl)
       [show_double B 2 (DDiv (DDiv scaled (DInt (uint count))) (DInt 512))]
   })"

text \<open>The end (lines 441 to 457).\<close>

definition lat_finish :: "'w platform \<Rightarrow> ocxl_mmio_h \<Rightarrow> lat_options \<Rightarrow> ('w, int) prog" where
  "lat_finish K h lo = do {
     r \<leftarrow> lat_register K h ''AFUEnable_AFP_REGISTER'' AFUEnable_AFP_REGISTER disableAfu;
     (case r of
        Inl e \<Rightarrow> State_Monad.return e
      | Inr _ \<Rightarrow> do {
          whenM (lat_verbose lo) (say Stdout (''Unmap afu'' @ nl) []);
          ocxl_mmio_unmap K (the h);
          whenM (lat_verbose lo) (say Stdout (''Free afu'' @ nl) []);
          ocxl_afu_close K;
          State_Monad.return 0
        })
   }"

definition lat_ready ::
  "'w platform \<Rightarrow> 'w bench \<Rightarrow> lat_options \<Rightarrow> int \<Rightarrow> int \<Rightarrow> ('w, int + ocxl_mmio_h \<times> u64 \<times> u64) prog" where
  "lat_ready K B lo ld st =
     andthen (lat_registers K lo) (\<lambda>(h, start).
     andthen (lat_buffer K B lo) (\<lambda>buffer.
     andthen (lat_setup K h buffer lo ld st) (\<lambda>_. do {
       lat_before K buffer lo;
       State_Monad.return (Inr (h, start, buffer))
     })))"

definition lat_session ::
  "'w platform \<Rightarrow> 'w bench \<Rightarrow> nat \<Rightarrow> lat_options \<Rightarrow> int \<Rightarrow> int \<Rightarrow> ('w, int option) prog" where
  "lat_session K B fuel lo ld st = do {
     p \<leftarrow> lat_ready K B lo ld st;
     (case p of
        Inl e \<Rightarrow> State_Monad.return (Some e)
      | Inr (h, start, buffer) \<Rightarrow> do {
          r \<leftarrow> lat_ping K B fuel start buffer lo;
          (case r of
             None \<Rightarrow> State_Monad.return None
           | Some x \<Rightarrow> do {
               lat_report K B buffer lo x;
               code \<leftarrow> lat_finish K h lo;
               State_Monad.return (Some code)
             })
        })
   }"

definition lat_open :: "'w platform \<Rightarrow> lat_options \<Rightarrow> ('w, int + unit) prog" where
  "lat_open K lo = do {
     whenM (lat_verbose lo) (say Stdout (''Calling ocxl_afu_open'' @ nl) []);
     (err, _) \<leftarrow> open_afp K (lat_device lo);
     if err \<noteq> OCXL_OK then do {
       say Stderr (''ocxl_afu_open() failed for %s, error %d'' @ nl)
         [FStr (case lat_device lo of Some d \<Rightarrow> d | None \<Rightarrow> AFP_NAME), FInt (err_code err)];
       State_Monad.return (Inl (err_code err))
     } else State_Monad.return (Inr ())
   }"

text \<open>The sizes and the parameters (lines 205 to 243); \<open>size_ld\<close> is \<open>size_st\<close>.\<close>

definition lat_parameters :: "lat_options \<Rightarrow> ('w, int + int \<times> int) prog" where
  "lat_parameters lo =
     andthen (lat_checked_size ''size_st'' (pong_size lo)) (\<lambda>st.
     andthen (lat_checked_size ''size_ld'' (pong_size lo)) (\<lambda>ld. do {
       whenM (lat_tags_ld \<noteq> 0 \<or> lat_tags_st = 0)
         (say Stdout (''WARNING: For MMIO ping-pong latency mode, it is recommended to enable stores (tags_st > 0), and disable loads (tags_ld = 0)'' @ nl) []);
       say Stdout (''Parameters used: tags_ld=%d - size_ld=%d - tags_st=%d - size_st=%d'' @ nl)
         [FInt lat_tags_ld, FInt (pong_size lo), FInt lat_tags_st, FInt (pong_size lo)];
       State_Monad.return (Inr (ld, st))
     }))"

definition ocapi_afp3_lat :: "'w platform \<Rightarrow> 'w bench \<Rightarrow> nat \<Rightarrow> lat_options \<Rightarrow> ('w, int option) prog" where
  "ocapi_afp3_lat K B fuel lo = do {
     p \<leftarrow> lat_parameters lo;
     (case p of
        Inl e \<Rightarrow> State_Monad.return (Some e)
      | Inr (ld, st) \<Rightarrow> do {
          d \<leftarrow> lat_open K lo;
          (case d of
             Inl e \<Rightarrow> State_Monad.return (Some e)
           | Inr _ \<Rightarrow> lat_session K B fuel lo ld st)
        })
   }"

definition catch_signal :: "'w bench \<Rightarrow> int \<Rightarrow> string \<Rightarrow> ('w, unit) prog" where
  "catch_signal B sig nm = do {
     good \<leftarrow> sys (b_signal B sig);
     whenM (\<not> good) (say Stdout (nl @ ''can't catch '' @ nm @ nl) [])
   }"

definition lat_main ::
  "'w platform \<Rightarrow> 'w bench \<Rightarrow> nat \<Rightarrow> string \<Rightarrow> string list \<Rightarrow> ('w, int option) prog" where
  "lat_main K B fuel name argv = do {
     a \<leftarrow> lat_switch name (getopt_long lat_long_options lat_short_options argv []) lat_defaults;
     (case a of
        Inl e \<Rightarrow> State_Monad.return (Some e)
      | Inr lo \<Rightarrow> do {
          catch_signal B 2 ''SIGINT'';
          catch_signal B 15 ''SIGTERM'';
          ocapi_afp3_lat K B fuel lo
        })
   }"

section \<open>The books of the AFU\<close>

lemma quiet_words [quiet_intros]:
  "quiet (load64 K a)" "quiet (store64 K a v)" "quiet (read_timebase B)"
  unfolding load64_def store64_def read_timebase_def by (intro quiet_intros)+

lemma quiet_printf_bytes [quiet_intros]: "quiet (printf_bytes K p js)"
  by (induction js) (auto intro!: quiet_intros)

lemma quiet_printf_lines: "quiet (printf_lines K p is)"
  by (induction "is") (auto intro!: quiet_intros)

lemma quiet_printf_buf [quiet_intros]: "quiet (printf_buf K p n)"
  by (simp add: printf_buf_def quiet_printf_lines)

lemma quiet_store_words [quiet_intros]: "quiet (store_words K p f is)"
  by (induction "is") (auto intro!: quiet_intros)

lemma quiet_stop_handler [quiet_intros]: "quiet (stop_handler sigs b)"
  by (induction sigs arbitrary: b) (auto intro!: quiet_intros)

lemma quiet_look [quiet_intros]: "quiet (look_for_stop B b)"
  unfolding look_for_stop_def by (intro quiet_intros)

lemma quiet_spin [quiet_intros]: "quiet (spin K fuel flag)"
  by (induction fuel) (auto intro!: quiet_intros)

lemma quiet_ping_loop [quiet_intros]: "quiet (ping_loop K B fuel reg flag v n j b)"
  by (induction fuel arbitrary: j b) (auto intro!: quiet_intros)

lemma quiet_ping [quiet_intros]: "quiet (lat_ping K B fuel start buffer lo)"
  unfolding lat_ping_def ping_8B_def ping_OVER_8B_def by (intro quiet_intros)

lemma quiet_lat_register [quiet_intros]: "quiet (lat_register K h nm reg v)"
  unfolding lat_register_def by (intro quiet_intros)

lemma quiet_lat_setup [quiet_intros]:
  "quiet (lat_buffer K B lo)" "quiet (lat_setup K h buffer lo ld st)"
  "quiet (lat_before K buffer lo)" "quiet (lat_report K B buffer lo x)"
  unfolding lat_buffer_def lat_setup_def lat_misc_def lat_extra_read_def lat_before_def lat_report_def Let_def
  by (intro quiet_intros)+

lemma nz_lat [exit_intros]:
  "nonzero_exit (lat_register K h nm reg v)" "nonzero_exit (lat_buffer K B lo)"
  unfolding lat_register_def lat_buffer_def by (intro exit_intros nz_Inl; simp)+

lemma nz_lat_setup [exit_intros]: "nonzero_exit (lat_setup K h buffer lo ld st)"
  unfolding lat_setup_def lat_misc_def lat_extra_read_def by (intro exit_intros)

lemma wp_region_known:
  "mmio_deref (cur_afu s) r = Some m \<Longrightarrow> wp (region_at r) Q s = Q m s"
  by (simp add: region_at_def wp_simps)

lemma get_info_spec:
  assumes "mapped_books s h s1"
  shows "wp (ocxl_mmio_get_info (the h)) (\<lambda>r s'. mapped_books s h s' \<and>
    (\<exists>m. mmio_deref (cur_afu s') (the h) = Some m \<and> r = (OCXL_OK, Some (mm_start m, mm_length m)))) s1"
  using assms by (auto simp: mapped_books_def good_handle_def ocxl_mmio_get_info_def wp_bind wp_region_known wp_return)

lemma lat_registers_spec:
  assumes "irq_laws K" "afu_inv (cur_afu s)" "within 0 0 (cur_afu s)"
  shows "wp (lat_registers K lo) (\<lambda>r s'. case r of Inl e \<Rightarrow> e \<noteq> 0 \<and> books s 1 0 s' | Inr x \<Rightarrow> mapped_books s (fst x) s') s"
    (is "wp _ ?Q s")
proof -
  have info: "wp (do {
       (err, info) \<leftarrow> ocxl_mmio_get_info (the h);
       if err \<noteq> OCXL_OK then give_up (''ocxl_mmio_get_info: %d'' @ nl) err
       else do {
         say Stdout (''MMIO INFO: address 0x%016lx - size 0x%lx'' @ nl)
           [FInt (uint (fst (the info))), FInt (uint (snd (the info)))];
         State_Monad.return (Inr (h, fst (the info)))
       } }) ?Q s1" if "mapped_books s h s1" for h s1
    unfolding wp_bind
    by (rule wp_mono [OF get_info_spec [OF that]])
      (auto simp: wp_simps wp_call mapped_books_def good_handle_def books_def kept_def within_def debt_def)
  show ?thesis
    unfolding lat_registers_def wp_andthen
    by (rule wp_sum [OF attach_and_map_spec [OF assms]]) (simp, simp only: sum.case, rule info)
qed

lemma unmap_books:
  assumes "mapped_books s h s1"
  shows "wp (ocxl_mmio_unmap K (the h)) (\<lambda>_. books s 1 0) s1"
proof -
  let ?a = "cur_afu s1"
  obtain r m where h: "h = Some r" "mmio_deref ?a r = Some m" "snd r < unat (mmio_count ?a)"
    using assms by (auto simp: mapped_books_def good_handle_def)
  have inv: "afu_inv ?a" "kept s s1" "within 1 0 ?a" using assms by (auto simp: mapped_books_def books_def kept_def)
  then have ok: "mmio_ok ?a" by (simp add: afu_inv_def)
  have "wp (ocxl_mmio_unmap K r) (\<lambda>_ s'. unmap_post r m s1 s' \<and> kept s1 s') s1"
    using unmap_kept [OF inv(1) _ h(3)] unmap_spec [OF ok h(2,3)] h(2) by (simp add: wp_conj)
  then show ?thesis
    unfolding h(1) option.sel
  proof (rule wp_mono)
    fix x s' assume u: "unmap_post r m s1 s' \<and> kept s1 s'"
    then have "irq_count (cur_afu s') = irq_count ?a" "mmio_count (cur_afu s') = mmio_count ?a"
      using no_mmios_cong [of "cur_afu s'" ?a irq_count] by (simp_all add: unmap_post_def Let_def no_mmios_def)
    with u inv show "books s 1 0 s'" by (auto simp: books_def within_def intro: kept_trans)
  qed
qed

lemma lat_finish_spec:
  assumes "mapped_books s h s1"
  shows "wp (lat_finish K h lo) (exit_post s) s1"
proof -
  have stop: "exit_post s e s2" if "e \<noteq> 0" "books s 1 0 s2" for e s2
    using that by (simp add: exit_post_def)
  have close: "wp (ocxl_afu_close K) (\<lambda>_. exit_post s 0) s2" if "books s 1 0 s2" for s2
    by (rule wp_mono [OF close_since [OF that]]) (simp add: exit_post_def)
  have free: "wp (whenM (lat_verbose lo) (say Stdout (''Free afu'' @ nl) [])) (\<lambda>_. wp (ocxl_afu_close K) (\<lambda>_. exit_post s 0)) s2"
    if "books s 1 0 s2" for s2
    by (rule uses_books [OF uses_whenM [OF uses_quiet [OF quiet_client(1)]] that])
      (use close in \<open>auto simp: table_limit_def\<close>)
  have unmap: "wp (ocxl_mmio_unmap K (the h)) (\<lambda>_. wp (whenM (lat_verbose lo) (say Stdout (''Free afu'' @ nl) []))
      (\<lambda>_. wp (ocxl_afu_close K) (\<lambda>_. exit_post s 0))) s2" if "mapped_books s h s2" for s2
    by (rule wp_mono [OF unmap_books [OF that] free])
  have "wp (whenM (lat_verbose lo) (say Stdout (''Unmap afu'' @ nl) [])) (\<lambda>_. wp (ocxl_mmio_unmap K (the h))
      (\<lambda>_. wp (whenM (lat_verbose lo) (say Stdout (''Free afu'' @ nl) []))
      (\<lambda>_. wp (ocxl_afu_close K) (\<lambda>_. exit_post s 0)))) s2" if "mapped_books s h s2" for s2
    by (rule quiet_mapped [OF quiet_whenM [OF quiet_client(1)] that unmap])
  then show ?thesis
    unfolding lat_finish_def wp_bind [of "lat_register _ _ _ _ _"]
    by (intro quiet_exit [OF quiet_lat_register nz_lat(1) assms])
      (simp_all add: wp_bind wp_return stop [OF _ mapped_booksD])
qed

text \<open>How the test ends, when the accelerator answers.\<close>

lemma lat_session_spec:
  assumes "irq_laws K" "afu_inv (cur_afu s)" "within 0 0 (cur_afu s)"
  shows "wp (lat_session K B fuel lo ld st) (\<lambda>r s'. \<forall>e. r = Some e \<longrightarrow> exit_post s e s') s"
    (is "wp _ ?Q s")
proof -
  let ?rest = "\<lambda>p. case p of Inl e \<Rightarrow> State_Monad.return (Some e) | Inr (h, start, buffer) \<Rightarrow> do {
      r \<leftarrow> lat_ping K B fuel start buffer lo;
      (case r of None \<Rightarrow> State_Monad.return None | Some x \<Rightarrow> do {
         lat_report K B buffer lo x; code \<leftarrow> lat_finish K h lo; State_Monad.return (Some code) }) }"
  let ?prepare = "\<lambda>x. andthen (lat_buffer K B lo) (\<lambda>buffer. andthen (lat_setup K (fst x) buffer lo ld st) (\<lambda>_. do {
      lat_before K buffer lo; State_Monad.return (Inr (fst x, snd x, buffer)) }))"
  have finish: "wp (do { lat_report K B buffer lo x; code \<leftarrow> lat_finish K h lo; State_Monad.return (Some code) }) ?Q s1"
    if "mapped_books s h s1" for buffer x h s1
    unfolding wp_bind [of "lat_report _ _ _ _ _"] wp_bind [of "lat_finish _ _ _"]
    by (rule quiet_mapped [OF quiet_lat_setup(4) that]) (rule wp_mono [OF lat_finish_spec], auto simp: wp_return)
  have ping: "wp (?rest (Inr (h, start, buffer))) ?Q s1" if "mapped_books s h s1" for h start buffer s1
    using finish
    by (auto simp: wp_bind [of "lat_ping _ _ _ _ _ _"] wp_return intro!: quiet_mapped [OF quiet_ping that] split: option.split)
  have prepared: "wp (?prepare x) (\<lambda>p. wp (?rest p) ?Q) s1" if "mapped_books s (fst x) s1" for x s1
    unfolding wp_andthen wp_bind [of "lat_before _ _ _"]
    by (rule quiet_exit [OF quiet_lat_setup(1) nz_lat(2) that];
        (simp only: sum.case)?; (rule quiet_exit [OF quiet_lat_setup(2) nz_lat_setup], assumption)?;
        (simp only: sum.case)?; (rule quiet_mapped [OF quiet_lat_setup(3)], assumption)?)
      (use ping in \<open>auto simp: wp_return exit_post_def mapped_books_def\<close>)
  show ?thesis
    unfolding lat_session_def lat_ready_def wp_bind [of "andthen _ _"] wp_andthen [of "lat_registers _ _"] case_prod_beta
    by (rule wp_sum [OF lat_registers_spec [OF assms]])
      (simp_all only: sum.case, simp add: wp_return exit_post_def, erule prepared [unfolded case_prod_beta])
qed

lemma lat_open_fresh:
  assumes "run_state (lat_open K lo) s = (Inr (), s1)"
  shows "afu_inv (cur_afu s1)" "within 0 0 (cur_afu s1)"
proof -
  have "wp (lat_open K lo) (\<lambda>r s'. r = Inr () \<longrightarrow> afu_inv (cur_afu s') \<and> within 0 0 (cur_afu s')) s"
    by (auto simp: lat_open_def wp_bind wp_say wp_return wp_whenM case_prod_beta intro!: wp_mono [OF open_afp_fresh])
  from wpD [OF this assms] show "afu_inv (cur_afu s1)" "within 0 0 (cur_afu s1)" by simp_all
qed

section \<open>Rounds\<close>

text \<open>One round of the test, with \<open>n\<close> reads of the flag.\<close>

definition ping_round :: "'w platform \<Rightarrow> u64 \<Rightarrow> u64 \<Rightarrow> u64 \<Rightarrow> nat \<Rightarrow> call list" where
  "ping_round K enable_reg flag enable_in n =
     [CStore flag (native_bytes K 8 (0 :: u64)), CStore enable_reg (native_bytes K 8 enable_in)] @ replicate n (CLoad flag 8)"

lemma stop_handler_calls:
  "wp (stop_handler sigs b) (\<lambda>b' s'. b' = (b \<or> sigs \<noteq> []) \<and> calls s' = calls s) s"
proof (induction sigs arbitrary: b s)
  case (Cons sig sigs)
  show ?case by (simp add: wp_bind wp_say) (rule wp_mono [OF Cons.IH], simp)
qed (simp add: wp_return)

lemma look_for_stop_calls:
  "wp (look_for_stop B b) (\<lambda>b' s'. b' = (b \<or> fst (b_signals B (wld s)) \<noteq> []) \<and> calls s' = calls s) s"
  by (auto simp: look_for_stop_def wp_simps split: prod.split intro!: wp_mono [OF stop_handler_calls])

lemma look_for_stop_none:
  assumes "\<And>w. fst (b_signals B w) = []" "\<And>s1. calls s1 = calls s \<Longrightarrow> Q False s1"
  shows "wp (look_for_stop B False) Q s"
  by (rule wp_mono [OF look_for_stop_calls]) (use assms in simp)

lemma wp_load64 [wp_call]:
  "wp (load64 K a) Q s = (case os_load K a 8 (wld s) of (bs, w) \<Rightarrow>
     Q (native_word K bs) (s\<lparr>wld := w, calls := calls s @ [CLoad a 8]\<rparr>))"
  by (simp add: load64_def wp_simps wp_call split: prod.split)

lemma wp_store64 [wp_call]:
  "wp (store64 K a v) Q s = Q () (s\<lparr>wld := os_store K a (native_bytes K 8 v) (wld s),
     calls := calls s @ [CStore a (native_bytes K 8 v)]\<rparr>)"
  by (simp add: store64_def wp_simps wp_call)

lemma spin_calls:
  "wp (spin K fuel flag) (\<lambda>r s'. \<exists>n. (r \<longrightarrow> 0 < n) \<and> calls s' = calls s @ replicate n (CLoad flag 8)) s"
proof (induction fuel arbitrary: s)
  case (Suc fuel)
  have again: "\<exists>n. (r \<longrightarrow> 0 < n) \<and> calls s' = calls s @ replicate n (CLoad flag 8)"
    if "\<exists>n. (r \<longrightarrow> 0 < n) \<and> calls s' = (calls s @ [CLoad flag 8]) @ replicate n (CLoad flag 8)" for r s'
  proof -
    from that obtain n where "calls s' = calls s @ replicate (Suc n) (CLoad flag 8)" by auto
    then show ?thesis by blast
  qed
  have rest: "wp (spin K fuel flag) (\<lambda>r s'. \<exists>n. (r \<longrightarrow> 0 < n) \<and> calls s' = calls s @ replicate n (CLoad flag 8))
      (s\<lparr>wld := w, calls := calls s @ [CLoad flag 8]\<rparr>)" for w
    by (rule wp_mono [OF Suc.IH again]) simp
  show ?case
    by (auto simp: wp_bind wp_load64 wp_return rest intro!: exI [of _ 1] split: prod.split)
qed (auto simp: wp_return)

text \<open>The calls of the rounds from \<open>j\<close> on.\<close>

definition rounds_made :: "'w platform \<Rightarrow> u64 \<Rightarrow> u64 \<Rightarrow> u64 \<Rightarrow> u64 \<Rightarrow> u64 \<Rightarrow> 'w st \<Rightarrow> u64 \<Rightarrow> 'w st \<Rightarrow> bool" where
  "rounds_made K reg flag v limit j s j' s' \<longleftrightarrow> j' \<le> limit \<and>
     (\<exists>ns. (\<forall>n \<in> set ns. 0 < n) \<and> unat j + length ns = unat j' \<and>
        calls s' = calls s @ concat (map (ping_round K reg flag v) ns))"

lemma rounds_none: "j \<le> limit \<Longrightarrow> calls s' = calls s \<Longrightarrow> rounds_made K reg flag v limit j s j s'"
  by (auto simp: rounds_made_def)

lemma unat_next: "j < limit \<Longrightarrow> unat (j + 1 :: u64) = Suc (unat j)"
  using unsigned_less [of limit, where ?'a = nat] by (simp add: unat_word_ariths word_less_nat_alt)

lemma rounds_Cons:
  assumes "rounds_made K reg flag v limit (j + 1) s1 j' s'" "j < limit" "0 < n"
    and "calls s1 = calls s @ ping_round K reg flag v n"
  shows "rounds_made K reg flag v limit j s j' s'"
proof -
  from assms(1) obtain ns where ns: "j' \<le> limit" "\<forall>k \<in> set ns. 0 < k" "unat (j + 1) + length ns = unat j'"
    "calls s' = calls s1 @ concat (map (ping_round K reg flag v) ns)" by (auto simp: rounds_made_def)
  with assms(3,4) unat_next [OF assms(2)] show ?thesis
    unfolding rounds_made_def by (intro conjI exI [of _ "n # ns"]) auto
qed

lemma ping_loop_rounds:
  assumes "j \<le> limit"
  shows "wp (ping_loop K B fuel reg flag v limit j b) (\<lambda>r s'. \<forall>j'. r = Some j' \<longrightarrow> rounds_made K reg flag v limit j s j' s') s"
    (is "wp _ ?Q s")
  using assms
proof (induction fuel arbitrary: j b s)
  case (Suc fuel)
  let ?Q = "\<lambda>r s'. \<forall>j'. r = Some j' \<longrightarrow> rounds_made K reg flag v limit j s j' s'"
  show ?case
  proof (cases "j < limit")
    case True
    have tail: "wp (ping_loop K B fuel reg flag v limit (j + 1) b) ?Q s2"
      if "calls s2 = calls s @ ping_round K reg flag v n" "0 < n" for n b s2
      by (rule wp_mono [OF Suc.IH [OF inc_le [OF True]]]) (use that True rounds_Cons in blast)
    have spin: "wp (spin K (Suc fuel) flag) (\<lambda>answered. wp (if answered then ping_loop K B fuel reg flag v limit (j + 1) b
        else State_Monad.return None) ?Q) s1"
      if "calls s1 = calls s @ ping_round K reg flag v 0" for b s1
      by (rule wp_mono [OF spin_calls], use that in \<open>auto simp: wp_return ping_round_def intro!: tail\<close>)
    show ?thesis
      unfolding ping_loop.simps if_not_P [OF not_not [THEN iffD2, OF True]] wp_bind [of "look_for_stop _ _"]
    proof (rule wp_mono [OF look_for_stop_calls])
      fix b' and s1 :: "'a st" assume "b' = (b \<or> fst (b_signals B (wld s)) \<noteq> []) \<and> calls s1 = calls s"
      then have c: "calls s1 = calls s" by simp
      show "wp (if b' then State_Monad.return (Some j) else do {
          store64 K flag 0; store64 K reg v; answered \<leftarrow> spin K (Suc fuel) flag;
          if answered then ping_loop K B fuel reg flag v limit (j + 1) b' else State_Monad.return None }) ?Q s1"
        using Suc.prems by (cases b') (auto simp: c wp_bind wp_return wp_store64 ping_round_def rounds_none intro!: spin simp del: spin.simps)
    qed
  qed (use Suc.prems in \<open>auto simp: wp_return rounds_none\<close>)
qed (simp add: wp_return)


lemma wp_read_timebase [wp_call]:
  "wp (read_timebase B) Q s = (case b_timebase B (wld s) of (t, w) \<Rightarrow> Q t (s\<lparr>wld := w\<rparr>))"
  by (simp add: read_timebase_def wp_simps)

text \<open>The flag is seen to change within \<open>n\<close> reads.\<close>

fun answers_within :: "'w platform \<Rightarrow> u64 \<Rightarrow> nat \<Rightarrow> 'w \<Rightarrow> bool" where
  "answers_within K flag 0 w \<longleftrightarrow> False"
| "answers_within K flag (Suc n) w \<longleftrightarrow> (case os_load K flag 8 w of (bs, w') \<Rightarrow>
     native_word K bs \<noteq> (0 :: u64) \<or> answers_within K flag n w')"

lemma spin_ends:
  assumes "answers_within K flag n (wld s)" "n \<le> fuel"
  shows "wp (spin K fuel flag) (\<lambda>r _. r) s"
  using assms
proof (induction n arbitrary: fuel s)
  case (Suc n)
  then obtain fuel' where "fuel = Suc fuel'" "n \<le> fuel'" by (metis Suc_le_D Suc_le_mono)
  with Suc show ?case
    by (auto simp: wp_bind wp_load64 wp_return split: prod.splits)
qed simp

lemma ping_loop_ends:
  assumes "\<And>w. answers_within K flag n (os_store K reg (native_bytes K 8 v) w)" "\<And>w. fst (b_signals B w) = []"
    and "j \<le> limit" "unat limit - unat j + n \<le> fuel"
  shows "wp (ping_loop K B fuel reg flag v limit j False) (\<lambda>r _. r = Some limit) s"
  using assms(3,4)
proof (induction fuel arbitrary: j s)
  case 0
  then show ?case using assms(1) [of undefined] by (cases n) auto
next
  case (Suc fuel)
  show ?case
  proof (cases "j < limit")
    case True
    then have u: "unat (j + 1) = Suc (unat j)" "unat j < unat limit"
      by (simp_all add: unat_next word_less_nat_alt)
    have tail: "wp (ping_loop K B fuel reg flag v limit (j + 1) False) (\<lambda>r _. r = Some limit) s2" for s2
      using Suc.prems u by (intro Suc.IH inc_le [OF True]) simp
    have spin: "wp (spin K (Suc fuel) flag) (\<lambda>answered. wp (if answered then ping_loop K B fuel reg flag v limit (j + 1) False
        else State_Monad.return None) (\<lambda>r _. r = Some limit)) s1"
      if "wld s1 = os_store K reg (native_bytes K 8 v) w" for s1 w
      by (rule wp_mono [OF spin_ends [of K flag n]]) (use that assms(1) Suc.prems u tail in auto)
    show ?thesis
      unfolding ping_loop.simps if_not_P [OF not_not [THEN iffD2, OF True]] wp_bind [of "look_for_stop _ _"]
      by (rule look_for_stop_none [OF assms(2)]) (simp add: wp_bind wp_store64 spin del: spin.simps)
  qed (use Suc.prems in \<open>auto simp: wp_return\<close>)
qed

lemma ping_8B_wp:
  assumes "\<And>s1. calls s1 = calls s \<Longrightarrow>
    wp (ping_loop K B fuel (start + AFUEnable_AFP_REGISTER) flag v (if count \<noteq> 0 then count else - 1) 0 False)
      (\<lambda>r s'. case r of None \<Rightarrow> Q None s' | Some j \<Rightarrow> \<forall>t w. Q (Some (t, j)) (s'\<lparr>wld := w\<rparr>)) s1"
  shows "wp (ping_8B K B fuel start flag v count) Q s"
proof -
  define limit where "limit = (if count \<noteq> 0 then count else - 1)"
  have loop: "wp (ping_loop K B fuel (start + AFUEnable_AFP_REGISTER) flag v limit 0 False)
      (\<lambda>r. wp (case r of None \<Rightarrow> State_Monad.return None
        | Some j \<Rightarrow> do { t1 \<leftarrow> read_timebase B; State_Monad.return (Some (t1 - t0, j)) }) Q) s1"
    if "calls s1 = calls s" for t0 s1
    by (rule wp_mono [OF assms [OF that, folded limit_def]])
      (auto simp: wp_bind wp_return wp_read_timebase split: option.splits prod.splits)
  show ?thesis
    unfolding ping_8B_def limit_def [symmetric] by (simp add: wp_bind wp_whenM wp_say wp_read_timebase loop split: prod.split)
qed

section \<open>Properties\<close>

text \<open>C12: the latency test makes one round after the other. When \<open>ping_8B\<close> returns with
  \<open>j\<close> rounds, its calls are exactly those of \<open>j\<close> rounds: the flag is cleared, the register
  is written, and the flag is read, at least once, before the next round starts. No round beyond the number asked for is made.\<close>

theorem ping_rounds:
  "wp (ping_8B K B fuel start flag v count) (\<lambda>r s'. case r of None \<Rightarrow> True | Some (t, j) \<Rightarrow>
     j \<le> (if count \<noteq> 0 then count else - 1) \<and>
     (\<exists>ns. length ns = unat j \<and> 0 \<notin> set ns \<and> calls s' = calls s @ concat (map (\<lambda>n.
        [CStore flag (native_bytes K 8 (0 :: u64)), CStore (start + 0x60) (native_bytes K 8 v)] @
        replicate n (CLoad flag 8)) ns))) s"
proof -
  let ?limit = "if count \<noteq> 0 then count else - 1"
  have made: "j \<le> ?limit \<and> (\<exists>ns. length ns = unat j \<and> 0 \<notin> set ns \<and> calls s' = calls s @ concat (map (\<lambda>n.
        [CStore flag (native_bytes K 8 (0 :: u64)), CStore (start + 0x60) (native_bytes K 8 v)] @
        replicate n (CLoad flag 8)) ns))"
    if "rounds_made K (start + AFUEnable_AFP_REGISTER) flag v ?limit 0 s1 j s'" "calls s1 = calls s" for j s1 s'
    using that by (auto simp: rounds_made_def ping_round_def [abs_def] AFUEnable_AFP_REGISTER_def)
  show ?thesis
    by (rule ping_8B_wp, rule wp_mono [OF ping_loop_rounds])
      (use made in \<open>auto split: option.split\<close>)
qed

text \<open>C15: the latency test ends. When the accelerator answers every write of the register within
  \<open>n\<close> reads of the flag and no signal arrives, a test of \<open>count\<close> rounds makes them all and
  returns.\<close>

theorem ping_completes:
  assumes "\<And>w. answers_within K flag n (os_store K (start + 0x60) (native_bytes K 8 v) w)"
    and "\<And>w. fst (b_signals B w) = []" "count \<noteq> 0" "unat count + n \<le> fuel"
  shows "wp (ping_8B K B fuel start flag v count) (\<lambda>r _. \<exists>t. r = Some (t, count)) s"
proof -
  have e: "start + AFUEnable_AFP_REGISTER = start + 0x60" by (simp add: AFUEnable_AFP_REGISTER_def)
  show ?thesis
    by (rule ping_8B_wp, rule wp_mono [OF ping_loop_ends [OF assms(1) [folded e] assms(2)]])
      (use assms(3,4) in auto)
qed

text \<open>An accelerator that answers at the second read.\<close>

definition demo_accelerator :: "demo_w platform" where
  "demo_accelerator = demo\<lparr>os_store := \<lambda>a bs w. w\<lparr>dw_block := 0\<rparr>,
     os_load := \<lambda>a n w. (replicate n (of_nat (dw_block w)), w\<lparr>dw_block := Suc (dw_block w)\<rparr>)\<rparr>"

theorem ping_completes_witness:
  "wp (ping_8B demo_accelerator demo_bench 7 0x300000 0x200000 0xC000000000000000 5)
     (\<lambda>r _. \<exists>t. r = Some (t, 5)) demo_state"
proof (rule ping_completes [where n = "Suc (Suc 0)"])
  have v: "native_word demo_accelerator (replicate 8 1) \<noteq> (0 :: u64)" by code_simp
  fix w :: demo_w
  show "answers_within demo_accelerator 0x200000 (Suc (Suc 0)) (os_store demo_accelerator (0x300000 + 0x60)
      (native_bytes demo_accelerator 8 (0xC000000000000000 :: u64)) w)"
    using v by (simp add: demo_accelerator_def )
qed (simp_all add: demo_bench_def)

text \<open>The long option \<open>--verbose\<close> ends the latency test: the option sets its flag and
  \<open>getopt_long\<close> returns 0, which the switch takes for an unknown option.\<close>

lemma lat_verbose_refused:
  "wp (lat_main K B fuel name (''--verbose'' # argv)) (\<lambda>r s'. r = Some (- 1) \<and> calls s' = calls s \<and> wld s' = wld s) s"
proof -
  have step: "long_option_step lat_long_options ''verbose'' argv = (OptFlag ''verbose'', argv)"
    by (simp add: long_option_step_def find_long_def lat_long_options_def long_arg_def long_plain_def long_flag_def long_result_def)
  show ?thesis
    by (simp add: lat_main_def wp_bind step wp_andthen lat_option_def lat_help_def wp_say wp_simps)
qed

text \<open>C17: the latency test keeps the books of the library: once its accelerator is open, a run that
  ends does so with status 0 and the AFU closed, everything given back but the block of the region
  array, or with another status and the AFU open and holding exactly what was acquired.\<close>

theorem ocapi_afp3_lat_balances:
  assumes "irq_laws K" "run_state (lat_parameters lo) s = (Inr (ld, st), s0)"
    and "run_state (lat_open K lo) s0 = (Inr (), s1)"
  shows "wp (ocapi_afp3_lat K B fuel lo) (\<lambda>r s'. case r of None \<Rightarrow> True | Some e \<Rightarrow>
    if e = 0 then afu_fd (cur_afu s') = - 1 \<and>
      (\<forall>x. x \<noteq> RFd (- 1) \<and> x \<noteq> RMap MAP_FAILED (page_size (cur_afu s1)) \<longrightarrow>
        balance (calls s') x = balance (calls s1) x - owned (cur_afu s1) x + block_owned (mmios (cur_afu s')) x)
    else 0 \<le> afu_fd (cur_afu s') \<and> (\<forall>x. x \<noteq> RMap MAP_FAILED (page_size (cur_afu s1)) \<longrightarrow>
        balance (calls s') x - owned (cur_afu s') x = balance (calls s1) x - owned (cur_afu s1) x)) s"
    (is "wp _ ?Q s")
proof -
  have "wp (lat_session K B fuel lo ld st) ?Q s1"
    by (rule wp_mono [OF lat_session_spec [OF assms(1) lat_open_fresh [OF assms(3)]]])
      (auto simp: exit_post_def closed_since_def books_def kept_def afu_inv_def debt_def split: option.split)
  moreover have "run_state (ocapi_afp3_lat K B fuel lo) s = run_state (lat_session K B fuel lo ld st) s1"
    using assms(2,3) by (simp add: ocapi_afp3_lat_def State_Monad.bind_def)
  ultimately show ?thesis by (simp add: wp_def)
qed

lemma demo_lat_opens:
  assumes "lat_device lo = None" "\<not> lat_verbose lo" "wld s = wld demo_afp" "glb s = glb demo_afp"
    "cur_afu s = cur_afu demo_afp"
  shows "wp (lat_open demo_irq_platform lo) (\<lambda>r s'. r = Inr ()) s"
  by (simp add: assms lat_open_def demo_afp_opening wp_simps wp_call Let_def)

theorem ocapi_afp3_lat_balances_witness:
  "\<exists>s1 :: demo_w st. wp (ocapi_afp3_lat demo_irq_platform demo_bench 20 lat_defaults) (\<lambda>r s'. r = Some 0 \<longrightarrow>
     afu_fd (cur_afu s') = - 1 \<and>
     balance (calls s') (RFd 10) = balance (calls s1) (RFd 10) - owned (cur_afu s1) (RFd 10)) demo_afp"
proof -
  have laws: "irq_laws demo_irq_platform" by (simp add: demo_irq_platform_def demo_irq_laws)
  have "wp (lat_parameters lat_defaults) (\<lambda>r s'. r = Inr (1, 1) \<and> wld s' = wld demo_afp \<and>
      glb s' = glb demo_afp \<and> cur_afu s' = cur_afu demo_afp) demo_afp"
    by (simp add: lat_parameters_def wp_andthen lat_checked_size_def size_code_def lat_defaults_def wp_simps wp_say
        lat_tags_ld_def lat_tags_st_def)
  then obtain s0 where p: "run_state (lat_parameters lat_defaults) demo_afp = (Inr (1, 1), s0)"
    and s0: "wld s0 = wld demo_afp" "glb s0 = glb demo_afp" "cur_afu s0 = cur_afu demo_afp"
    by (fastforce simp: wp_def split: prod.splits)
  obtain s1 where s1: "run_state (lat_open demo_irq_platform lat_defaults) s0 = (Inr (), s1)"
    using demo_lat_opens [OF _ _ s0, of lat_defaults] by (fastforce simp: wp_def lat_defaults_def split: prod.splits)
  show ?thesis
    by (rule exI [of _ s1], rule wp_mono [OF ocapi_afp3_lat_balances [OF laws p s1]]) (auto simp: block_owned_def)
qed

end
