(* ===== verification/Virt_Device.thy ===== *)
theory Virt_Device
  imports Ocxl_Client
begin

text \<open>
  \<open>src/unittests/virtocxl.c\<close>: the virtual device the unit tests run the library on. It is a
  character device in user space: FUSE hands every request on the device file to one of four handlers,
  which answer it by a call of \<open>fuse_reply_...\<close>. A handler is a function from the state of the device
  to its replies, in order, and the new state. The layout of the kernel's event structs
  (\<open>misc/ocxl.h\<close>) and FUSE are not part of the repository: the layout is the record
  \<open>event_layout\<close>, with the law \<open>layout_fits\<close> that the fields can be read back, and what a
  reply means for the caller of \<open>read\<close> is the law \<open>device_file\<close>.
\<close>

section \<open>The handlers\<close>

record virt_device =
  fault_addr :: u64  \<comment> \<open>\<open>translation_fault\<close>\<close>
  fault_dsisr :: u64
  fault_count :: u64
  vd_attached :: bool  \<comment> \<open>\<open>afu_attached\<close>\<close>
  vd_version_major :: u8
  vd_version_minor :: u8
  vd_global_mmio_size :: u64
  vd_pp_mmio_size :: u64
  vd_session :: u64  \<comment> \<open>\<open>afu_session\<close>, 0 for NULL\<close>

definition initial_device :: virt_device where
  "initial_device = \<lparr>fault_addr = 0, fault_dsisr = 0, fault_count = 0, vd_attached = False,
     vd_version_major = 5, vd_version_minor = 10, vd_global_mmio_size = 0, vd_pp_mmio_size = 0,
     vd_session = 0\<rparr>"

text \<open>\<open>ReplyBuf buf n\<close> is \<open>fuse_reply_buf(req, buf, n)\<close>, which sends \<open>n\<close> bytes from
  \<open>buf\<close>. The field \<open>version\<close> of the metadata, which the library does not read, is left out.\<close>

datatype fuse_reply = ReplyOpen | ReplyErr int | ReplyBuf "u8 list" nat | ReplyIoctl int "metadata option" | ReplyPoll int

record event_layout =
  e_header :: "u16 \<Rightarrow> u16 \<Rightarrow> u8 list"  \<comment> \<open>type and flags\<close>
  e_fault :: "u64 \<Rightarrow> u64 \<Rightarrow> u64 \<Rightarrow> u8 list"  \<comment> \<open>address, dsisr and count\<close>

datatype virt_ioctl_cmd = IOCTL_ATTACH | IOCTL_GET_METADATA | IOCTL_other

definition EINVAL :: int where "EINVAL = 22"

definition POLLIN :: int where "POLLIN = 1"

definition POLLERR :: int where "POLLERR = 8"

definition POLLRDNORM :: int where "POLLRDNORM = 64"

definition KERNEL_EVENT_SIZE :: "'w platform \<Rightarrow> nat" where
  "KERNEL_EVENT_SIZE K = sizeof_event_header K + sizeof_xsl_fault_error K"

definition virt_open :: "virt_device \<Rightarrow> fuse_reply list \<times> virt_device" where
  "virt_open d = ([ReplyOpen], d\<lparr>vd_attached := False\<rparr>)"

definition virt_read :: "'w platform \<Rightarrow> event_layout \<Rightarrow> nat \<Rightarrow> int \<Rightarrow> virt_device \<Rightarrow> fuse_reply list \<times> virt_device" where
  "virt_read K L req_size off d =
     (if off \<noteq> 0 then ([ReplyErr EINVAL], d)
      else if fault_addr d = 0 then ([ReplyErr EAGAIN], d)
      else if req_size < KERNEL_EVENT_SIZE K then ([ReplyBuf [] 0], d)
      else ([ReplyBuf (e_header L (AFU_EVENT_XSL_FAULT_ERROR K) (EVENT_FLAG_LAST K) @
               e_fault L (fault_addr d) (fault_dsisr d) (fault_count d)) req_size],
            d\<lparr>fault_addr := 0\<rparr>))"

definition virt_ioctl :: "virt_ioctl_cmd \<Rightarrow> virt_device \<Rightarrow> fuse_reply list \<times> virt_device" where
  "virt_ioctl cmd d =
     (case cmd of
        IOCTL_ATTACH \<Rightarrow> ([ReplyIoctl 0 None], d\<lparr>vd_attached := True\<rparr>)
      | IOCTL_GET_METADATA \<Rightarrow>
          ([ReplyIoctl 0 (Some \<lparr>md_version_major = vd_version_major d, md_version_minor = vd_version_minor d,
              md_pp_mmio_size = vd_pp_mmio_size d, md_global_mmio_size = vd_global_mmio_size d, md_pasid = 1234\<rparr>)], d)
      | IOCTL_other \<Rightarrow> ([ReplyErr EINVAL], d))"

definition virt_poll :: "virt_device \<Rightarrow> fuse_reply list \<times> virt_device" where
  "virt_poll d =
     ((if fault_addr d \<noteq> 0 then [ReplyPoll (POLLIN + POLLRDNORM)]
       else if \<not> vd_attached d then [ReplyPoll POLLERR] else []) @ [ReplyPoll 0], d)"

definition afu_is_attached :: "virt_device \<Rightarrow> bool" where
  "afu_is_attached d = vd_attached d"

text \<open>Only the function of the PPC64 build takes a \<open>dsisr\<close>.\<close>

definition force_translation_fault :: "'w platform \<Rightarrow> u64 \<Rightarrow> u64 \<Rightarrow> u64 \<Rightarrow> virt_device \<Rightarrow> virt_device" where
  "force_translation_fault K addr dsisr count d =
     (if arch_ppc64 K then d\<lparr>fault_addr := addr, fault_dsisr := dsisr, fault_count := count\<rparr>
      else d\<lparr>fault_addr := addr, fault_count := count\<rparr>)"

section \<open>Making the device\<close>

record cuse_info =
  cuse_major :: u32
  cuse_minor :: u32
  dev_info_argv :: "string list"
  cuse_flags :: u32

record 'w virt_host =
  v_stat :: "string \<Rightarrow> 'w \<Rightarrow> int \<times> 'w"
  v_mkdir :: "string \<Rightarrow> int \<Rightarrow> 'w \<Rightarrow> int \<times> 'w"
  v_creat :: "string \<Rightarrow> int \<Rightarrow> 'w \<Rightarrow> int \<times> 'w"
  v_write :: "int \<Rightarrow> u8 list \<Rightarrow> 'w \<Rightarrow> int \<times> 'w"
  v_pthread_create :: "'w \<Rightarrow> (int \<times> u64) \<times> 'w"  \<comment> \<open>the thread runs \<open>start_afu_thread\<close>\<close>
  v_cuse_lowlevel_setup :: "string list \<Rightarrow> cuse_info \<Rightarrow> 'w \<Rightarrow> u64 \<times> 'w"
  v_fuse_session_loop :: "u64 \<Rightarrow> 'w \<Rightarrow> int \<times> 'w"
  v_fuse_session_exit :: "u64 \<Rightarrow> 'w \<Rightarrow> unit \<times> 'w"
  v_fuse_session_destroy :: "u64 \<Rightarrow> 'w \<Rightarrow> unit \<times> 'w"

definition DEVICE_NAME_MAX :: nat where "DEVICE_NAME_MAX = 64"

definition BUF_SIZE :: nat where "BUF_SIZE = 1024"

text \<open>\<open>snprintf\<close> into a buffer of \<open>n\<close> characters.\<close>

definition fit :: "nat \<Rightarrow> string \<Rightarrow> string" where "fit n txt = take (n - 1) txt"

text \<open>The thread of the device: the session FUSE gives it, and the loop that serves the requests, whose
  result is not looked at. The
  session is known to the other thread from the first call on; the state returned is the one behind the loop.\<close>

definition start_afu_thread :: "'w virt_host \<Rightarrow> string \<Rightarrow> virt_device \<Rightarrow> ('w, virt_device) prog" where
  "start_afu_thread V dname d = do {
     let dev_name = ''DEVNAME='' @ take PATH_MAX dname;
     afu_session \<leftarrow> sys (v_cuse_lowlevel_setup V [''testobj/unittests'', ''-f'']
       \<lparr>cuse_major = 0, cuse_minor = 0, dev_info_argv = [dev_name], cuse_flags = 0\<rparr>);
     rc \<leftarrow> sys (v_fuse_session_loop V afu_session);
     State_Monad.return (d\<lparr>vd_session := afu_session\<rparr>)
   }"

definition stop_afu :: "'w virt_host \<Rightarrow> virt_device \<Rightarrow> ('w, unit) prog" where
  "stop_afu V d = sys (v_fuse_session_exit V (vd_session d))"

definition term_afu :: "'w virt_host \<Rightarrow> virt_device \<Rightarrow> ('w, virt_device) prog" where
  "term_afu V d =
     (if vd_session d \<noteq> 0 then do {
        sys (v_fuse_session_destroy V (vd_session d));
        State_Monad.return (d\<lparr>vd_session := 0\<rparr>)
      } else State_Monad.return d)"

definition complain :: "'w platform \<Rightarrow> string \<Rightarrow> string \<Rightarrow> ('w, unit) prog" where
  "complain K what path = do {
     e \<leftarrow> errno K;
     say Stderr (''Could not '' @ what @ '' '' @ [CHR 0x27] @ ''%s'' @ [CHR 0x27] @ '': %d: %s'' @ nl)
       [FStr path, FInt e, FStr (os_strerror K e)]
   }"

text \<open>The file of the global registers, a buffer of zeros at a time: \<open>None\<close> when the fuel runs out,
  True when every write succeeded.\<close>

fun write_zeros :: "'w virt_host \<Rightarrow> nat \<Rightarrow> int \<Rightarrow> u64 \<Rightarrow> u64 \<Rightarrow> ('w, bool option) prog" where
  "write_zeros V 0 fd offset global_mmio_size = State_Monad.return None"
| "write_zeros V (Suc fuel) fd offset global_mmio_size =
     (if \<not> offset < global_mmio_size then State_Monad.return (Some True)
      else do {
        written \<leftarrow> sys (v_write V fd (replicate BUF_SIZE 0));
        if written < 0 then State_Monad.return (Some False)
        else write_zeros V fuel fd (offset + of_nat BUF_SIZE) global_mmio_size
      })"

text \<open>The thread, or 0; the device and the name of its file.\<close>

definition create_ocxl_device ::
  "'w platform \<Rightarrow> 'w virt_host \<Rightarrow> nat \<Rightarrow> string \<Rightarrow> u64 \<Rightarrow> u64 \<Rightarrow> virt_device \<Rightarrow>
   ('w, (u64 \<times> string \<times> virt_device) option) prog" where
  "create_ocxl_device K V fuel nm global_mmio_size per_pasid_mmio_size d = do {
     g \<leftarrow> gets glb;
     let d = d\<lparr>vd_global_mmio_size := global_mmio_size, vd_pp_mmio_size := per_pasid_mmio_size\<rparr>;
     let device_name = fit DEVICE_NAME_MAX (''ocxl-test/'' @ nm @ ''.0001:00:00.1.0'');
     let sysfs_base = fit (PATH_MAX - 20) (SYS_PATH g @ ''/'' @ nm @ ''.0001:00:00.1.0'');
     missing \<leftarrow> sys (v_stat V sysfs_base);
     whenM (missing \<noteq> 0) (do {
       rc \<leftarrow> sys (v_mkdir V sysfs_base 0x1FD);
       whenM (rc \<noteq> 0) (complain K ''mkdir'' sysfs_base)
     });
     let tmp = fit PATH_MAX (sysfs_base @ ''/global_mmio_area'');
     fd \<leftarrow> sys (v_creat V tmp 0x1A4);
     if fd < 0 then do {
       complain K ''create global_mmio_area file'' tmp;
       State_Monad.return (Some (0, device_name, d))
     } else do {
       good \<leftarrow> write_zeros V fuel fd 0 global_mmio_size;
       (case good of
          None \<Rightarrow> State_Monad.return None
        | Some False \<Rightarrow> do {
            complain K ''write global_mmio_area file'' tmp;
            State_Monad.return (Some (0, device_name, d))
          }
        | Some True \<Rightarrow> do {
            do_close K fd;
            (rc, afu_thread) \<leftarrow> sys (v_pthread_create V);
            if rc \<noteq> 0 then do {
              say Stderr (''Could not create AFU thread'' @ nl) [];
              State_Monad.return (Some (0, device_name, d))
            } else State_Monad.return (Some (afu_thread, device_name, d))
          })
     }
   }"

text \<open>The loop ends when the sum of the size and a buffer does not wrap, however the writes go.\<close>

lemma write_zeros_ends:
  assumes "unat global_mmio_size + BUF_SIZE \<le> 2 ^ 64" "unat global_mmio_size \<le> unat offset + fuel * BUF_SIZE"
  shows "wp (write_zeros V (Suc fuel) fd offset global_mmio_size) (\<lambda>r _. r \<noteq> None) s"
  using assms(2)
proof (induction fuel arbitrary: offset s)
  case 0
  then show ?case by (auto simp: wp_simps word_less_nat_alt)
next
  case (Suc fuel)
  have "unat (offset + of_nat BUF_SIZE) = unat offset + BUF_SIZE" if "offset < global_mmio_size"
    using that assms(1) by (simp add: BUF_SIZE_def word_less_nat_alt unat_word_ariths)
  with Suc show ?case
    by (subst write_zeros.simps(2)) (auto simp: wp_simps simp del: write_zeros.simps)
qed

section \<open>The library on the device\<close>

definition layout_fits :: "'w platform \<Rightarrow> event_layout \<Rightarrow> bool" where
  "layout_fits K L \<longleftrightarrow> EVENT_FLAG_LAST K \<noteq> 0 \<and>
     (\<forall>t f. length (e_header L t f) = sizeof_event_header K) \<and>
     (\<forall>a d c. length (e_fault L a d c) = sizeof_xsl_fault_error K) \<and>
     (\<forall>t f bs. header_type K (e_header L t f @ bs) = t \<and> header_flags K (e_header L t f @ bs) = f) \<and>
     (\<forall>a d c. xsl_addr K (e_fault L a d c) = a \<and> xsl_dsisr K (e_fault L a d c) = d \<and> xsl_count K (e_fault L a d c) = c)"

text \<open>Reading the device file: FUSE gives the request to \<open>virt_read\<close>, with offset 0 for a character
  device, and its reply to the caller, an error as \<open>errno\<close>.\<close>

definition device_file :: "'w platform \<Rightarrow> event_layout \<Rightarrow> int \<Rightarrow> ('w \<Rightarrow> virt_device) \<Rightarrow> bool" where
  "device_file K L fd dev \<longleftrightarrow> (\<forall>n w. case virt_read K L n 0 (dev w) of (replies, d) \<Rightarrow>
     case os_read K fd n w of ((r, bs), w') \<Rightarrow> dev w' = d \<and>
       (case hd replies of
          ReplyErr e \<Rightarrow> r < 0 \<and> os_errno K w' = e
        | ReplyBuf buf m \<Rightarrow> m \<le> length buf \<longrightarrow> r = int m \<and> bs = take m buf
        | _ \<Rightarrow> True))"

lemma read_fault:
  assumes "layout_fits K L" "device_file K L (afu_fd (cur_afu s)) dev" "dev (wld s) = d" "fault_addr d \<noteq> 0"
  shows "wp (read_afu_event K 0) (\<lambda>r s'. r = (OCXL_EVENT_ACTION_SUCCESS, Some (OCXL_EVENT_TRANSLATION_FAULT
      \<lparr>tf_addr = fault_addr d, tf_dsisr = (if arch_ppc64 K then fault_dsisr d else 0), tf_count = fault_count d\<rparr>), True) \<and>
    dev (wld s') = d\<lparr>fault_addr := 0\<rparr> \<and> cur_afu s' = cur_afu s \<and> calls s' = calls s) s"
proof -
  let ?h = "e_header L (AFU_EVENT_XSL_FAULT_ERROR K) (EVENT_FLAG_LAST K)"
  let ?f = "e_fault L (fault_addr d) (fault_dsisr d) (fault_count d)"
  have len: "length ?h = sizeof_event_header K" "length ?f = sizeof_xsl_fault_error K"
    using assms(1) by (simp_all add: layout_fits_def)
  obtain r bs w where o: "os_read K (afu_fd (cur_afu s)) (KERNEL_EVENT_SIZE K) (wld s) = ((r, bs), w)"
    by (metis surj_pair)
  have "r = int (KERNEL_EVENT_SIZE K) \<and> bs = ?h @ ?f \<and> dev w = d\<lparr>fault_addr := 0\<rparr>"
    using assms(2-4) o len unfolding device_file_def
    by (auto dest!: spec [of _ "KERNEL_EVENT_SIZE K"] spec [of _ "wld s"] simp: virt_read_def KERNEL_EVENT_SIZE_def)
  with assms(1) o len show ?thesis
    by (auto simp: read_afu_event_def Let_def wp_simps wp_call layout_fits_def KERNEL_EVENT_SIZE_def populate_xsl_fault_error_def)
qed

lemma read_none:
  assumes "device_file K L (afu_fd (cur_afu s)) dev" "fault_addr (dev (wld s)) = 0"
  shows "wp (read_afu_event K 0) (\<lambda>r s'. r = (OCXL_EVENT_ACTION_NONE, None, True) \<and>
    dev (wld s') = dev (wld s) \<and> cur_afu s' = cur_afu s \<and> calls s' = calls s) s"
proof -
  obtain r bs w where o: "os_read K (afu_fd (cur_afu s)) (KERNEL_EVENT_SIZE K) (wld s) = ((r, bs), w)"
    by (metis surj_pair)
  have "r < 0 \<and> os_errno K w = EAGAIN \<and> dev w = dev (wld s)"
    using assms o unfolding device_file_def
    by (auto dest!: spec [of _ "KERNEL_EVENT_SIZE K"] spec [of _ "wld s"] simp: virt_read_def)
  with o show ?thesis
    by (auto simp: read_afu_event_def Let_def wp_simps wp_call KERNEL_EVENT_SIZE_def)
qed

section \<open>Properties\<close>

text \<open>A fault forced on the virtual device arrives. Over a platform that gives the reads of the
  device file to the handler of the virtual device, the library's next event is exactly the fault that
  was forced, marked as the last one, and the event after it is none.\<close>

lemma forced_fault_arrives:
  assumes "layout_fits K L" "device_file K L (afu_fd (cur_afu s)) dev"
    and "dev (wld s) = force_translation_fault K addr dsisr count d" "addr \<noteq> 0"
  shows "wp (do { x \<leftarrow> read_afu_event K 0; y \<leftarrow> read_afu_event K 0; State_Monad.return (x, y) })
    (\<lambda>(x, y) s'. x = (OCXL_EVENT_ACTION_SUCCESS, Some (OCXL_EVENT_TRANSLATION_FAULT
        \<lparr>tf_addr = addr, tf_dsisr = (if arch_ppc64 K then dsisr else 0), tf_count = count\<rparr>), True) \<and>
      y = (OCXL_EVENT_ACTION_NONE, None, True) \<and> fault_addr (dev (wld s')) = 0 \<and> calls s' = calls s) s"
    (is "wp _ ?Q s")
proof -
  have "wp (do { y \<leftarrow> read_afu_event K 0; State_Monad.return (x, y) }) ?Q s1"
    if "x = (OCXL_EVENT_ACTION_SUCCESS, Some (OCXL_EVENT_TRANSLATION_FAULT
        \<lparr>tf_addr = addr, tf_dsisr = (if arch_ppc64 K then dsisr else 0), tf_count = count\<rparr>), True)"
      "fault_addr (dev (wld s1)) = 0" "cur_afu s1 = cur_afu s" "calls s1 = calls s" for x s1
    unfolding wp_bind
    by (rule wp_mono [OF read_none]) (use assms(2) that in \<open>auto simp: wp_return\<close>)
  then show ?thesis
    unfolding wp_bind [of "read_afu_event K 0" "\<lambda>x. read_afu_event K 0 \<bind> (\<lambda>y. State_Monad.return (x, y))"]
    by (intro wp_mono [OF read_fault [OF assms(1-3)]]) (use assms(4) in \<open>auto simp: force_translation_fault_def\<close>)
qed

text \<open>A platform with a virtual device beside its world.\<close>

definition beside :: "('w \<Rightarrow> 'a \<times> 'w) \<Rightarrow> 'w \<times> 'v \<Rightarrow> 'a \<times> 'w \<times> 'v" where
  "beside f = (\<lambda>(w, v). case f w of (r, w') \<Rightarrow> (r, w', v))"

definition demo_layout :: event_layout where
  "demo_layout = \<lparr>e_header = (\<lambda>t f. bytes_le 2 t @ bytes_le 2 f @ replicate 4 0),
     e_fault = (\<lambda>a d c. bytes_le 8 a @ bytes_le 8 d @ bytes_le 8 c)\<rparr>"

definition demo_virt :: "(demo_w \<times> virt_device) platform" where
  "demo_virt = \<lparr>
     arch_ppc64 = True, host_little_endian = True, libocxl_info = ''libocxl'',
     sizeof_event_header = 8, sizeof_xsl_fault_error = 24, sizeof_ocxl_irq = 64,
     sizeof_ocxl_afu = 288, sizeof_epoll_event = 12,
     AFU_EVENT_XSL_FAULT_ERROR = 0, EVENT_FLAG_LAST = 1, FEATURES_FLAGS0_P9_WAIT = 1,
     header_type = (\<lambda>bs. word_of_le (take 2 bs)), header_flags = (\<lambda>bs. word_of_le (take 2 (drop 2 bs))),
     xsl_addr = (\<lambda>bs. word_of_le (take 8 bs)), xsl_dsisr = (\<lambda>bs. word_of_le (take 8 (drop 8 bs))),
     xsl_count = (\<lambda>bs. word_of_le (take 8 (drop 16 bs))),
     os_errno = dw_errno \<circ> fst, os_strerror = os_strerror demo,
     os_getenv = (\<lambda>v w. os_getenv demo v (fst w)), os_sysconf_pagesize = (\<lambda>w. 65536),
     os_malloc = beside \<circ> os_malloc demo, os_realloc = (\<lambda>b. beside \<circ> os_realloc demo b), os_free = (\<lambda>b w. w),
     os_glob = beside \<circ> os_glob demo, os_opendir = beside \<circ> os_opendir demo,
     os_fstatat = (\<lambda>d. beside \<circ> os_fstatat demo d), os_stat = (\<lambda>p w. ((0, of_nat (length p) - 15), w)),
     os_open = (\<lambda>p. beside \<circ> os_open demo p), os_close = (\<lambda>d w. w),
     os_read = (\<lambda>fd n (w, d). case virt_read demo demo_layout n 0 d of
        (ReplyErr e # _, d') \<Rightarrow> ((- 1, []), w\<lparr>dw_errno := e\<rparr>, d')
      | (ReplyBuf buf m # _, d') \<Rightarrow> ((int m, take m buf), w, d')
      | (_, d') \<Rightarrow> ((0, []), w, d')),
     os_read_eventfd = beside \<circ> os_read_eventfd demo, os_eventfd = beside (os_eventfd demo),
     os_mmap = (\<lambda>len prot d. beside \<circ> os_mmap demo len prot d), os_munmap = (\<lambda>a. beside \<circ> os_munmap demo a),
     os_epoll_create = beside (os_epoll_create demo), os_epoll_add = (\<lambda>ep d. beside \<circ> os_epoll_add demo ep d),
     os_epoll_wait = (\<lambda>ep n. beside \<circ> os_epoll_wait demo ep n),
     os_ioctl_get_metadata = beside \<circ> os_ioctl_get_metadata demo,
     os_ioctl_attach = (\<lambda>d. beside \<circ> os_ioctl_attach demo d),
     os_ioctl_irq_alloc = beside \<circ> os_ioctl_irq_alloc demo,
     os_ioctl_irq_set_fd = (\<lambda>d off e. beside \<circ> os_ioctl_irq_set_fd demo d off e),
     os_ioctl_irq_free = (\<lambda>d. beside \<circ> os_ioctl_irq_free demo d),
     os_ioctl_get_features = beside \<circ> os_ioctl_get_features demo,
     os_ioctl_enable_p9_wait = beside \<circ> os_ioctl_enable_p9_wait demo,
     os_load = (\<lambda>a. beside \<circ> os_load demo a), os_store = (\<lambda>a bs (w, v). (os_store demo a bs w, v))\<rparr>"

lemma demo_layout_fits: "layout_fits demo_virt demo_layout"
  by (simp add: layout_fits_def demo_virt_def demo_layout_def word_of_le_bytes_le)

lemma demo_device_file: "device_file demo_virt demo_layout fd snd"
  by (auto simp: device_file_def demo_virt_def virt_read_def KERNEL_EVENT_SIZE_def split: prod.split)

definition demo_virt_state :: "virt_device \<Rightarrow> (demo_w \<times> virt_device) st" where
  "demo_virt_state d = \<lparr>glb = glb demo_state, outs = [], calls = [], ub = [], fmt_ub = [],
     wld = (wld demo_state, d), cur_afu = cur_afu demo_state\<rparr>"

lemma forced_fault_arrives_witness:
  "wp (do { x \<leftarrow> read_afu_event demo_virt 0; y \<leftarrow> read_afu_event demo_virt 0; State_Monad.return (x, y) })
    (\<lambda>(x, y) s'. x = (OCXL_EVENT_ACTION_SUCCESS, Some (OCXL_EVENT_TRANSLATION_FAULT
        \<lparr>tf_addr = 0xfeeddeadbeeff00d, tf_dsisr = 0x123456789abcdef0, tf_count = 16\<rparr>), True) \<and>
      y = (OCXL_EVENT_ACTION_NONE, None, True))
    (demo_virt_state (force_translation_fault demo_virt 0xfeeddeadbeeff00d 0x123456789abcdef0 16 initial_device))"
proof -
  have ppc: "arch_ppc64 demo_virt" by (simp add: demo_virt_def)
  show ?thesis
    by (rule wp_mono [OF forced_fault_arrives [OF demo_layout_fits demo_device_file [of "_"]]])
      (auto simp: demo_virt_state_def ppc)
qed

text \<open>The handlers of \<open>open\<close>, \<open>read\<close> and \<open>ioctl\<close> answer a request once; \<open>read\<close> sends
  bytes from behind its buffer when more are asked for than an event has. The handler of \<open>poll\<close>
  answers twice when there is an event, and when the device is not attached.\<close>

lemma handlers_reply:
  assumes "layout_fits K L"
  shows "length (fst (virt_open d)) = 1" "length (fst (virt_ioctl cmd d)) = 1"
    "\<exists>r. fst (virt_read K L n off d) = [r] \<and>
      (\<forall>buf m. r = ReplyBuf buf m \<longrightarrow> (m \<le> length buf \<longleftrightarrow> m \<le> KERNEL_EVENT_SIZE K))"
    "length (fst (virt_poll d)) = (if fault_addr d \<noteq> 0 \<or> \<not> vd_attached d then 2 else 1)"
  using assms
  by (auto simp: virt_open_def virt_ioctl_def virt_read_def virt_poll_def layout_fits_def KERNEL_EVENT_SIZE_def
      split: virt_ioctl_cmd.split)

end
