(* ===== verification/Unit_Framework.thy ===== *)
theory Unit_Framework
  imports Virt_Device Ocxl_Memory
begin

text \<open>
  The harness of \<open>src/unittests/unittests.c\<close>: the array of the tests that were started, starting and
  stopping one, the checks, and the report. The tests that were started are a list, whose last element
  is the current one.

  A check that fails stops the test and goes to its label \<open>end\<close>, which is the end of the block that
  follows the check: \<open>ASSERT\<close> takes the rest of the test as its last argument. What the code
  behind the label needs, the harness and the handle of the AFU, is handed from check to check.
\<close>

section \<open>The tests and their state\<close>

datatype test_state = IN_PROGRESS | SUCCESS | SKIP | FAIL

definition MAX_TESTS :: nat where "MAX_TESTS = 1024"

definition TEST_NAME_LEN :: nat where "TEST_NAME_LEN = 32"

definition SUITE_NAME_LEN :: nat where "SUITE_NAME_LEN = 32"

definition GLOBAL_MMIO_SIZE :: nat where "GLOBAL_MMIO_SIZE = 32 * 1024 * 1024"

definition PER_PASID_MMIO_SIZE :: nat where "PER_PASID_MMIO_SIZE = 16384"

text \<open>The two names are the arrays of the struct, with their terminator where there is room for it.\<close>

record unit_test =
  t_suite :: string
  t_name :: string
  t_state :: test_state
  t_count :: int

type_synonym harness = "unit_test list"

abbreviation NUL :: char where "NUL \<equiv> CHR 0x00"

definition c_strncpy :: "string \<Rightarrow> nat \<Rightarrow> string" where
  "c_strncpy txt n = take n (txt @ replicate n NUL)"

text \<open>An array read as a string; without a terminator the read runs out of it.\<close>

definition array_text :: "string \<Rightarrow> ('w, string) prog" where
  "array_text arr = do {
     whenM (NUL \<notin> set arr) (undefined_behaviour UB_out_of_bounds);
     State_Monad.return (takeWhile (\<lambda>c. c \<noteq> NUL) arr)
   }"

definition fresh_test :: "string \<Rightarrow> string \<Rightarrow> unit_test" where
  "fresh_test suite nm = \<lparr>t_suite = c_strncpy suite (SUITE_NAME_LEN + 1),
     t_name = c_strncpy nm (TEST_NAME_LEN + 1), t_state = IN_PROGRESS, t_count = 0\<rparr>"

definition test_start :: "string \<Rightarrow> string \<Rightarrow> harness \<Rightarrow> ('w, int + harness) prog" where
  "test_start suite nm T = do {
     say Stdout (''Starting test %s:%s'' @ nl) [FStr suite, FStr nm];
     if length T = MAX_TESTS then do {
       say Stderr ''Too many tests'' [];
       State_Monad.return (Inl 1)
     } else do {
       whenM (T \<noteq> [] \<and> t_state (last T) = IN_PROGRESS) (do {
         x \<leftarrow> array_text (t_suite (last T));
         y \<leftarrow> array_text (t_name (last T));
         say Stderr (''Could not start '' @ [CHR 0x27] @ ''%s:%s'' @ [CHR 0x27] @ '', previous test '' @
             [CHR 0x27] @ ''%s:%s'' @ [CHR 0x27] @ '' is still in progress'')
           [FStr suite, FStr nm, FStr x, FStr y]
       });
       State_Monad.return (Inr (T @ [fresh_test suite nm]))
     }
   }"

definition on_current :: "(unit_test \<Rightarrow> unit_test) \<Rightarrow> harness \<Rightarrow> harness" where
  "on_current f T = butlast T @ [f (last T)]"

definition test_stop :: "test_state \<Rightarrow> harness \<Rightarrow> ('w, harness) prog" where
  "test_stop ts T = do {
     whenM (T = []) (undefined_behaviour UB_out_of_bounds);
     (case ts of
        SUCCESS \<Rightarrow> say Stdout (''OK'' @ nl) []
      | SKIP \<Rightarrow> say Stdout (''Skipped'' @ nl) []
      | FAIL \<Rightarrow> say Stdout (''Failed'' @ nl) []
      | IN_PROGRESS \<Rightarrow> skip);
     State_Monad.return (on_current (t_state_update (\<lambda>_. ts)) T)
   }"

section \<open>Checks\<close>

text \<open>Where a check is: its function, its line and its text.\<close>

type_synonym place = "string \<times> nat \<times> string"

definition counted :: "int \<Rightarrow> harness \<times> 'x \<Rightarrow> harness \<times> 'x" where
  "counted n z = (on_current (\<lambda>t. t\<lparr>t_count := t_count t + n\<rparr>) (fst z), snd z)"

definition assertion_failed :: "place \<Rightarrow> harness \<times> 'x \<Rightarrow> ('w, harness \<times> 'x) prog" where
  "assertion_failed p z = do {
     (case p of (fn, line, txt) \<Rightarrow>
        say Stderr (''ASSERT: %s:%d: %s(): '' @ [CHR 0x27] @ ''%s'' @ [CHR 0x27] @ '' is false'' @ nl)
          [FStr ''unittests/unittests.c'', FInt (int line), FStr fn, FStr txt]);
     T \<leftarrow> test_stop FAIL (fst z);
     State_Monad.return (T, snd z)
   }"

definition ASSERT ::
  "place \<Rightarrow> bool \<Rightarrow> harness \<times> 'x \<Rightarrow> (harness \<times> 'x \<Rightarrow> ('w, harness \<times> 'x) prog) \<Rightarrow> ('w, harness \<times> 'x) prog" where
  "ASSERT p b z k = (if b then k (counted 1 z) else assertion_failed p (counted 1 z))"

text \<open>Several checks one after the other.\<close>

primrec ASSERTS ::
  "(place \<times> bool) list \<Rightarrow> harness \<times> 'x \<Rightarrow> (harness \<times> 'x \<Rightarrow> ('w, harness \<times> 'x) prog) \<Rightarrow> ('w, harness \<times> 'x) prog" where
  "ASSERTS [] z k = k z"
| "ASSERTS (c # cs) z k = ASSERT (fst c) (snd c) z (\<lambda>z. ASSERTS cs z k)"

text \<open>A test ends well.\<close>

definition test_ok :: "harness \<times> 'x \<Rightarrow> ('w, harness \<times> 'x) prog" where
  "test_ok z = do { T \<leftarrow> test_stop SUCCESS (fst z); State_Monad.return (T, snd z) }"

text \<open>A test: its start, its checks, and what follows the label \<open>end\<close>.\<close>

definition run_test ::
  "string \<Rightarrow> string \<Rightarrow> 'x \<Rightarrow> (harness \<times> 'x \<Rightarrow> ('w, harness \<times> 'x) prog) \<Rightarrow> ('x \<Rightarrow> ('w, unit) prog) \<Rightarrow>
   harness \<Rightarrow> ('w, int + harness) prog" where
  "run_test suite nm x body label_end T = do {
     r \<leftarrow> test_start suite nm T;
     (case r of
        Inl e \<Rightarrow> State_Monad.return (Inl e)
      | Inr T \<Rightarrow> do {
          (T, x) \<leftarrow> body (T, x);
          label_end x;
          State_Monad.return (Inr T)
        })
   }"

section \<open>The report\<close>

text \<open>\<open>%-*s\<close>: the text, with blanks up to the width.\<close>

definition left_justified :: "nat \<Rightarrow> string \<Rightarrow> string" where
  "left_justified n txt = txt @ replicate (n - length txt) CHR '' ''"

definition state_text :: "test_state \<Rightarrow> string" where
  "state_text ts = (case ts of IN_PROGRESS \<Rightarrow> ''In Progress'' | SUCCESS \<Rightarrow> ''OK'' | SKIP \<Rightarrow> ''Skipped'' | FAIL \<Rightarrow> ''Failed'')"

definition is_failure :: "test_state \<Rightarrow> bool" where
  "is_failure ts = (case ts of IN_PROGRESS \<Rightarrow> True | SUCCESS \<Rightarrow> False | SKIP \<Rightarrow> False | FAIL \<Rightarrow> True)"

fun name_widths :: "harness \<Rightarrow> nat \<Rightarrow> nat \<Rightarrow> ('w, nat \<times> nat) prog" where
  "name_widths [] m n = State_Monad.return (m, n)"
| "name_widths (t # ts) m n = do {
     x \<leftarrow> array_text (t_suite t);
     y \<leftarrow> array_text (t_name t);
     name_widths ts (max m (length x)) (max n (length y))
   }"

fun report_tests :: "harness \<Rightarrow> nat \<Rightarrow> nat \<Rightarrow> bool \<Rightarrow> ('w, bool) prog" where
  "report_tests [] m n has_failed = State_Monad.return has_failed"
| "report_tests (t # ts) m n has_failed = do {
     x \<leftarrow> array_text (t_suite t);
     y \<leftarrow> array_text (t_name t);
     say Stdout ([CHR 0x09] @ ''%s'' @ [CHR 0x09] @ ''%s'' @ [CHR 0x09] @ ''%s'' @ [CHR 0x09] @ ''%d checks'' @ nl)
       [FStr (left_justified m x), FStr (left_justified n y), FStr (state_text (t_state t)), FInt (t_count t)];
     report_tests ts m n (has_failed \<or> is_failure (t_state t))
   }"

definition test_report :: "harness \<Rightarrow> ('w, bool) prog" where
  "test_report T = do {
     say Stdout (''Summary:'' @ nl) [];
     (m, n) \<leftarrow> name_widths T 0 0;
     report_tests T m n False
   }"

section \<open>Checks that hold\<close>

lemma on_current_snoc [simp]: "on_current f (T @ [t]) = T @ [f t]"
  by (simp add: on_current_def)

lemma counted_snoc: "counted n (T @ [t], x) = (T @ [t\<lparr>t_count := t_count t + n\<rparr>], x)"
  by (simp add: counted_def)

lemma counted_zero [simp]: "T \<noteq> [] \<Longrightarrow> counted 0 (T, x) = (T, x)"
  by (simp add: counted_def on_current_def)

lemma snd_counted [simp]: "snd (counted n z) = snd z"
  by (simp add: counted_def)

lemma counted_counted [simp]: "counted m (counted n z) = counted (n + m) z"
  by (simp add: counted_def on_current_def add.assoc)

lemma fst_counted_nonempty [simp]: "fst (counted n z) \<noteq> []"
  by (simp add: counted_def on_current_def)

lemma ASSERT_cong [cong]: "b = b' \<Longrightarrow> ASSERT p b z k = ASSERT p b' z k"
  by simp

lemma ASSERT_holds: "b \<Longrightarrow> ASSERT p b z k = k (counted 1 z)"
  by (simp add: ASSERT_def)

lemma ASSERTS_hold:
  "\<forall>c \<in> set cs. snd c \<Longrightarrow> fst z \<noteq> [] \<Longrightarrow> ASSERTS cs z k = k (counted (int (length cs)) z)"
proof (induction cs arbitrary: z)
  case Nil
  then show ?case by (cases z) simp
next
  case (Cons c cs)
  then show ?case by (simp add: ASSERT_holds)
qed

lemma wp_array_text: "wp (array_text arr) Q s =
   Q (takeWhile (\<lambda>c. c \<noteq> NUL) arr) (if NUL \<in> set arr then s else s\<lparr>ub := ub s @ [UB_out_of_bounds]\<rparr>)"
  by (simp add: array_text_def wp_simps)

lemma wp_test_stop:
  "T \<noteq> [] \<Longrightarrow> wp (test_stop ts T) (\<lambda>T' s'. T' = on_current (t_state_update (\<lambda>_. ts)) T \<and> wld s' = wld s \<and>
     cur_afu s' = cur_afu s \<and> calls s' = calls s \<and> glb s' = glb s \<and> ub s' = ub s) s"
  by (cases ts) (simp_all add: test_stop_def wp_simps wp_call)

lemma wp_test_start:
  "wp (test_start suite nm T) (\<lambda>r s'. r = (if length T = MAX_TESTS then Inl 1 else Inr (T @ [fresh_test suite nm])) \<and>
     wld s' = wld s \<and> cur_afu s' = cur_afu s \<and> calls s' = calls s \<and> glb s' = glb s) s"
  by (auto simp: test_start_def wp_simps wp_call wp_array_text)

text \<open>A name is read inside its array when it was short enough for its terminator.\<close>

lemma strncpy_terminated: "NUL \<notin> set txt \<Longrightarrow> NUL \<in> set (c_strncpy txt n) \<longleftrightarrow> length txt < n"
  by (auto simp: c_strncpy_def dest: in_set_takeD)

definition readable :: "unit_test \<Rightarrow> bool" where
  "readable t \<longleftrightarrow> NUL \<in> set (t_suite t) \<and> NUL \<in> set (t_name t)"

lemma name_widths_spec:
  "wp (name_widths T m n) (\<lambda>_ s'. \<exists>xs. ub s' = ub s @ xs \<and> (xs = [] \<longleftrightarrow> (\<forall>t \<in> set T. readable t))) s"
proof (induction T arbitrary: m n s)
  case Nil
  then show ?case by (simp add: wp_simps)
next
  case (Cons t T)
  show ?case
    by (simp add: wp_simps wp_array_text readable_def, intro conjI impI; rule wp_mono [OF Cons.IH]) (auto simp: readable_def)
qed

lemma report_tests_spec:
  "wp (report_tests T m n b) (\<lambda>r s'. r = (b \<or> (\<exists>t \<in> set T. is_failure (t_state t))) \<and>
     (\<exists>xs. ub s' = ub s @ xs \<and> (xs = [] \<longleftrightarrow> (\<forall>t \<in> set T. readable t)))) s"
proof (induction T arbitrary: b s)
  case Nil
  then show ?case by (simp add: wp_simps)
next
  case (Cons t T)
  show ?case
    by (simp add: wp_simps wp_call wp_array_text readable_def, intro conjI impI; rule wp_mono [OF Cons.IH]) (auto simp: readable_def)
qed

lemma is_failure_iff: "is_failure ts \<longleftrightarrow> ts = IN_PROGRESS \<or> ts = FAIL"
  by (cases ts) (simp_all add: is_failure_def)

section \<open>Properties\<close>

text \<open>The report of the unit tests says that something failed exactly when a test was not
  stopped with success and not skipped. It reads no name past its array exactly when every suite and
  test name left room for its terminator.\<close>

lemma test_report_verdict:
  "wp (test_report T) (\<lambda>r s'. r = (\<exists>t \<in> set T. t_state t = IN_PROGRESS \<or> t_state t = FAIL) \<and>
     (ub s' = ub s \<longleftrightarrow> (\<forall>t \<in> set T. NUL \<in> set (t_suite t) \<and> NUL \<in> set (t_name t)))) s"
  unfolding test_report_def wp_bind wp_say wp_case_prod
  by (rule wp_mono [OF name_widths_spec], clarify, rule wp_mono [OF report_tests_spec])
    (auto simp: readable_def is_failure_iff)

text \<open>The longest name of the file does not leave room.\<close>

lemma test_report_verdict_witness:
  "wp (test_report [fresh_test ''ERR'' ''ocxl_set_afu_error_message_handler''\<lparr>t_state := SUCCESS\<rparr>])
     (\<lambda>r s'. \<not> r \<and> ub s' \<noteq> []) demo_state"
  by (rule wp_mono [OF test_report_verdict])
    (simp add: demo_state_def fresh_test_def c_strncpy_def SUITE_NAME_LEN_def TEST_NAME_LEN_def)

end
