(* ===== verification/Unit_Tests.thy ===== *)
theory Unit_Tests
  imports Unit_Framework
begin

text \<open>
  The tests of \<open>src/unittests/unittests.c\<close>, in the order of the file, and its \<open>main\<close>. Each one is
  the sequence of its calls of the library and of its checks; what follows the label \<open>end\<close> is the
  last argument of \<open>run_test\<close>. The getters of the library change nothing, so that those of
  consecutive checks are called together. The globals of the virtual device are in the same process:
  the record \<open>unit_host\<close> reads and sets them in the world.

  Two tests read the struct of an AFU after it was closed and freed, and close it again; the model
  records the undefined behaviour, and goes on with what the struct held.
\<close>

section \<open>The host of the tests\<close>

record 'w unit_host =
  u_device :: "'w \<Rightarrow> virt_device"
  u_set_device :: "virt_device \<Rightarrow> 'w \<Rightarrow> 'w"
  u_symlink :: "string \<Rightarrow> string \<Rightarrow> 'w \<Rightarrow> int \<times> 'w"
  u_unlink :: "string \<Rightarrow> 'w \<Rightarrow> unit \<times> 'w"
  u_closedir :: "string \<Rightarrow> 'w \<Rightarrow> unit \<times> 'w"
  u_sigaction :: "'w \<Rightarrow> unit \<times> 'w"  \<comment> \<open>\<open>exit_handler\<close> for \<open>SIGINT\<close>\<close>
  u_sleep :: "nat \<Rightarrow> 'w \<Rightarrow> unit \<times> 'w"
  u_kill_and_join :: "u64 \<Rightarrow> 'w \<Rightarrow> unit \<times> 'w"  \<comment> \<open>\<open>pthread_kill\<close> and \<open>pthread_join\<close>\<close>

definition ocxl_sysfs_path :: string where "ocxl_sysfs_path = ''/tmp/ocxl-test''"

definition ocxl_dev_path :: string where "ocxl_dev_path = ''/dev/ocxl-test''"

definition dummy_dev :: string where "dummy_dev = ''/dev/ocxl-test/IBM,Dummy.0001:00:00.1.0''"

definition dummy_sysfs :: string where "dummy_sysfs = ''/tmp/ocxl-test/IBM,Dummy.0001:00:00.1.0''"

definition OCXL_NO_MESSAGES :: u64 where "OCXL_NO_MESSAGES = 0"

definition OCXL_ATTACH_FLAGS_NONE :: u64 where "OCXL_ATTACH_FLAGS_NONE = 0"

text \<open>\<open>!strcmp(p, txt)\<close> for a pointer that may be null.\<close>

definition c_streq :: "string option \<Rightarrow> string \<Rightarrow> ('w, bool) prog" where
  "c_streq p txt = do {
     whenM (p = None) (undefined_behaviour UB_null_argument);
     State_Monad.return (p = Some txt)
   }"

definition device_path_is :: "string \<Rightarrow> ('w, bool) prog" where
  "device_path_is txt = do { p \<leftarrow> ocxl_afu_get_device_path; c_streq p txt }"

text \<open>\<open>if (afu) ocxl_afu_close(afu);\<close>\<close>

definition close_if_open :: "'w platform \<Rightarrow> block option \<Rightarrow> ('w, unit) prog" where
  "close_if_open K afu = whenM (afu \<noteq> None) (do { rc \<leftarrow> ocxl_afu_close K; skip })"

text \<open>\<open>ocxl_afu_enable_messages(afu, ...)\<close> where \<open>afu\<close> may be null.\<close>

definition messages_of :: "block option \<Rightarrow> u64 \<Rightarrow> ('w, unit) prog" where
  "messages_of afu sources = do {
     whenM (afu = None) (undefined_behaviour UB_null_argument);
     whenM (afu \<noteq> None) (ocxl_afu_enable_messages sources)
   }"

section \<open>Allocation and opening\<close>

text \<open>\<open>filled\<close> is what a struct of bytes \<open>0xff\<close> holds.\<close>

definition test_afu_init :: "'w platform \<Rightarrow> ocxl_afu \<Rightarrow> harness \<Rightarrow> ('w, int + harness) prog" where
  "test_afu_init K filled = run_test ''AFU'' ''init'' ()
     (\<lambda>z. do {
        let afu1 = filled;
        let afu2 = filled;
        ASSERT (''test_afu_init'', 193, ''!memcmp(&afu1, &afu2, sizeof(afu1))'') (afu1 = afu2) z (\<lambda>z. do {
          afu1 \<leftarrow> gets (\<lambda>s. afu_init K (wld s) (glb s) afu1);
          ASSERT (''test_afu_init'', 195, ''memcmp(&afu1, &afu2, sizeof(afu1))'') (afu1 \<noteq> afu2) z (\<lambda>z. do {
            afu_set (\<lambda>_. afu1);
            p \<leftarrow> ocxl_afu_get_device_path;
            q \<leftarrow> ocxl_afu_get_sysfs_path;
            (major, minor) \<leftarrow> ocxl_afu_get_version;
            ev \<leftarrow> ocxl_afu_get_event_fd;
            gsize \<leftarrow> ocxl_mmio_size OCXL_GLOBAL_MMIO;
            psize \<leftarrow> ocxl_mmio_size OCXL_PER_PASID_MMIO;
            gfd \<leftarrow> ocxl_mmio_get_fd OCXL_GLOBAL_MMIO;
            pfd \<leftarrow> ocxl_mmio_get_fd OCXL_PER_PASID_MMIO;
            ASSERTS [
                ((''test_afu_init'', 198, ''ocxl_afu_get_device_path(afu) == NULL''), p = None),
                ((''test_afu_init'', 199, ''ocxl_afu_get_sysfs_path(afu) == NULL''), q = None),
                ((''test_afu_init'', 202, ''major == 0''), major = 0),
                ((''test_afu_init'', 203, ''minor == 0''), minor = 0),
                ((''test_afu_init'', 204, ''ocxl_afu_get_event_fd(afu) == -1''), ev = - 1),
                ((''test_afu_init'', 205, ''ocxl_mmio_size(afu, OCXL_GLOBAL_MMIO) == 0''), gsize = 0),
                ((''test_afu_init'', 206, ''ocxl_mmio_size(afu, OCXL_PER_PASID_MMIO) == 0''), psize = 0),
                ((''test_afu_init'', 208, ''ocxl_mmio_get_fd(afu, OCXL_GLOBAL_MMIO) == -1''), gfd = - 1),
                ((''test_afu_init'', 209, ''ocxl_mmio_get_fd(afu, OCXL_PER_PASID_MMIO) == -1''), pfd = - 1)] z test_ok
          })
        })
      }) (\<lambda>_. skip)"

text \<open>The struct \<open>template\<close> of the function is initialised and not used.\<close>

definition test_ocxl_afu_alloc :: "'w platform \<Rightarrow> harness \<Rightarrow> ('w, int + harness) prog" where
  "test_ocxl_afu_alloc K = run_test ''AFU'' ''ocxl_afu_alloc'' None
     (\<lambda>z. do {
        (rc, afu) \<leftarrow> afu_alloc K;
        ASSERT (''test_ocxl_afu_alloc'', 227, ''OCXL_OK == afu_alloc(&afu)'') (rc = OCXL_OK) (fst z, afu) (\<lambda>z. ASSERT (''test_ocxl_afu_alloc'', 228, ''afu != 0'') (afu \<noteq> None) z (\<lambda>z. do {
          p \<leftarrow> ocxl_afu_get_device_path;
          q \<leftarrow> ocxl_afu_get_sysfs_path;
          ev \<leftarrow> ocxl_afu_get_event_fd;
          gsize \<leftarrow> ocxl_mmio_size OCXL_GLOBAL_MMIO;
          psize \<leftarrow> ocxl_mmio_size OCXL_PER_PASID_MMIO;
          gfd \<leftarrow> ocxl_mmio_get_fd OCXL_GLOBAL_MMIO;
          pfd \<leftarrow> ocxl_mmio_get_fd OCXL_PER_PASID_MMIO;
          ASSERTS [
              ((''test_ocxl_afu_alloc'', 229, ''ocxl_afu_get_device_path(afu) == NULL''), p = None),
              ((''test_ocxl_afu_alloc'', 230, ''ocxl_afu_get_sysfs_path(afu) == NULL''), q = None),
              ((''test_ocxl_afu_alloc'', 231, ''ocxl_afu_get_event_fd(afu) == -1''), ev = - 1),
              ((''test_ocxl_afu_alloc'', 232, ''ocxl_mmio_size(afu, OCXL_GLOBAL_MMIO) == 0''), gsize = 0),
              ((''test_ocxl_afu_alloc'', 233, ''ocxl_mmio_size(afu, OCXL_PER_PASID_MMIO) == 0''), psize = 0),
              ((''test_ocxl_afu_alloc'', 234, ''ocxl_mmio_get_fd(afu, OCXL_GLOBAL_MMIO) == -1''), gfd = - 1),
              ((''test_ocxl_afu_alloc'', 235, ''ocxl_mmio_get_fd(afu, OCXL_PER_PASID_MMIO) == -1''), pfd = - 1)] z test_ok
        }))
      })
     (\<lambda>afu. do {
        whenM (afu = None) (undefined_behaviour UB_null_argument);
        close_if_open K afu
      })"

definition test_device_matches :: "'w platform \<Rightarrow> 'w unit_host \<Rightarrow> harness \<Rightarrow> ('w, int + harness) prog" where
  "test_device_matches K U = run_test ''AFU'' ''device_matches'' ()
     (\<lambda>z. do {
        dev_dir \<leftarrow> sys (os_opendir K ''/dev'');
        whenM (dev_dir = None) (undefined_behaviour UB_null_argument);
        (rc, chr, rdev) \<leftarrow> sys (os_fstatat K ''/dev'' ''urandom'');
        ASSERT (''test_device_matches'', 252, ''!fstatat(dev_fd, \"urandom\", &urandom, 0)'') (rc = 0) z (\<lambda>z. do {
          other \<leftarrow> device_matches K ''/dev'' ''zero'' rdev;
          ASSERT (''test_device_matches'', 253, ''!device_matches(dev_fd, \"zero\", urandom.st_rdev)'') (\<not> other) z (\<lambda>z. do {
            same \<leftarrow> device_matches K ''/dev'' ''urandom'' rdev;
            ASSERT (''test_device_matches'', 254, ''device_matches(dev_fd, \"urandom\", urandom.st_rdev)'') same z test_ok
          })
        })
      }) (\<lambda>_. sys (u_closedir U ''/dev''))"

text \<open>The thread of the device, or the exit status. The fuel is one more than the buffers the file
  of the global registers takes (\<open>write_zeros_ends\<close>), so that the loop that writes it ends.\<close>

definition create_afu :: "'w platform \<Rightarrow> 'w virt_host \<Rightarrow> 'w unit_host \<Rightarrow> ('w, int + u64) prog" where
  "create_afu K V U = do {
     d \<leftarrow> gets (\<lambda>s. u_device U (wld s));
     r \<leftarrow> create_ocxl_device K V (Suc (GLOBAL_MMIO_SIZE div BUF_SIZE)) ''IBM,Dummy''
       (of_nat GLOBAL_MMIO_SIZE) (of_nat PER_PASID_MMIO_SIZE) d;
     let afu_thread = (case r of None \<Rightarrow> 0 | Some (t, _, _) \<Rightarrow> t);
     (case r of None \<Rightarrow> skip | Some (_, _, d) \<Rightarrow> modify (\<lambda>s. s\<lparr>wld := u_set_device U d (wld s)\<rparr>));
     if afu_thread = 0 then do {
       say Stderr (''Could not create dummy AFU'' @ nl) [];
       State_Monad.return (Inl 1)
     } else State_Monad.return (Inr afu_thread)
   }"

definition test_populate_metadata :: "'w platform \<Rightarrow> harness \<Rightarrow> ('w, int + harness) prog" where
  "test_populate_metadata K = run_test ''AFU'' ''populate_metadata'' ()
     (\<lambda>z. do {
        (rc, rdev) \<leftarrow> sys (os_stat K dummy_dev);
        ASSERT (''test_populate_metadata'', 283, ''!stat(\"/dev/ocxl-test/IBM,Dummy.0001:00:00.1.0\", &dev_stat)'') (rc = 0) z (\<lambda>z. do {
          modify (\<lambda>s. s\<lparr>cur_afu := afu_init K (wld s) (glb s) (cur_afu s)\<rparr>);
          found \<leftarrow> populate_metadata K rdev;
          ASSERT (''test_populate_metadata'', 288, ''populate_metadata(dev_stat.st_rdev, &afu)'') found z (\<lambda>z. do {
            i \<leftarrow> ocxl_afu_get_identifier;
            ASSERTS [
                ((''test_populate_metadata'', 289, ''!strcmp(afu.identifier.afu_name, \"IBM,Dummy\")''), afu_name i = ''IBM,Dummy''),
                ((''test_populate_metadata'', 290, ''afu.identifier.afu_index == 0''), afu_index i = 0)] z (\<lambda>z. do {
              same \<leftarrow> device_path_is dummy_dev;
              ASSERT (''test_populate_metadata'', 291, ''!strcmp(afu.device_path, \"/dev/ocxl-test/IBM,Dummy.0001:00:00.1.0\")'') same z (\<lambda>z. do {
                q \<leftarrow> ocxl_afu_get_sysfs_path;
                same \<leftarrow> c_streq q dummy_sysfs;
                ASSERT (''test_populate_metadata'', 292, ''!strcmp(afu.sysfs_path, \"/tmp/ocxl-test/IBM,Dummy.0001:00:00.1.0\")'') same z test_ok
              })
            })
          })
        })
      }) (\<lambda>_. skip)"

definition test_get_afu_by_path :: "'w platform \<Rightarrow> 'w unit_host \<Rightarrow> harness \<Rightarrow> ('w, int + harness) prog" where
  "test_get_afu_by_path K U = (let symlink_path = ''/tmp/ocxl-test-symlink'' in
     run_test ''AFU'' ''get_afu_by_path'' None
     (\<lambda>z. do {
        ocxl_enable_messages OCXL_NO_MESSAGES;
        (rc, afu) \<leftarrow> get_afu_by_path K ''/nonexistent'';
        ASSERT (''test_get_afu_by_path'', 310, ''OCXL_NO_DEV == get_afu_by_path(\"/nonexistent\", &afu)'') (rc = OCXL_NO_DEV) (fst z, afu) (\<lambda>z. do {
          ocxl_enable_messages OCXL_ERRORS;
          ASSERT (''test_get_afu_by_path'', 312, ''0 == afu'') (afu = None) z (\<lambda>z. do {
            (rc, afu) \<leftarrow> get_afu_by_path K dummy_dev;
            ASSERTS [
                ((''test_get_afu_by_path'', 315, ''OCXL_OK == get_afu_by_path(\"/dev/ocxl-test/IBM,Dummy.0001:00:00.1.0\", &afu)''), rc = OCXL_OK),
                ((''test_get_afu_by_path'', 316, ''afu != 0''), afu \<noteq> None)] (fst z, afu) (\<lambda>z. do {
              same \<leftarrow> device_path_is dummy_dev;
              ASSERT (''test_get_afu_by_path'', 317, ''!strcmp(ocxl_afu_get_device_path(afu), \"/dev/ocxl-test/IBM,Dummy.0001:00:00.1.0\")'') same z (\<lambda>z. do {
                rc \<leftarrow> ocxl_afu_close K;
                linked \<leftarrow> sys (u_symlink U dummy_dev symlink_path);
                ASSERT (''test_get_afu_by_path'', 322, ''0 == symlink(\"/dev/ocxl-test/IBM,Dummy.0001:00:00.1.0\", symlink_path)'') (linked = 0) (fst z, None) (\<lambda>z. do {
                  (rc, afu) \<leftarrow> get_afu_by_path K symlink_path;
                  ASSERTS [
                      ((''test_get_afu_by_path'', 324, ''OCXL_OK == get_afu_by_path(symlink_path, &afu)''), rc = OCXL_OK),
                      ((''test_get_afu_by_path'', 325, ''afu != 0''), afu \<noteq> None)] (fst z, afu) (\<lambda>z. do {
                    same \<leftarrow> device_path_is dummy_dev;
                    ASSERT (''test_get_afu_by_path'', 326, ''!strcmp(ocxl_afu_get_device_path(afu), \"/dev/ocxl-test/IBM,Dummy.0001:00:00.1.0\")'') same z test_ok
                  })
                })
              })
            })
          })
        })
      })
     (\<lambda>afu. do {
        ocxl_enable_messages OCXL_ERRORS;
        close_if_open K afu;
        sys (u_unlink U symlink_path)
      }))"

definition test_afu_open :: "'w platform \<Rightarrow> harness \<Rightarrow> ('w, int + harness) prog" where
  "test_afu_open K = run_test ''AFU'' ''afu_open'' None
     (\<lambda>z. do {
        (rc, afu) \<leftarrow> get_afu_by_path K dummy_dev;
        ASSERT (''test_afu_open'', 347, ''OCXL_OK == get_afu_by_path(\"/dev/ocxl-test/IBM,Dummy.0001:00:00.1.0\", &afu)'') (rc = OCXL_OK) (fst z, afu) (\<lambda>z. do {
          d \<leftarrow> afu_get afu_fd;
          ep \<leftarrow> afu_get epoll_fd;
          ASSERTS [
              ((''test_afu_open'', 349, ''my_afu->fd == -1''), d = - 1),
              ((''test_afu_open'', 350, ''my_afu->epoll_fd == -1''), ep = - 1)] z (\<lambda>z. do {
            rc \<leftarrow> afu_open K;
            ASSERT (''test_afu_open'', 352, ''OCXL_OK == afu_open(afu)'') (rc = OCXL_OK) z (\<lambda>z. do {
              d \<leftarrow> afu_get afu_fd;
              ep \<leftarrow> afu_get epoll_fd;
              ev \<leftarrow> ocxl_afu_get_event_fd;
              gfd \<leftarrow> ocxl_mmio_get_fd OCXL_GLOBAL_MMIO;
              pfd \<leftarrow> ocxl_mmio_get_fd OCXL_PER_PASID_MMIO;
              ASSERTS [
                  ((''test_afu_open'', 354, ''my_afu->fd != -1''), d \<noteq> - 1),
                  ((''test_afu_open'', 355, ''my_afu->epoll_fd != -1''), ep \<noteq> - 1),
                  ((''test_afu_open'', 357, ''ocxl_afu_get_event_fd(afu) != -1''), ev \<noteq> - 1),
                  ((''test_afu_open'', 358, ''ocxl_mmio_get_fd(afu, OCXL_GLOBAL_MMIO) != -1''), gfd \<noteq> - 1),
                  ((''test_afu_open'', 359, ''ocxl_mmio_get_fd(afu, OCXL_PER_PASID_MMIO) != -1''), pfd \<noteq> - 1)] z test_ok
            })
          })
        })
      }) (close_if_open K)"

definition test_ocxl_afu_open_specific :: "'w platform \<Rightarrow> harness \<Rightarrow> ('w, int + harness) prog" where
  "test_ocxl_afu_open_specific K = run_test ''AFU'' ''ocxl_afu_open_specific'' None
     (\<lambda>z. do {
        ocxl_enable_messages OCXL_NO_MESSAGES;
        (rc, afu) \<leftarrow> ocxl_afu_open_specific K ''nonexistent'' None (- 1);
        ASSERTS [
            ((''test_ocxl_afu_open_specific'', 378, ''OCXL_NO_DEV == ocxl_afu_open_specific(\"nonexistent\", NULL, -1, &afu)''), rc = OCXL_NO_DEV),
            ((''test_ocxl_afu_open_specific'', 379, ''afu == OCXL_INVALID_AFU''), afu = None)] (fst z, afu) (\<lambda>z. do {
          (rc, afu) \<leftarrow> ocxl_afu_open_specific K ''IBM,Dummy'' (Some ''0001:00:00.2'') (- 1);
          ASSERT (''test_ocxl_afu_open_specific'', 380, ''OCXL_NO_DEV == ocxl_afu_open_specific(\"IBM,Dummy\", \"0001:00:00.2\", -1, &afu)'') (rc = OCXL_NO_DEV) (fst z, afu) (\<lambda>z. do {
            (rc, afu) \<leftarrow> ocxl_afu_open_specific K ''IBM,Dummy'' (Some ''0001:00:00.1'') 1;
            ASSERT (''test_ocxl_afu_open_specific'', 381, ''OCXL_NO_DEV == ocxl_afu_open_specific(\"IBM,Dummy\", \"0001:00:00.1\", 1, &afu)'') (rc = OCXL_NO_DEV) (fst z, afu) (\<lambda>z. do {
              ocxl_enable_messages OCXL_ERRORS;
              (rc, afu) \<leftarrow> ocxl_afu_open_specific K ''IBM,Dummy'' (Some ''0001:00:00.1'') 0;
              ASSERTS [
                  ((''test_ocxl_afu_open_specific'', 383, ''OCXL_OK == ocxl_afu_open_specific(\"IBM,Dummy\", \"0001:00:00.1\", 0, &afu)''), rc = OCXL_OK),
                  ((''test_ocxl_afu_open_specific'', 384, ''afu != OCXL_INVALID_AFU''), afu \<noteq> None)] (fst z, afu) (\<lambda>z. do {
                same \<leftarrow> device_path_is dummy_dev;
                ASSERT (''test_ocxl_afu_open_specific'', 385, ''!strcmp(ocxl_afu_get_device_path(afu), \"/dev/ocxl-test/IBM,Dummy.0001:00:00.1.0\")'') same z (\<lambda>z. do {
                  rc \<leftarrow> ocxl_afu_close K;
                  (rc, afu) \<leftarrow> ocxl_afu_open_specific K ''IBM,Dummy'' (Some ''0001:00:00.1'') (- 1);
                  ASSERTS [
                      ((''test_ocxl_afu_open_specific'', 389, ''OCXL_OK == ocxl_afu_open_specific(\"IBM,Dummy\", \"0001:00:00.1\", -1, &afu)''), rc = OCXL_OK),
                      ((''test_ocxl_afu_open_specific'', 390, ''afu != OCXL_INVALID_AFU''), afu \<noteq> None)] (fst z, afu) (\<lambda>z. do {
                    same \<leftarrow> device_path_is dummy_dev;
                    a \<leftarrow> afu_get (\<lambda>a. a);
                    ASSERTS [
                        ((''test_ocxl_afu_open_specific'', 391, ''!strcmp(ocxl_afu_get_device_path(afu), \"/dev/ocxl-test/IBM,Dummy.0001:00:00.1.0\")''), same),
                        ((''test_ocxl_afu_open_specific'', 394, ''my_afu->version_major == 5''), version_major a = 5),
                        ((''test_ocxl_afu_open_specific'', 395, ''my_afu->version_minor == 10''), version_minor a = 10),
                        ((''test_ocxl_afu_open_specific'', 396, ''my_afu->global_mmio.length == 32*1024*1024''), mm_length (global_mmio a) = 32 * 1024 * 1024),
                        ((''test_ocxl_afu_open_specific'', 397, ''my_afu->per_pasid_mmio.length == 16384''), mm_length (per_pasid_mmio a) = 16384),
                        ((''test_ocxl_afu_open_specific'', 398, ''my_afu->pasid == 1234''), pasid a = 1234)] z test_ok
                  })
                })
              })
            })
          })
        })
      })
     (\<lambda>afu. do { ocxl_enable_messages OCXL_ERRORS; close_if_open K afu })"

definition test_ocxl_afu_open_from_dev :: "'w platform \<Rightarrow> harness \<Rightarrow> ('w, int + harness) prog" where
  "test_ocxl_afu_open_from_dev K = run_test ''AFU'' ''ocxl_afu_open_from_dev'' None
     (\<lambda>z. do {
        ocxl_enable_messages OCXL_NO_MESSAGES;
        (rc, afu) \<leftarrow> ocxl_afu_open_from_dev K ''/nonexistent'';
        ASSERT (''test_ocxl_afu_open_from_dev'', 418, ''OCXL_NO_DEV == ocxl_afu_open_from_dev(\"/nonexistent\", &afu)'') (rc = OCXL_NO_DEV) (fst z, afu) (\<lambda>z. do {
          ocxl_enable_messages OCXL_ERRORS;
          (rc, afu) \<leftarrow> ocxl_afu_open_from_dev K dummy_dev;
          ASSERT (''test_ocxl_afu_open_from_dev'', 421, ''OCXL_OK == ocxl_afu_open_from_dev(\"/dev/ocxl-test/IBM,Dummy.0001:00:00.1.0\", &afu)'') (rc = OCXL_OK) (fst z, afu) (\<lambda>z. do {
            d \<leftarrow> afu_get afu_fd;
            ep \<leftarrow> afu_get epoll_fd;
            same \<leftarrow> device_path_is dummy_dev;
            ASSERTS [
                ((''test_ocxl_afu_open_from_dev'', 423, ''my_afu->fd != -1''), d \<noteq> - 1),
                ((''test_ocxl_afu_open_from_dev'', 424, ''my_afu->epoll_fd != -1''), ep \<noteq> - 1),
                ((''test_ocxl_afu_open_from_dev'', 425, ''!strcmp(ocxl_afu_get_device_path(afu), \"/dev/ocxl-test/IBM,Dummy.0001:00:00.1.0\")''), same)] z test_ok
          })
        })
      })
     (\<lambda>afu. do { ocxl_enable_messages OCXL_ERRORS; close_if_open K afu })"

definition test_afu_getters :: "'w platform \<Rightarrow> harness \<Rightarrow> ('w, int + harness) prog" where
  "test_afu_getters K = run_test ''AFU'' ''getters'' None
     (\<lambda>z. do {
        (rc, afu) \<leftarrow> ocxl_afu_open K ''IBM,Dummy'';
        ASSERT (''test_afu_getters'', 443, ''OCXL_OK == ocxl_afu_open(\"IBM,Dummy\", &afu)'') (rc = OCXL_OK) (fst z, afu) (\<lambda>z. do {
          i \<leftarrow> ocxl_afu_get_identifier;
          dp \<leftarrow> device_path_is dummy_dev;
          q \<leftarrow> ocxl_afu_get_sysfs_path;
          sp \<leftarrow> c_streq q (take (PATH_MAX - 1) (ocxl_sysfs_path @ ''/IBM,Dummy.0001:00:00.1.0''));
          (major, minor) \<leftarrow> ocxl_afu_get_version;
          ev \<leftarrow> ocxl_afu_get_event_fd;
          gsize \<leftarrow> ocxl_mmio_size OCXL_GLOBAL_MMIO;
          psize \<leftarrow> ocxl_mmio_size OCXL_PER_PASID_MMIO;
          p \<leftarrow> ocxl_afu_get_pasid;
          ASSERTS [
              ((''test_afu_getters'', 445, ''identifier->afu_index == 0''), afu_index i = 0),
              ((''test_afu_getters'', 446, ''!strcmp(identifier->afu_name, \"IBM,Dummy\")''), afu_name i = ''IBM,Dummy''),
              ((''test_afu_getters'', 447, ''!strcmp(ocxl_afu_get_device_path(afu), \"/dev/ocxl-test/IBM,Dummy.0001:00:00.1.0\")''), dp),
              ((''test_afu_getters'', 450, ''!strcmp(ocxl_afu_get_sysfs_path(afu), expected_path)''), sp),
              ((''test_afu_getters'', 454, ''major == 5''), major = 5),
              ((''test_afu_getters'', 455, ''minor == 10''), minor = 10),
              ((''test_afu_getters'', 456, ''ocxl_afu_get_event_fd(afu) >= 0''), 0 \<le> ev),
              ((''test_afu_getters'', 457, ''ocxl_mmio_size(afu, OCXL_GLOBAL_MMIO) == 32*1024*1024''), gsize = 32 * 1024 * 1024),
              ((''test_afu_getters'', 458, ''ocxl_mmio_size(afu, OCXL_PER_PASID_MMIO) == 16384''), psize = 16384),
              ((''test_afu_getters'', 459, ''ocxl_afu_get_pasid(afu) == 1234''), p = 1234),
              ((''test_afu_getters'', 460, ''ocxl_afu_get_event_fd(afu) != -1''), ev \<noteq> - 1)] z test_ok
        })
      }) (close_if_open K)"

definition test_ocxl_afu_open :: "'w platform \<Rightarrow> harness \<Rightarrow> ('w, int + harness) prog" where
  "test_ocxl_afu_open K = run_test ''AFU'' ''ocxl_afu_open'' None
     (\<lambda>z. do {
        ocxl_enable_messages OCXL_NO_MESSAGES;
        (rc, afu) \<leftarrow> ocxl_afu_open K ''nonexistent'';
        ASSERT (''test_ocxl_afu_open'', 479, ''OCXL_NO_DEV == ocxl_afu_open(\"nonexistent\", &afu)'') (rc = OCXL_NO_DEV) (fst z, afu) (\<lambda>z. do {
          ocxl_enable_messages OCXL_ERRORS;
          (rc, afu) \<leftarrow> ocxl_afu_open K ''IBM,Dummy'';
          ASSERT (''test_ocxl_afu_open'', 482, ''OCXL_OK == ocxl_afu_open(\"IBM,Dummy\", &afu)'') (rc = OCXL_OK) (fst z, afu) (\<lambda>z. do {
            d \<leftarrow> afu_get afu_fd;
            ep \<leftarrow> afu_get epoll_fd;
            same \<leftarrow> device_path_is dummy_dev;
            ASSERTS [
                ((''test_ocxl_afu_open'', 484, ''my_afu->fd != -1''), d \<noteq> - 1),
                ((''test_ocxl_afu_open'', 485, ''my_afu->epoll_fd != -1''), ep \<noteq> - 1),
                ((''test_ocxl_afu_open'', 486, ''!strcmp(ocxl_afu_get_device_path(afu), \"/dev/ocxl-test/IBM,Dummy.0001:00:00.1.0\")''), same)] z test_ok
          })
        })
      })
     (\<lambda>afu. do { ocxl_enable_messages OCXL_ERRORS; close_if_open K afu })"

definition test_ocxl_afu_attach :: "'w platform \<Rightarrow> 'w unit_host \<Rightarrow> harness \<Rightarrow> ('w, int + harness) prog" where
  "test_ocxl_afu_attach K U = run_test ''AFU'' ''ocxl_afu_attach'' None
     (\<lambda>z. do {
        att \<leftarrow> gets (\<lambda>s. afu_is_attached (u_device U (wld s)));
        ASSERT (''test_ocxl_afu_attach'', 505, ''!afu_is_attached()'') (\<not> att) z (\<lambda>z. do {
          (rc, afu) \<leftarrow> ocxl_afu_open_from_dev K dummy_dev;
          ASSERT (''test_ocxl_afu_attach'', 506, ''OCXL_OK == ocxl_afu_open_from_dev(\"/dev/ocxl-test/IBM,Dummy.0001:00:00.1.0\", &afu)'') (rc = OCXL_OK) (fst z, afu) (\<lambda>z. do {
            ocxl_afu_enable_messages OCXL_ERRORS;
            rc \<leftarrow> ocxl_afu_attach K OCXL_ATTACH_FLAGS_NONE;
            ASSERT (''test_ocxl_afu_attach'', 508, ''OCXL_OK == ocxl_afu_attach(afu, OCXL_ATTACH_FLAGS_NONE)'') (rc = OCXL_OK) z (\<lambda>z. do {
              att \<leftarrow> gets (\<lambda>s. afu_is_attached (u_device U (wld s)));
              ASSERT (''test_ocxl_afu_attach'', 509, ''afu_is_attached()'') att z test_ok
            })
          })
        })
      }) (close_if_open K)"

text \<open>The struct of a closed AFU is freed.\<close>

definition freed :: "(ocxl_afu \<Rightarrow> 'a) \<Rightarrow> ('w, 'a) prog" where
  "freed f = do { undefined_behaviour UB_dangling_pointer; afu_get f }"

definition close_again :: "'w platform \<Rightarrow> ('w, unit) prog" where
  "close_again K = do { undefined_behaviour UB_dangling_pointer; rc \<leftarrow> ocxl_afu_close K; skip }"

definition test_ocxl_afu_close :: "'w platform \<Rightarrow> harness \<Rightarrow> ('w, int + harness) prog" where
  "test_ocxl_afu_close K = run_test ''AFU'' ''ocxl_afu_close'' (None, False)
     (\<lambda>z. do {
        (rc, afu) \<leftarrow> ocxl_afu_open_from_dev K dummy_dev;
        ASSERT (''test_ocxl_afu_close'', 526, ''OCXL_OK == ocxl_afu_open_from_dev(\"/dev/ocxl-test/IBM,Dummy.0001:00:00.1.0\", &afu)'') (rc = OCXL_OK) (fst z, afu, False) (\<lambda>z. do {
          ocxl_afu_enable_messages OCXL_ERRORS;
          rc \<leftarrow> ocxl_afu_close K;
          ASSERTS [
              ((''test_ocxl_afu_close'', 528, ''OCXL_OK == ocxl_afu_close(afu)''), rc = OCXL_OK),
              ((''test_ocxl_afu_close'', 529, ''afu != 0''), afu \<noteq> None)] (fst z, afu, True) (\<lambda>z. do {
            a \<leftarrow> freed (\<lambda>a. a);
            ASSERTS [
                ((''test_ocxl_afu_close'', 535, ''0 == my_afu->irq_count''), irq_count a = 0),
                ((''test_ocxl_afu_close'', 536, ''0 == my_afu->irq_max_count''), irq_max_count a = 0),
                ((''test_ocxl_afu_close'', 537, ''0 == my_afu->epoll_event_count''), epoll_event_count a = 0),
                ((''test_ocxl_afu_close'', 538, ''-1 == my_afu->fd''), afu_fd a = - 1),
                ((''test_ocxl_afu_close'', 539, ''-1 == my_afu->epoll_fd''), epoll_fd a = - 1),
                ((''test_ocxl_afu_close'', 540, ''NULL == my_afu->device_path''), device_path a = None),
                ((''test_ocxl_afu_close'', 541, ''NULL == my_afu->sysfs_path''), sysfs_path a = None)] z test_ok
          })
        })
      }) (\<lambda>(afu, was_closed). if was_closed then close_again K else close_if_open K afu)"

section \<open>Regions\<close>

definition test_ocxl_mmio_map :: "'w platform \<Rightarrow> harness \<Rightarrow> ('w, int + harness) prog" where
  "test_ocxl_mmio_map K = run_test ''MMIO'' ''ocxl_mmio_map/unmap'' (None, False)
     (\<lambda>z. do {
        (rc, afu) \<leftarrow> ocxl_afu_open_from_dev K dummy_dev;
        ASSERT (''test_ocxl_mmio_map'', 558, ''OCXL_OK == ocxl_afu_open_from_dev(\"/dev/ocxl-test/IBM,Dummy.0001:00:00.1.0\", &afu)'') (rc = OCXL_OK) (fst z, afu, False) (\<lambda>z. do {
          ocxl_afu_enable_messages OCXL_ERRORS;
          a \<leftarrow> afu_get (\<lambda>a. a);
          ASSERTS [
              ((''test_ocxl_mmio_map'', 562, ''my_afu->global_mmio_fd != -1''), global_mmio_fd a \<noteq> - 1),
              ((''test_ocxl_mmio_map'', 563, ''my_afu->global_mmio.start == NULL''), mm_start (global_mmio a) = 0),
              ((''test_ocxl_mmio_map'', 564, ''my_afu->global_mmio.length == GLOBAL_MMIO_SIZE''), mm_length (global_mmio a) = of_nat GLOBAL_MMIO_SIZE)] z (\<lambda>z. do {
            (rc, region) \<leftarrow> ocxl_mmio_map K OCXL_GLOBAL_MMIO;
            gfd \<leftarrow> afu_get global_mmio_fd;
            ASSERTS [
                ((''test_ocxl_mmio_map'', 567, ''OCXL_OK == ocxl_mmio_map(afu, OCXL_GLOBAL_MMIO, &global_mmio)''), rc = OCXL_OK),
                ((''test_ocxl_mmio_map'', 568, ''my_afu->global_mmio_fd != -1''), gfd \<noteq> - 1)] z (\<lambda>z. do {
              whenM (region = None) (undefined_behaviour UB_null_argument);
              (rc, info) \<leftarrow> ocxl_mmio_get_info (the region);
              ASSERTS [
                  ((''test_ocxl_mmio_map'', 571, ''OCXL_OK == ocxl_mmio_get_info(global_mmio, &addr, &size)''), rc = OCXL_OK),
                  ((''test_ocxl_mmio_map'', 572, ''addr != NULL''), fst (the info) \<noteq> 0),
                  ((''test_ocxl_mmio_map'', 573, ''size == GLOBAL_MMIO_SIZE''), snd (the info) = of_nat GLOBAL_MMIO_SIZE)] z (\<lambda>z. do {
                ocxl_mmio_unmap K (the region);
                gfd \<leftarrow> afu_get global_mmio_fd;
                m \<leftarrow> mmios_at 0;
                ASSERTS [
                    ((''test_ocxl_mmio_map'', 576, ''my_afu->global_mmio_fd != -1''), gfd \<noteq> - 1),
                    ((''test_ocxl_mmio_map'', 577, ''my_afu->mmios[0].start == NULL''), mm_start m = 0)] z (\<lambda>z. do {
                  rc \<leftarrow> ocxl_afu_close K;
                  ASSERT (''test_ocxl_mmio_map'', 579, ''OCXL_OK == ocxl_afu_close(afu)'') (rc = OCXL_OK) (fst z, afu, True) (\<lambda>z. do {
                    a \<leftarrow> freed (\<lambda>a. a);
                    ASSERTS [
                        ((''test_ocxl_mmio_map'', 580, ''my_afu->global_mmio_fd == -1''), global_mmio_fd a = - 1),
                        ((''test_ocxl_mmio_map'', 581, ''my_afu->global_mmio.start == NULL''), mm_start (global_mmio a) = 0),
                        ((''test_ocxl_mmio_map'', 582, ''my_afu->global_mmio.length == GLOBAL_MMIO_SIZE''), mm_length (global_mmio a) = of_nat GLOBAL_MMIO_SIZE)] z test_ok
                  })
                })
              })
            })
          })
        })
      }) (\<lambda>(afu, was_closed). if was_closed then close_again K else close_if_open K afu)"

definition test_mmio_check :: "'w platform \<Rightarrow> harness \<Rightarrow> ('w, int + harness) prog" where
  "test_mmio_check K = run_test ''MMIO'' ''mmio_check'' None
     (\<lambda>z. do {
        (rc, afu) \<leftarrow> ocxl_afu_open_from_dev K dummy_dev;
        ASSERT (''test_mmio_check'', 599, ''OCXL_OK == ocxl_afu_open_from_dev(\"/dev/ocxl-test/IBM,Dummy.0001:00:00.1.0\", &afu)'') (rc = OCXL_OK) (fst z, afu) (\<lambda>z. do {
          a \<leftarrow> afu_get (\<lambda>a. a);
          ASSERTS [
              ((''test_mmio_check'', 602, ''my_afu->global_mmio_fd != -1''), global_mmio_fd a \<noteq> - 1),
              ((''test_mmio_check'', 603, ''my_afu->global_mmio.start == NULL''), mm_start (global_mmio a) = 0),
              ((''test_mmio_check'', 604, ''my_afu->global_mmio.length == GLOBAL_MMIO_SIZE''), mm_length (global_mmio a) = of_nat GLOBAL_MMIO_SIZE)] z (\<lambda>z. do {
            ocxl_afu_enable_messages OCXL_NO_MESSAGES;
            rc \<leftarrow> mmio_check None 0 4;
            ASSERT (''test_mmio_check'', 608, ''OCXL_INVALID_ARGS == mmio_check(0, 0, 4)'') (rc = OCXL_INVALID_ARGS) z (\<lambda>z. do {
              (rc, region) \<leftarrow> ocxl_mmio_map K OCXL_GLOBAL_MMIO;
              ASSERT (''test_mmio_check'', 611, ''OCXL_OK == ocxl_mmio_map(afu, OCXL_GLOBAL_MMIO, &global_mmio)'') (rc = OCXL_OK) z (\<lambda>z. do {
                rc \<leftarrow> mmio_check region (of_nat GLOBAL_MMIO_SIZE + 8) 4;
                ASSERT (''test_mmio_check'', 612, ''OCXL_OUT_OF_BOUNDS == mmio_check(global_mmio, GLOBAL_MMIO_SIZE + 8, 4)'') (rc = OCXL_OUT_OF_BOUNDS) z (\<lambda>z. do {
                  ocxl_afu_enable_messages OCXL_ERRORS;
                  rc \<leftarrow> mmio_check region 0 4;
                  ASSERT (''test_mmio_check'', 615, ''OCXL_OK == mmio_check(global_mmio, 0, 4)'') (rc = OCXL_OK) z test_ok
                })
              })
            })
          })
        })
      })
     (\<lambda>afu. do { messages_of afu OCXL_ERRORS; close_if_open K afu })"

section \<open>Registers\<close>

text \<open>The offsets of a loop over the global registers in steps of a width.\<close>

definition offsets :: "nat \<Rightarrow> u64 list" where
  "offsets width = map (\<lambda>i. of_nat (width * i)) [0..<GLOBAL_MMIO_SIZE div width]"

fun write_loop ::
  "place \<Rightarrow> (u64 \<Rightarrow> ('w, ocxl_err) prog) \<Rightarrow> u64 list \<Rightarrow> harness \<times> 'x \<Rightarrow>
   (harness \<times> 'x \<Rightarrow> ('w, harness \<times> 'x) prog) \<Rightarrow> ('w, harness \<times> 'x) prog" where
  "write_loop p wr [] z k = k z"
| "write_loop p wr (offset # offs) z k = do {
     rc \<leftarrow> wr offset;
     ASSERT p (rc = OCXL_OK) z (\<lambda>z. write_loop p wr offs z k)
   }"

text \<open>The loop that reads ends at the first value that is not \<open>ex\<close> of its offset, with
  \<open>good\<close> false.\<close>

fun read_loop ::
  "place \<Rightarrow> (u64 \<Rightarrow> ('w, ocxl_err \<times> 'v) prog) \<Rightarrow> (u64 \<Rightarrow> 'v) \<Rightarrow> u64 list \<Rightarrow> harness \<times> 'x \<Rightarrow>
   (bool \<Rightarrow> harness \<times> 'x \<Rightarrow> ('w, harness \<times> 'x) prog) \<Rightarrow> ('w, harness \<times> 'x) prog" where
  "read_loop p rd ex [] z k = k True z"
| "read_loop p rd ex (offset # offs) z k = do {
     (rc, val) \<leftarrow> rd offset;
     ASSERT p (rc = OCXL_OK) z (\<lambda>z. if val \<noteq> ex offset then k False z else read_loop p rd ex offs z k)
   }"

definition test_ocxl_mmio_read32_native :: "'w platform \<Rightarrow> harness \<Rightarrow> ('w, int + harness) prog" where
  "test_ocxl_mmio_read32_native K = run_test ''MMIO'' ''ocxl_mmio_read32/write32_native'' None
     (\<lambda>z. do {
        (rc, afu) \<leftarrow> ocxl_afu_open_from_dev K dummy_dev;
        ASSERT (''test_ocxl_mmio_read32_native'', 633, ''OCXL_OK == ocxl_afu_open_from_dev(\"/dev/ocxl-test/IBM,Dummy.0001:00:00.1.0\", &afu)'') (rc = OCXL_OK) (fst z, afu) (\<lambda>z. do {
          ocxl_afu_enable_messages OCXL_ERRORS;
          (rc, region) \<leftarrow> ocxl_mmio_map K OCXL_GLOBAL_MMIO;
          ASSERT (''test_ocxl_mmio_read32_native'', 637, ''OCXL_OK == ocxl_mmio_map(afu, OCXL_GLOBAL_MMIO, &global_mmio)'') (rc = OCXL_OK) z (\<lambda>z.
            write_loop (''test_ocxl_mmio_read32_native'', 640, ''OCXL_OK == mmio_write32_native(global_mmio, offset, offset)'') (\<lambda>offset. mmio_write32_native K region offset (ucast offset)) (offsets 4) z (\<lambda>z.
            read_loop (''test_ocxl_mmio_read32_native'', 647, ''OCXL_OK == mmio_read32_native(global_mmio, offset, &val)'') (mmio_read32_native K region) ucast (offsets 4) z (\<lambda>good z.
            ASSERT (''test_ocxl_mmio_read32_native'', 653, ''good'') good z (\<lambda>z. do {
              ocxl_mmio_unmap K (the region);
              test_ok z
            }))))
        })
      })
     (\<lambda>afu. do { messages_of afu OCXL_ERRORS; close_if_open K afu })"

definition test_ocxl_mmio_read64_native :: "'w platform \<Rightarrow> harness \<Rightarrow> ('w, int + harness) prog" where
  "test_ocxl_mmio_read64_native K = run_test ''MMIO'' ''ocxl_mmio_read64/write64_native'' None
     (\<lambda>z. do {
        (rc, afu) \<leftarrow> ocxl_afu_open_from_dev K dummy_dev;
        ASSERT (''test_ocxl_mmio_read64_native'', 673, ''OCXL_OK == ocxl_afu_open_from_dev(\"/dev/ocxl-test/IBM,Dummy.0001:00:00.1.0\", &afu)'') (rc = OCXL_OK) (fst z, afu) (\<lambda>z. do {
          ocxl_afu_enable_messages OCXL_ERRORS;
          (rc, region) \<leftarrow> ocxl_mmio_map K OCXL_GLOBAL_MMIO;
          ASSERT (''test_ocxl_mmio_read64_native'', 677, ''OCXL_OK == ocxl_mmio_map(afu, OCXL_GLOBAL_MMIO, &global_mmio)'') (rc = OCXL_OK) z (\<lambda>z.
            write_loop (''test_ocxl_mmio_read64_native'', 680, ''OCXL_OK == mmio_write64_native(global_mmio, offset, offset)'') (\<lambda>offset. mmio_write64_native K region offset offset) (offsets 8) z (\<lambda>z.
            read_loop (''test_ocxl_mmio_read64_native'', 687, ''OCXL_OK == mmio_read64_native(global_mmio, offset, &val)'') (mmio_read64_native K region) (\<lambda>offset. offset) (offsets 8) z (\<lambda>good z.
            ASSERT (''test_ocxl_mmio_read64_native'', 693, ''good'') good z (\<lambda>z. do {
              ocxl_mmio_unmap K (the region);
              test_ok z
            }))))
        })
      }) (close_if_open K)"

text \<open>One byte order of the next two tests: all registers written and read back, and the second one
  read from memory as the host reads it.\<close>

definition round32 ::
  "'w platform \<Rightarrow> ocxl_mmio_h \<Rightarrow> ocxl_endian \<Rightarrow> place \<times> place \<times> place \<Rightarrow> harness \<times> 'x \<Rightarrow>
   (u32 \<Rightarrow> harness \<times> 'x \<Rightarrow> ('w, harness \<times> 'x) prog) \<Rightarrow> ('w, harness \<times> 'x) prog" where
  "round32 K region e = (\<lambda>(p1, p2, p3) z k.
     write_loop p1 (\<lambda>offset. ocxl_mmio_write32 K region offset e (ucast offset)) (offsets 4) z (\<lambda>z.
     read_loop p2 (\<lambda>offset. ocxl_mmio_read32 K region offset e) (\<lambda>offset. Some (ucast offset)) (offsets 4) z (\<lambda>good z.
     ASSERT p3 good z (\<lambda>z. do {
       mmio \<leftarrow> region_ptr region;
       bs \<leftarrow> do_load K (mm_start mmio + 4) 4;
       k (native_word K bs) z
     }))))"

definition round64 ::
  "'w platform \<Rightarrow> ocxl_mmio_h \<Rightarrow> ocxl_endian \<Rightarrow> place \<times> place \<times> place \<Rightarrow> harness \<times> 'x \<Rightarrow>
   (u64 \<Rightarrow> harness \<times> 'x \<Rightarrow> ('w, harness \<times> 'x) prog) \<Rightarrow> ('w, harness \<times> 'x) prog" where
  "round64 K region e = (\<lambda>(p1, p2, p3) z k.
     write_loop p1 (\<lambda>offset. ocxl_mmio_write64 K region offset e offset) (offsets 8) z (\<lambda>z.
     read_loop p2 (\<lambda>offset. ocxl_mmio_read64 K region offset e) Some (offsets 8) z (\<lambda>good z.
     ASSERT p3 good z (\<lambda>z. do {
       mmio \<leftarrow> region_ptr region;
       bs \<leftarrow> do_load K (mm_start mmio + 8) 8;
       k (native_word K bs) z
     }))))"

definition test_ocxl_mmio_read32 :: "'w platform \<Rightarrow> harness \<Rightarrow> ('w, int + harness) prog" where
  "test_ocxl_mmio_read32 K = run_test ''MMIO'' ''ocxl_mmio_read32/write32'' None
     (\<lambda>z. do {
        (rc, afu) \<leftarrow> ocxl_afu_open_from_dev K dummy_dev;
        ASSERT (''test_ocxl_mmio_read32'', 712, ''OCXL_OK == ocxl_afu_open_from_dev(\"/dev/ocxl-test/IBM,Dummy.0001:00:00.1.0\", &afu)'') (rc = OCXL_OK) (fst z, afu) (\<lambda>z. do {
          (rc, region) \<leftarrow> ocxl_mmio_map K OCXL_GLOBAL_MMIO;
          ASSERT (''test_ocxl_mmio_read32'', 715, ''OCXL_OK == ocxl_mmio_map(afu, OCXL_GLOBAL_MMIO, &global_mmio)'') (rc = OCXL_OK) z (\<lambda>z.
            round32 K region OCXL_MMIO_BIG_ENDIAN ((''test_ocxl_mmio_read32'', 719, ''OCXL_OK == ocxl_mmio_write32(global_mmio, offset, OCXL_MMIO_BIG_ENDIAN, offset)''), (''test_ocxl_mmio_read32'', 726, ''OCXL_OK == ocxl_mmio_read32(global_mmio, offset, OCXL_MMIO_BIG_ENDIAN, &val)''), (''test_ocxl_mmio_read32'', 732, ''good'')) z (\<lambda>big z.
            ASSERT (''test_ocxl_mmio_read32'', 735, ''4 == be32toh(big)'') (4 = be32toh K big) z (\<lambda>z.
            round32 K region OCXL_MMIO_LITTLE_ENDIAN ((''test_ocxl_mmio_read32'', 738, ''OCXL_OK == ocxl_mmio_write32(global_mmio, offset, OCXL_MMIO_LITTLE_ENDIAN, offset)''), (''test_ocxl_mmio_read32'', 743, ''OCXL_OK == ocxl_mmio_read32(global_mmio, offset, OCXL_MMIO_LITTLE_ENDIAN, &val)''), (''test_ocxl_mmio_read32'', 749, ''good'')) z (\<lambda>little z.
            ASSERTS [
                ((''test_ocxl_mmio_read32'', 752, ''4 == le32toh(little)''), 4 = le32toh K little),
                ((''test_ocxl_mmio_read32'', 753, ''big != little''), big \<noteq> little)] z (\<lambda>z. do {
              ocxl_mmio_unmap K (the region);
              test_ok z
            })))))
        })
      }) (close_if_open K)"

definition test_ocxl_mmio_read64 :: "'w platform \<Rightarrow> harness \<Rightarrow> ('w, int + harness) prog" where
  "test_ocxl_mmio_read64 K = run_test ''MMIO'' ''ocxl_mmio_read64/write64'' None
     (\<lambda>z. do {
        (rc, afu) \<leftarrow> ocxl_afu_open_from_dev K dummy_dev;
        ASSERT (''test_ocxl_mmio_read64'', 772, ''OCXL_OK == ocxl_afu_open_from_dev(\"/dev/ocxl-test/IBM,Dummy.0001:00:00.1.0\", &afu)'') (rc = OCXL_OK) (fst z, afu) (\<lambda>z. do {
          ocxl_afu_enable_messages OCXL_ERRORS;
          (rc, region) \<leftarrow> ocxl_mmio_map K OCXL_GLOBAL_MMIO;
          ASSERT (''test_ocxl_mmio_read64'', 776, ''OCXL_OK == ocxl_mmio_map(afu, OCXL_GLOBAL_MMIO, &global_mmio)'') (rc = OCXL_OK) z (\<lambda>z.
            round64 K region OCXL_MMIO_BIG_ENDIAN ((''test_ocxl_mmio_read64'', 780, ''OCXL_OK == ocxl_mmio_write64(global_mmio, offset, OCXL_MMIO_BIG_ENDIAN, offset)''), (''test_ocxl_mmio_read64'', 787, ''OCXL_OK == ocxl_mmio_read64(global_mmio, offset, OCXL_MMIO_BIG_ENDIAN, &val)''), (''test_ocxl_mmio_read64'', 793, ''good'')) z (\<lambda>big z.
            ASSERT (''test_ocxl_mmio_read64'', 796, ''8 == be64toh(big)'') (8 = be64toh K big) z (\<lambda>z.
            round64 K region OCXL_MMIO_LITTLE_ENDIAN ((''test_ocxl_mmio_read64'', 799, ''OCXL_OK == ocxl_mmio_write64(global_mmio, offset, OCXL_MMIO_LITTLE_ENDIAN, offset)''), (''test_ocxl_mmio_read64'', 804, ''OCXL_OK == ocxl_mmio_read64(global_mmio, offset, OCXL_MMIO_LITTLE_ENDIAN, &val)''), (''test_ocxl_mmio_read64'', 810, ''good'')) z (\<lambda>little z.
            ASSERTS [
                ((''test_ocxl_mmio_read64'', 813, ''8 == le64toh(little)''), 8 = le64toh K little),
                ((''test_ocxl_mmio_read64'', 815, ''big != little''), big \<noteq> little)] z (\<lambda>z. do {
              ocxl_mmio_unmap K (the region);
              test_ok z
            })))))
        })
      })
     (\<lambda>afu. do { messages_of afu OCXL_ERRORS; close_if_open K afu })"

section \<open>Events\<close>

definition force_fault :: "'w platform \<Rightarrow> 'w unit_host \<Rightarrow> ('w, unit) prog" where
  "force_fault K U = modify (\<lambda>s. s\<lparr>wld := u_set_device U
     (force_translation_fault K 0xfeeddeadbeeff00d 0x123456789abcdef0 16 (u_device U (wld s))) (wld s)\<rparr>)"

definition fault_of :: "ocxl_event option \<Rightarrow> ocxl_event_translation_fault option" where
  "fault_of ev = (case ev of Some (OCXL_EVENT_TRANSLATION_FAULT f) \<Rightarrow> Some f | _ \<Rightarrow> None)"

text \<open>The checks of one forced fault; the one of \<open>dsisr\<close> is compiled for PPC64 only. The local
  variable \<open>event\<close> keeps its value when an action other than success is returned, and is read
  only behind the checks of the action.\<close>

definition expect_fault ::
  "'w platform \<Rightarrow> 'w unit_host \<Rightarrow> place list \<Rightarrow> harness \<times> 'x \<Rightarrow>
   (harness \<times> 'x \<Rightarrow> ('w, harness \<times> 'x) prog) \<Rightarrow> ('w, harness \<times> 'x) prog" where
  "expect_fault K U ps z k = do {
     force_fault K U;
     (act, ev, last_event) \<leftarrow> read_afu_event K 0;
     let f = fault_of ev;
     ASSERTS ([
         (ps ! 0, act = OCXL_EVENT_ACTION_SUCCESS),
         (ps ! 1, last_event),
         (ps ! 2, f \<noteq> None),
         (ps ! 3, tf_addr (the f) = 0xfeeddeadbeeff00d)] @
         (if arch_ppc64 K then [(ps ! 4, tf_dsisr (the f) = 0x123456789abcdef0)] else []) @ [
         (ps ! 5, tf_count (the f) = 16)]) z k
   }"

definition expect_nothing ::
  "'w platform \<Rightarrow> place list \<Rightarrow> harness \<times> 'x \<Rightarrow> (harness \<times> 'x \<Rightarrow> ('w, harness \<times> 'x) prog) \<Rightarrow>
   ('w, harness \<times> 'x) prog" where
  "expect_nothing K ps z k = do {
     (act, ev, last_event) \<leftarrow> read_afu_event K 0;
     ASSERTS [
         (ps ! 0, act = OCXL_EVENT_ACTION_NONE),
         (ps ! 1, last_event)] z k
   }"

definition test_read_afu_event :: "'w platform \<Rightarrow> 'w unit_host \<Rightarrow> harness \<Rightarrow> ('w, int + harness) prog" where
  "test_read_afu_event K U = run_test ''IRQ'' ''read_afu_event'' None
     (\<lambda>z. do {
        (rc, afu) \<leftarrow> ocxl_afu_open_from_dev K dummy_dev;
        ASSERT (''test_read_afu_event'', 836, ''OCXL_OK == ocxl_afu_open_from_dev(\"/dev/ocxl-test/IBM,Dummy.0001:00:00.1.0\", &afu)'') (rc = OCXL_OK) (fst z, afu) (\<lambda>z. do {
          ocxl_afu_enable_messages OCXL_ERRORS;
          rc \<leftarrow> ocxl_afu_attach K OCXL_ATTACH_FLAGS_NONE;
          ASSERT (''test_read_afu_event'', 838, ''OCXL_OK == ocxl_afu_attach(afu, OCXL_ATTACH_FLAGS_NONE)'') (rc = OCXL_OK) z (\<lambda>z.
            expect_nothing K [
                (''test_read_afu_event'', 843, ''OCXL_EVENT_ACTION_NONE == read_afu_event(my_afu, 0, &event, &last)''),
                (''test_read_afu_event'', 844, ''last'')] z (\<lambda>z.
            expect_fault K U [
                (''test_read_afu_event'', 853, ''OCXL_EVENT_ACTION_SUCCESS == read_afu_event(my_afu, 0, &event, &last)''),
                (''test_read_afu_event'', 854, ''last''),
                (''test_read_afu_event'', 855, ''event.type == OCXL_EVENT_TRANSLATION_FAULT''),
                (''test_read_afu_event'', 856, ''event.translation_fault.addr == (void *)0xfeeddeadbeeff00d''),
                (''test_read_afu_event'', 858, ''event.translation_fault.dsisr == 0x123456789abcdef0''),
                (''test_read_afu_event'', 860, ''event.translation_fault.count == 16'')] z (\<lambda>z.
            expect_fault K U [
                (''test_read_afu_event'', 869, ''OCXL_EVENT_ACTION_SUCCESS == read_afu_event(my_afu, 0, &event, &last)''),
                (''test_read_afu_event'', 870, ''last''),
                (''test_read_afu_event'', 871, ''event.type == OCXL_EVENT_TRANSLATION_FAULT''),
                (''test_read_afu_event'', 872, ''event.translation_fault.addr == (void *)0xfeeddeadbeeff00d''),
                (''test_read_afu_event'', 874, ''event.translation_fault.dsisr == 0x123456789abcdef0''),
                (''test_read_afu_event'', 876, ''event.translation_fault.count == 16'')] z (\<lambda>z.
            expect_nothing K [
                (''test_read_afu_event'', 879, ''OCXL_EVENT_ACTION_NONE == read_afu_event(my_afu, 0, &event, &last)''),
                (''test_read_afu_event'', 880, ''last'')] z test_ok))))
        })
      }) (close_if_open K)"

section \<open>Messages\<close>

text \<open>The two handlers are numbers 1 and 2. \<open>err_buf\<close> is filled by every call of them that
  the library makes; \<open>snprintf\<close> leaves room for the terminator.\<close>

definition copy_to_err_buf :: "ocxl_err \<Rightarrow> string \<Rightarrow> string" where
  "copy_to_err_buf err message = take (MAX_MESSAGE_LENGTH - 1) (ocxl_err_to_string err @ '': '' @ message)"

definition copy_to_err_buf_afu :: "ocxl_afu \<Rightarrow> ocxl_err \<Rightarrow> string \<Rightarrow> string" where
  "copy_to_err_buf_afu a err message = take (MAX_MESSAGE_LENGTH - 1)
     (afu_name (afu_identifier a) @ ''('' @ signed_text (uint (version_major a)) @ '','' @
      signed_text (uint (version_minor a)) @ ''): '' @ ocxl_err_to_string err @ '': '' @ message)"

definition err_buf_after :: "ocxl_afu \<Rightarrow> out_event list \<Rightarrow> string \<Rightarrow> string" where
  "err_buf_after a os buf = foldl (\<lambda>buf ev. case ev of
       Callback h x err message \<Rightarrow>
         if h = 1 then copy_to_err_buf err message
         else if h = 2 then copy_to_err_buf_afu a err message else buf
     | _ \<Rightarrow> buf) buf os"

definition test_ocxl_set_error_message_handler :: "harness \<Rightarrow> ('w, int + harness) prog" where
  "test_ocxl_set_error_message_handler = run_test ''ERR'' ''ocxl_set_error_message_handler'' ()
     (\<lambda>z. do {
        ocxl_set_error_message_handler (UserHandler 1);
        ocxl_enable_messages OCXL_ERRORS;
        n \<leftarrow> gets (\<lambda>s. length (outs s));
        errmsg NoAFU OCXL_INTERNAL_ERROR ''%s'' [FStr ''error message test''];
        err_buf \<leftarrow> gets (\<lambda>s. err_buf_after (cur_afu s) (drop n (outs s)) []);
        ASSERT (''test_ocxl_set_error_message_handler'', 952, ''!strcmp(\"Internal error: error message test\", err_buf)'') (err_buf = ''Internal error: error message test'') z test_ok
      }) (\<lambda>_. ocxl_set_error_message_handler DefaultHandler)"

definition test_ocxl_set_afu_error_message_handler :: "'w platform \<Rightarrow> harness \<Rightarrow> ('w, int + harness) prog" where
  "test_ocxl_set_afu_error_message_handler K = run_test ''ERR'' ''ocxl_set_afu_error_message_handler'' None
     (\<lambda>z. do {
        (rc, afu) \<leftarrow> ocxl_afu_open_from_dev K dummy_dev;
        ASSERT (''test_ocxl_set_afu_error_message_handler'', 979, ''OCXL_OK == ocxl_afu_open_from_dev(\"/dev/ocxl-test/IBM,Dummy.0001:00:00.1.0\", &afu)'') (rc = OCXL_OK) (fst z, afu) (\<lambda>z. do {
          ocxl_afu_set_error_message_handler (UserHandler 2);
          ocxl_afu_enable_messages OCXL_ERRORS;
          n \<leftarrow> gets (\<lambda>s. length (outs s));
          errmsg ThisAFU OCXL_INTERNAL_ERROR ''%s'' [FStr ''error message test''];
          err_buf \<leftarrow> gets (\<lambda>s. err_buf_after (cur_afu s) (drop n (outs s)) []);
          ASSERT (''test_ocxl_set_afu_error_message_handler'', 988, ''!strcmp(\"IBM,Dummy(5,10): Internal error: error message test\", err_buf)'') (err_buf = ''IBM,Dummy(5,10): Internal error: error message test'') z test_ok
        })
      }) (close_if_open K)"

section \<open>The program\<close>

text \<open>The handler that \<open>main\<close> calls when the tests are done.\<close>

definition exit_handler :: "'w virt_host \<Rightarrow> 'w unit_host \<Rightarrow> u64 \<Rightarrow> ('w, unit) prog" where
  "exit_handler V U afu_thread = whenM (afu_thread \<noteq> 0) (do {
     d \<leftarrow> gets (\<lambda>s. u_device U (wld s));
     stop_afu V d;
     sys (u_kill_and_join U afu_thread);
     d \<leftarrow> gets (\<lambda>s. u_device U (wld s));
     d \<leftarrow> term_afu V d;
     modify (\<lambda>s. s\<lparr>wld := u_set_device U d (wld s)\<rparr>)
   })"

fun run_all :: "(harness \<Rightarrow> ('w, int + harness) prog) list \<Rightarrow> harness \<Rightarrow> ('w, int + harness) prog" where
  "run_all [] T = State_Monad.return (Inr T)"
| "run_all (t # ts) T = do {
     r \<leftarrow> t T;
     (case r of Inl e \<Rightarrow> State_Monad.return (Inl e) | Inr T \<Rightarrow> run_all ts T)
   }"

definition tests_without_device :: "'w platform \<Rightarrow> 'w unit_host \<Rightarrow> ocxl_afu \<Rightarrow> (harness \<Rightarrow> ('w, int + harness) prog) list" where
  "tests_without_device K U filled = [test_afu_init K filled, test_ocxl_afu_alloc K, test_device_matches K U]"

definition tests_with_device :: "'w platform \<Rightarrow> 'w unit_host \<Rightarrow> (harness \<Rightarrow> ('w, int + harness) prog) list" where
  "tests_with_device K U = [
     test_populate_metadata K, test_afu_getters K, test_get_afu_by_path K U, test_afu_open K,
     test_ocxl_afu_open_specific K, test_ocxl_afu_open_from_dev K, test_ocxl_afu_open K,
     test_ocxl_afu_attach K U, test_ocxl_afu_close K,
     test_ocxl_set_error_message_handler, test_ocxl_set_afu_error_message_handler K,
     test_ocxl_mmio_map K, test_mmio_check K, test_ocxl_mmio_read32_native K, test_ocxl_mmio_read64_native K,
     test_ocxl_mmio_read32 K, test_ocxl_mmio_read64 K, test_read_afu_event K U]"

text \<open>From the start to the first three tests, which need no device.\<close>

definition unit_begin :: "'w platform \<Rightarrow> 'w virt_host \<Rightarrow> 'w unit_host \<Rightarrow> ocxl_afu \<Rightarrow> ('w, int + harness) prog" where
  "unit_begin K V U filled = do {
     sys (u_sigaction U);
     ocxl_set_sys_path (Some ocxl_sysfs_path);
     ocxl_set_dev_path (Some ocxl_dev_path);
     ocxl_enable_messages OCXL_ERRORS;
     missing \<leftarrow> sys (v_stat V ocxl_sysfs_path);
     whenM (missing \<noteq> 0) (do {
       rc \<leftarrow> sys (v_mkdir V ocxl_sysfs_path 0x1FD);
       whenM (rc \<noteq> 0) (complain K ''mkdir'' ocxl_sysfs_path)
     });
     run_all (tests_without_device K U filled) []
   }"

text \<open>The exit status, and the tests that were run.\<close>

definition unit_main :: "'w platform \<Rightarrow> 'w virt_host \<Rightarrow> 'w unit_host \<Rightarrow> ocxl_afu \<Rightarrow> ('w, int \<times> harness) prog" where
  "unit_main K V U filled = do {
     r \<leftarrow> unit_begin K V U filled;
     (case r of
        Inl e \<Rightarrow> State_Monad.return (e, [])
      | Inr T \<Rightarrow> do {
          c \<leftarrow> create_afu K V U;
          (case c of
             Inl e \<Rightarrow> State_Monad.return (e, T)
           | Inr afu_thread \<Rightarrow> do {
               sys (u_sleep U 1);
               r \<leftarrow> run_all (tests_with_device K U) T;
               (case r of
                  Inl e \<Rightarrow> State_Monad.return (e, T)
                | Inr T \<Rightarrow> do {
                    exit_handler V U afu_thread;
                    failed \<leftarrow> test_report T;
                    State_Monad.return (if failed then 1 else 0, T)
                  })
             })
        })
   }"

end
