(* ===== verification/Unit_Verdict.thy ===== *)
theory Unit_Verdict
  imports Unit_Tests
begin

text \<open>
  What the program of the unit tests reports: that every test it starts ends with success or failure
  and is counted, whatever the library and the platform do, and that the exit status says whether all
  of them passed. The calculus \<open>settles\<close> follows a test from check to check.
\<close>

section \<open>Every test is counted\<close>

text \<open>The current test has this suite and name, and \<open>T\<close> are the tests before it.\<close>

definition current :: "harness \<Rightarrow> string \<times> string \<Rightarrow> harness \<times> 'x \<Rightarrow> bool" where
  "current T nm z \<longleftrightarrow> (\<exists>t. fst z = T @ [t] \<and> (t_suite t, t_name t) = nm)"

text \<open>The rest of a test stops the current test, with success or with failure, and leaves the tests
  before it as they are.\<close>

definition settles :: "harness \<Rightarrow> string \<times> string \<Rightarrow> ('w, harness \<times> 'x) prog \<Rightarrow> bool" where
  "settles T nm m \<longleftrightarrow> (\<forall>s. wp m (\<lambda>z' s'. current T nm z' \<and> t_state (last (fst z')) \<in> {SUCCESS, FAIL}) s)"

named_theorems settles_intros \<open>the rest of a test, up to its label\<close>

lemma current_pair [settles_intros]: "current T nm z \<Longrightarrow> current T nm (fst z, x)"
  by (simp add: current_def)

lemma current_counted: "current T nm z \<Longrightarrow> current T nm (counted n z)"
  by (auto simp: current_def counted_def)

lemma current_nonempty: "current T nm z \<Longrightarrow> fst z \<noteq> []"
  by (auto simp: current_def)

lemma settles_bind [settles_intros]:
  assumes "\<And>a. settles T nm (f a)"
  shows "settles T nm (State_Monad.bind m f)"
  unfolding settles_def wp_bind using assms by (auto simp: settles_def wp_iff)

lemma settles_stop:
  assumes "current T nm z" "ts = SUCCESS \<or> ts = FAIL"
  shows "settles T nm (do { T' \<leftarrow> test_stop ts (fst z); State_Monad.return (T', snd z) })"
  unfolding settles_def wp_bind
  by (intro allI wp_mono [OF wp_test_stop [OF current_nonempty [OF assms(1)]]])
    (use assms in \<open>auto simp: wp_return current_def\<close>)

lemma settles_failed: "current T nm z \<Longrightarrow> settles T nm (assertion_failed p z)"
  unfolding assertion_failed_def by (intro settles_bind settles_stop) simp_all

lemma settles_ok [settles_intros]: "current T nm z \<Longrightarrow> settles T nm (test_ok z)"
  unfolding test_ok_def by (intro settles_stop) simp_all

lemma settles_ASSERT [settles_intros]:
  "current T nm z \<Longrightarrow> (\<And>z. current T nm z \<Longrightarrow> settles T nm (k z)) \<Longrightarrow> settles T nm (ASSERT p b z k)"
  unfolding ASSERT_def by (cases b) (simp_all add: settles_failed current_counted)

lemma settles_ASSERTS [settles_intros]:
  "current T nm z \<Longrightarrow> (\<And>z. current T nm z \<Longrightarrow> settles T nm (k z)) \<Longrightarrow> settles T nm (ASSERTS cs z k)"
  by (induction cs arbitrary: z) (auto intro: settles_ASSERT)

lemma settles_prod [settles_intros]:
  "(\<And>a b. settles T nm (f a b)) \<Longrightarrow> settles T nm (case p of (a, b) \<Rightarrow> f a b)"
  by (cases p) simp

lemma settles_Let [settles_intros]: "(\<And>a. settles T nm (f a)) \<Longrightarrow> settles T nm (let a = e in f a)"
  by (simp add: Let_def)

lemma settles_write_loop [settles_intros]:
  "current T nm z \<Longrightarrow> (\<And>z. current T nm z \<Longrightarrow> settles T nm (k z)) \<Longrightarrow> settles T nm (write_loop p wr offs z k)"
  by (induction p wr offs z k rule: write_loop.induct) (auto intro!: settles_bind settles_ASSERT)

lemma settles_read_loop [settles_intros]:
  "current T nm z \<Longrightarrow> (\<And>good z. current T nm z \<Longrightarrow> settles T nm (k good z)) \<Longrightarrow> settles T nm (read_loop p rd ex offs z k)"
proof (induction offs arbitrary: z)
  case (Cons off offs)
  show ?case
    unfolding read_loop.simps
    by (intro settles_bind settles_prod settles_ASSERT Cons.prems(1)) (auto intro: Cons)
qed simp

lemma settles_rounds [settles_intros]:
  "current T nm z \<Longrightarrow> (\<And>v z. current T nm z \<Longrightarrow> settles T nm (k v z)) \<Longrightarrow> settles T nm (round32 K h e ps z k)"
  "current T nm z \<Longrightarrow> (\<And>v z. current T nm z \<Longrightarrow> settles T nm (k' v z)) \<Longrightarrow> settles T nm (round64 K h e ps z k')"
  unfolding round32_def round64_def by (auto intro!: settles_intros split: prod.split)

lemma settles_expect [settles_intros]:
  "current T nm z \<Longrightarrow> (\<And>z. current T nm z \<Longrightarrow> settles T nm (k z)) \<Longrightarrow> settles T nm (expect_fault K U ps z k)"
  "current T nm z \<Longrightarrow> (\<And>z. current T nm z \<Longrightarrow> settles T nm (k z)) \<Longrightarrow> settles T nm (expect_nothing K ps z k)"
  unfolding expect_fault_def expect_nothing_def by (intro settles_intros; assumption)+

text \<open>A test that settles adds one test to the harness, under its name.\<close>

definition adds :: "string \<times> string \<Rightarrow> (harness \<Rightarrow> ('w, int + harness) prog) \<Rightarrow> bool" where
  "adds nm f \<longleftrightarrow> (\<forall>T s. wp (f T) (\<lambda>r s'. case r of Inl e \<Rightarrow> e = 1 \<and> length T = MAX_TESTS
     | Inr T' \<Rightarrow> \<exists>t. T' = T @ [t] \<and> t_state t \<in> {SUCCESS, FAIL} \<and>
         t_suite t = c_strncpy (fst nm) (SUITE_NAME_LEN + 1) \<and> t_name t = c_strncpy (snd nm) (TEST_NAME_LEN + 1)) s)"

lemma adds_run_test:
  assumes "\<And>T nm z. current T nm z \<Longrightarrow> settles T nm (body z)"
  shows "adds (suite, nm) (run_test suite nm x body label_end)"
  unfolding adds_def run_test_def
proof (intro allI)
  fix T :: harness and s :: "'b st"
  let ?t = "fresh_test suite nm"
  have body: "settles T (t_suite ?t, t_name ?t) (body (T @ [?t], x))"
    by (rule assms) (simp add: current_def)
  have rest: "wp (body (T @ [?t], x)) (\<lambda>z'. wp (case z' of (T, x) \<Rightarrow> do { label_end x; State_Monad.return (Inr T) })
      (\<lambda>r s'. case r of Inl e \<Rightarrow> e = 1 \<and> length T = MAX_TESTS
        | Inr T' \<Rightarrow> \<exists>t. T' = T @ [t] \<and> t_state t \<in> {SUCCESS, FAIL} \<and>
            t_suite t = c_strncpy (fst (suite, nm)) (SUITE_NAME_LEN + 1) \<and>
            t_name t = c_strncpy (snd (suite, nm)) (TEST_NAME_LEN + 1))) s1" for s1
    by (rule wp_mono [OF body [unfolded settles_def, rule_format]])
      (auto simp: current_def fresh_test_def wp_simps wp_iff [of "label_end _"])
  show "wp (do { r \<leftarrow> test_start suite nm T;
      (case r of Inl e \<Rightarrow> State_Monad.return (Inl e)
       | Inr T \<Rightarrow> do { (T, x) \<leftarrow> body (T, x); label_end x; State_Monad.return (Inr T) }) })
    (\<lambda>r s'. case r of Inl e \<Rightarrow> e = 1 \<and> length T = MAX_TESTS
        | Inr T' \<Rightarrow> \<exists>t. T' = T @ [t] \<and> t_state t \<in> {SUCCESS, FAIL} \<and>
            t_suite t = c_strncpy (fst (suite, nm)) (SUITE_NAME_LEN + 1) \<and>
            t_name t = c_strncpy (snd (suite, nm)) (TEST_NAME_LEN + 1)) s"
    unfolding wp_bind [of "test_start suite nm T"]
    by (rule wp_mono [OF wp_test_start]) (use rest in \<open>auto simp: wp_return wp_bind [of "body _"]\<close>)
qed

lemma adds_tests:
  "adds (''AFU'', ''init'') (test_afu_init K filled)"
  "adds (''AFU'', ''ocxl_afu_alloc'') (test_ocxl_afu_alloc K)"
  "adds (''AFU'', ''device_matches'') (test_device_matches K U)"
  "adds (''AFU'', ''populate_metadata'') (test_populate_metadata K)"
  "adds (''AFU'', ''getters'') (test_afu_getters K)"
  "adds (''AFU'', ''get_afu_by_path'') (test_get_afu_by_path K U)"
  "adds (''AFU'', ''afu_open'') (test_afu_open K)"
  "adds (''AFU'', ''ocxl_afu_open_specific'') (test_ocxl_afu_open_specific K)"
  "adds (''AFU'', ''ocxl_afu_open_from_dev'') (test_ocxl_afu_open_from_dev K)"
  "adds (''AFU'', ''ocxl_afu_open'') (test_ocxl_afu_open K)"
  "adds (''AFU'', ''ocxl_afu_attach'') (test_ocxl_afu_attach K U)"
  "adds (''AFU'', ''ocxl_afu_close'') (test_ocxl_afu_close K)"
  "adds (''ERR'', ''ocxl_set_error_message_handler'') test_ocxl_set_error_message_handler"
  "adds (''ERR'', ''ocxl_set_afu_error_message_handler'') (test_ocxl_set_afu_error_message_handler K)"
  "adds (''MMIO'', ''ocxl_mmio_map/unmap'') (test_ocxl_mmio_map K)"
  "adds (''MMIO'', ''mmio_check'') (test_mmio_check K)"
  "adds (''MMIO'', ''ocxl_mmio_read32/write32_native'') (test_ocxl_mmio_read32_native K)"
  "adds (''MMIO'', ''ocxl_mmio_read64/write64_native'') (test_ocxl_mmio_read64_native K)"
  "adds (''MMIO'', ''ocxl_mmio_read32/write32'') (test_ocxl_mmio_read32 K)"
  "adds (''MMIO'', ''ocxl_mmio_read64/write64'') (test_ocxl_mmio_read64 K)"
  "adds (''IRQ'', ''read_afu_event'') (test_read_afu_event K U)"
  unfolding test_afu_init_def test_ocxl_afu_alloc_def test_device_matches_def test_populate_metadata_def
    test_afu_getters_def test_get_afu_by_path_def Let_def [of "''/tmp/ocxl-test-symlink''"] test_afu_open_def test_ocxl_afu_open_specific_def
    test_ocxl_afu_open_from_dev_def test_ocxl_afu_open_def test_ocxl_afu_attach_def test_ocxl_afu_close_def
    test_ocxl_set_error_message_handler_def test_ocxl_set_afu_error_message_handler_def
    test_ocxl_mmio_map_def test_mmio_check_def test_ocxl_mmio_read32_native_def test_ocxl_mmio_read64_native_def
    test_ocxl_mmio_read32_def test_ocxl_mmio_read64_def test_read_afu_event_def
  by ((rule adds_run_test, (intro settles_intros; assumption))+)

text \<open>Tests run one after the other.\<close>

definition named :: "(string \<times> string) list \<Rightarrow> harness \<Rightarrow> bool" where
  "named nms T \<longleftrightarrow> map t_suite T = map (\<lambda>n. c_strncpy (fst n) (SUITE_NAME_LEN + 1)) nms \<and>
     map t_name T = map (\<lambda>n. c_strncpy (snd n) (TEST_NAME_LEN + 1)) nms \<and> (\<forall>t \<in> set T. t_state t \<in> {SUCCESS, FAIL})"

lemma named_append: "named xs T \<Longrightarrow> named ys T' \<Longrightarrow> named (xs @ ys) (T @ T')"
  by (auto simp: named_def)

lemma run_all_named:
  assumes "list_all2 adds nms fs" "length T + length fs \<le> MAX_TESTS"
  shows "wp (run_all fs T) (\<lambda>r s'. \<exists>T'. r = Inr (T @ T') \<and> named nms T') s"
  using assms
proof (induction arbitrary: T s rule: list_all2_induct)
  case Nil
  then show ?case by (simp add: wp_simps named_def)
next
  case (Cons nm nms f fs)
  have "wp (run_all fs (T @ [t])) (\<lambda>r s'. \<exists>T'. r = Inr (T @ T') \<and> named (nm # nms) T') s1"
    if "named [nm] [t]" for t s1
  proof (rule wp_mono [OF Cons.IH])
    show "length (T @ [t]) + length fs \<le> MAX_TESTS" using Cons.prems by simp
    fix r s' assume "\<exists>T'. r = Inr ((T @ [t]) @ T') \<and> named nms T'"
    then show "\<exists>T'. r = Inr (T @ T') \<and> named (nm # nms) T'" using named_append [OF that] by auto
  qed
  then show ?case
    unfolding run_all.simps wp_bind
    by (intro wp_mono [OF Cons.hyps(1) [unfolded adds_def, rule_format]])
      (use Cons.prems in \<open>auto simp: named_def split: sum.splits\<close>)
qed

definition test_names :: "(string \<times> string) list" where
  "test_names = [(''AFU'', ''init''), (''AFU'', ''ocxl_afu_alloc''), (''AFU'', ''device_matches''),
     (''AFU'', ''populate_metadata''), (''AFU'', ''getters''), (''AFU'', ''get_afu_by_path''), (''AFU'', ''afu_open''),
     (''AFU'', ''ocxl_afu_open_specific''), (''AFU'', ''ocxl_afu_open_from_dev''), (''AFU'', ''ocxl_afu_open''),
     (''AFU'', ''ocxl_afu_attach''), (''AFU'', ''ocxl_afu_close''), (''ERR'', ''ocxl_set_error_message_handler''),
     (''ERR'', ''ocxl_set_afu_error_message_handler''), (''MMIO'', ''ocxl_mmio_map/unmap''), (''MMIO'', ''mmio_check''),
     (''MMIO'', ''ocxl_mmio_read32/write32_native''), (''MMIO'', ''ocxl_mmio_read64/write64_native''),
     (''MMIO'', ''ocxl_mmio_read32/write32''), (''MMIO'', ''ocxl_mmio_read64/write64''), (''IRQ'', ''read_afu_event'')]"

lemma tests_named:
  "list_all2 adds (take 3 test_names) (tests_without_device K U filled)"
  "list_all2 adds (drop 3 test_names) (tests_with_device K U)"
  by (simp_all add: test_names_def tests_without_device_def tests_with_device_def adds_tests)

lemma unit_tail:
  assumes "named (take 3 test_names) T"
  shows "wp (run_all (tests_with_device K U) T) (\<lambda>r s'. \<exists>T'. r = Inr T' \<and> named test_names T') s"
proof -
  have "length T = 3" using assms map_eq_imp_length_eq [of t_name T] by (auto simp: named_def test_names_def)
  then have room: "length T + length (tests_with_device K U) \<le> MAX_TESTS"
    by (simp add: tests_with_device_def MAX_TESTS_def)
  show ?thesis
    by (rule wp_mono [OF run_all_named [OF tests_named(2) room]])
      (metis append_take_drop_id assms named_append)
qed

text \<open>The names of the tests that were run, in order, and what each has come to.\<close>

definition ran :: "(string \<times> string) list \<Rightarrow> harness \<Rightarrow> bool" where
  "ran nms T \<longleftrightarrow> map t_name T = map (\<lambda>n. c_strncpy (snd n) (TEST_NAME_LEN + 1)) nms \<and>
     list_all (\<lambda>t. t_state t = SUCCESS \<or> t_state t = FAIL) T"

lemma named_ran: "named nms T \<Longrightarrow> ran nms T"
  by (simp add: named_def ran_def list_all_iff)

text \<open>All tests, when there is a device: whatever a step does.\<close>

definition verdict :: "int \<times> harness \<Rightarrow> bool" where
  "verdict r \<longleftrightarrow> (case r of (status, T) \<Rightarrow> ran test_names T \<and>
     status = (if list_all (\<lambda>t. t_state t = SUCCESS) T then 0 else 1))"

lemma report_gives_verdict:
  assumes "named test_names T"
  shows "wp (do { failed \<leftarrow> test_report T; State_Monad.return (if failed then 1 else 0, T) }) (\<lambda>r s'. verdict r) s"
proof -
  have all: "(\<exists>t \<in> set T. is_failure (t_state t)) \<longleftrightarrow> \<not> list_all (\<lambda>t. t_state t = SUCCESS) T"
    using assms by (force simp: named_def is_failure_iff list_all_iff)
  have r: "wp (test_report T) (\<lambda>r s'. r = (\<exists>t \<in> set T. is_failure (t_state t))) s"
    unfolding test_report_def
    by (intro wp_after, simp only: wp_case_prod split: prod.split, intro allI impI, rule wp_mono [OF report_tests_spec]) simp
  show ?thesis
    unfolding wp_bind
    by (rule wp_mono [OF r [unfolded all]]) (use named_ran [OF assms] in \<open>simp add: wp_return verdict_def\<close>)
qed

lemma create_afu_status: "wp (create_afu K V U) (\<lambda>r s'. \<forall>e. r = Inl e \<longrightarrow> e = 1) s"
  unfolding create_afu_def Let_def
  by (intro wp_after) (auto simp: wp_simps wp_call)

lemma device_tests_verdict:
  assumes T: "named (take 3 test_names) T"
  shows "wp (do {
      sys (u_sleep U 1);
      r \<leftarrow> run_all (tests_with_device K U) T;
      (case r of Inl e \<Rightarrow> State_Monad.return (e, T)
       | Inr T \<Rightarrow> do { exit_handler V U thr; failed \<leftarrow> test_report T; State_Monad.return (if failed then 1 else 0, T) })
    }) (\<lambda>r s'. verdict r) s"
proof -
  have last: "wp (do { exit_handler V U thr; failed \<leftarrow> test_report T;
      State_Monad.return (if failed then 1 else 0, T) }) (\<lambda>r s'. verdict r) s1" if "named test_names T" for T s1
    by (rule wp_after, rule report_gives_verdict [OF that])
  have tested: "wp (run_all (tests_with_device K U) T) (\<lambda>r. wp (case r of Inl e \<Rightarrow> State_Monad.return (e, T)
      | Inr T \<Rightarrow> do { exit_handler V U thr; failed \<leftarrow> test_report T; State_Monad.return (if failed then 1 else 0, T) })
      (\<lambda>r s'. verdict r)) s1" for s1
    by (rule wp_mono [OF unit_tail [OF T]]) (use last in auto)
  show ?thesis by (rule wp_after, unfold wp_bind [of "run_all _ _"], rule tested)
qed

lemma unit_begin_named: "wp (unit_begin K V U filled) (\<lambda>r s'. \<exists>T. r = Inr T \<and> named (take 3 test_names) T) s"
proof -
  have room: "length [] + length (tests_without_device K U filled) \<le> MAX_TESTS"
    by (simp add: tests_without_device_def MAX_TESTS_def)
  show ?thesis
    unfolding unit_begin_def
    by (rule wp_after, rule wp_after, rule wp_after, rule wp_after, rule wp_after, rule wp_after,
        rule wp_mono [OF run_all_named [OF tests_named(1) room]]) simp
qed

section \<open>Properties\<close>

text \<open>C20: the unit tests cannot lose a test. Whatever the platform does, the program runs the three tests that
  need no device and then makes the virtual device. When that fails it stops there with status 1. When it
  succeeds, all 21 tests are run, in order, and the exit status is 0 exactly when every one of them
  ended with success. Each test that is run ends with success or with failure. (The names that the report prints
  are not all terminated; the undefined behaviour is recorded, and the report taken to go on.)\<close>

theorem unit_main_verdict:
  "wp (unit_main K V U filled) (\<lambda>(status, T) s'.
     list_all (\<lambda>t. t_state t = SUCCESS \<or> t_state t = FAIL) T \<and>
     (case fst (run_state (create_afu K V U) (snd (run_state (unit_begin K V U filled) s))) of
        Inl e \<Rightarrow> status = 1 \<and> map t_name T = map (\<lambda>n. c_strncpy (snd n) (TEST_NAME_LEN + 1)) (take 3 test_names)
      | Inr afu_thread \<Rightarrow> map t_name T = map (\<lambda>n. c_strncpy (snd n) (TEST_NAME_LEN + 1)) test_names \<and>
          status = (if list_all (\<lambda>t. t_state t = SUCCESS) T then 0 else 1))) s"
proof -
  obtain T s1 where T: "run_state (unit_begin K V U filled) s = (Inr T, s1)" "named (take 3 test_names) T"
    using unit_begin_named [of K V U filled s] by (auto simp: wp_def split: prod.splits)
  obtain c s2 where c: "run_state (create_afu K V U) s1 = (c, s2)" by fastforce
  have step: "wp (unit_main K V U filled) Q s = wp (case c of Inl e \<Rightarrow> State_Monad.return (e, T)
      | Inr thr \<Rightarrow> do {
          sys (u_sleep U 1);
          r \<leftarrow> run_all (tests_with_device K U) T;
          (case r of Inl e \<Rightarrow> State_Monad.return (e, T)
           | Inr T \<Rightarrow> do { exit_handler V U thr; failed \<leftarrow> test_report T; State_Monad.return (if failed then 1 else 0, T) })
        }) Q s2" for Q
    unfolding unit_main_def wp_bind [of "unit_begin _ _ _ _"] wp_def [of "unit_begin _ _ _ _"] T(1) prod.case sum.case
      wp_bind [of "create_afu _ _ _"] wp_def [of "create_afu _ _ _"] c ..
  have made: "fst (run_state (create_afu K V U) (snd (run_state (unit_begin K V U filled) s))) = c"
    by (simp add: T(1) c)
  show ?thesis
  proof (cases c)
    case (Inl e)
    with wpD [OF create_afu_status c] have "e = 1" by simp
    with named_ran [OF T(2)] show ?thesis unfolding step made Inl sum.case by (simp add: wp_return ran_def)
  next
    case (Inr thr)
    show ?thesis
      unfolding step made Inr sum.case
      by (rule wp_mono [OF device_tests_verdict [OF T(2)]]) (auto simp: verdict_def ran_def)
  qed
qed

end
