(* ===== verification/Unit_Mmio.thy ===== *)
theory Unit_Mmio
  imports Unit_Verdict
begin

text \<open>
  The four tests of the register accessors pass on memory. The locale \<open>register_code\<close> states
  what a pair of accessors of one width promises about the bytes in memory; the round that writes every
  register of a region and then reads them all back is followed once, in the locale, and the six pairs
  the tests use are its interpretations.
\<close>

section \<open>A round of writing and reading\<close>

text \<open>The AFU with a region of the tests' size, reached through the handle.\<close>

definition at_region :: "ocxl_afu \<Rightarrow> block \<times> nat \<Rightarrow> ocxl_mmio_area \<Rightarrow> 'w st \<Rightarrow> bool" where
  "at_region a h m s \<longleftrightarrow> cur_afu s = a \<and> mmio_deref a h = Some m \<and> mm_start m \<noteq> 0 \<and>
     mm_length m = of_nat GLOBAL_MMIO_SIZE"

lemma unat_of_small: "n < 2 ^ 64 \<Longrightarrow> unat (of_nat n :: u64) = n"
  by (simp add: unat_of_nat)

lemma at_region_access:
  assumes "at_region a h m s" "1 \<le> width" "off + width \<le> GLOBAL_MMIO_SIZE"
  shows "access_pre s h m (of_nat off) (of_nat width)"
proof -
  have small: "off < 2 ^ 64" "width < 2 ^ 64" "GLOBAL_MMIO_SIZE < 2 ^ 64"
    using assms(3) by (simp_all add: GLOBAL_MMIO_SIZE_def)
  have len: "unat (mm_length m) = GLOBAL_MMIO_SIZE"
    using assms(1) unat_of_small [OF small(3)] by (simp add: at_region_def)
  have u: "uint (of_nat k :: u64) = int k" if "k < 2 ^ 64" for k
    using unat_of_small [OF that] by (simp add: uint_nat)
  have "access_ok m (of_nat off) (of_nat width) \<longleftrightarrow> unat (of_nat off :: u64) + unat (of_nat width :: u64) \<le> unat (mm_length m)"
  proof (rule access_ok_iff)
    show "uint (mm_length m) < 2 ^ 63" using len by (simp add: uint_nat GLOBAL_MMIO_SIZE_def)
    show "1 \<le> uint (of_nat width :: u64)" "uint (of_nat width :: u64) \<le> 2 ^ 62"
      using assms(2,3) by (simp_all add: u [OF small(2)] GLOBAL_MMIO_SIZE_def)
    have "uint (of_nat off :: u64) < 2 ^ 63" using assms(3) by (simp add: u [OF small(1)] GLOBAL_MMIO_SIZE_def)
    then show "0 \<le> sint (of_nat off :: u64)" by (simp add: sint_nonneg_uint)
  qed
  then show ?thesis
    using assms(1,3) len by (simp add: access_pre_def at_region_def unat_of_small [OF small(1)] unat_of_small [OF small(2)])
qed

locale register_code =
  fixes wr :: "'w platform \<Rightarrow> ocxl_mmio_h \<Rightarrow> u64 \<Rightarrow> ('w, ocxl_err) prog"
    and rd :: "'w platform \<Rightarrow> ocxl_mmio_h \<Rightarrow> u64 \<Rightarrow> ('w, ocxl_err \<times> 'v) prog"
    and ex :: "u64 \<Rightarrow> 'v"
    and width :: nat
    and enc :: "'w platform \<Rightarrow> u64 \<Rightarrow> u8 list"
  assumes width: "1 \<le> width" "width \<le> 8"
    and enc_length: "length (enc K offset) = width"
    and writing: "access_pre s h m offset (of_nat width) \<Longrightarrow> wp (wr K (Some h) offset)
      (\<lambda>r s'. r = OCXL_OK \<and> accessed s (os_store K (mm_start m + offset) (enc K offset) (wld s))
         (CStore (mm_start m + offset) (enc K offset)) s') s"
    and reading: "access_pre s h m offset (of_nat width) \<Longrightarrow>
      os_load K (mm_start m + offset) width (wld s) = (enc K offset, w) \<Longrightarrow> wp (rd K (Some h) offset)
      (\<lambda>r s'. r = (OCXL_OK, ex offset) \<and> accessed s w (CLoad (mm_start m + offset) width) s') s"
begin

text \<open>The first \<open>n\<close> registers hold the codes of their offsets.\<close>

definition written :: "'w platform \<Rightarrow> ('w \<Rightarrow> u64 \<Rightarrow> u8) \<Rightarrow> ocxl_mmio_area \<Rightarrow> nat \<Rightarrow> 'w st \<Rightarrow> bool" where
  "written K mem m n s \<longleftrightarrow> (\<forall>i < n. peek (mem (wld s)) (base_at (mm_start m) (width * i)) width =
     enc K (of_nat (width * i)))"

lemma write_step:
  assumes "ram K mem" "at_region a h m s" "written K mem m i s" "width * Suc i \<le> GLOBAL_MMIO_SIZE"
  shows "wp (wr K (Some h) (of_nat (width * i)))
    (\<lambda>r s'. r = OCXL_OK \<and> at_region a h m s' \<and> written K mem m (Suc i) s') s"
proof -
  let ?off = "width * i" and ?m = "mem (wld s)"
  let ?bs = "enc K (of_nat ?off)"
  have small: "?off + width \<le> 2 ^ 64" "?off < 2 ^ 64" using assms(4) by (simp_all add: GLOBAL_MMIO_SIZE_def)
  have pre: "access_pre s h m (of_nat ?off) (of_nat width)"
    using assms(4) by (intro at_region_access [OF assms(2) width(1)]) simp
  have kept: "peek (poke (base_at (mm_start m) ?off) ?bs ?m) (base_at (mm_start m) (width * j)) width =
      enc K (of_nat (width * j))" if "j < Suc i" for j
  proof (cases "j = i")
    case True
    then show ?thesis using small by (simp add: peek_poke_same enc_length)
  next
    case False
    then have "j < i" "width * j + width \<le> ?off" using that mult_le_mono2 [of "Suc j" i width] by auto
    then show ?thesis
      using assms(3) small by (subst peek_poke_other) (auto simp: enc_length written_def)
  qed
  show ?thesis
    by (rule wp_mono [OF writing [OF pre]])
      (use assms(2) kept in \<open>auto simp: accessed_def at_region_def written_def ramD(3) [OF assms(1)] base_at_def\<close>)
qed

lemma read_step:
  assumes "ram K mem" "at_region a h m s" "written K mem m n s" "i < n" "width * Suc i \<le> GLOBAL_MMIO_SIZE"
  shows "wp (rd K (Some h) (of_nat (width * i)))
    (\<lambda>r s'. r = (OCXL_OK, ex (of_nat (width * i))) \<and> at_region a h m s' \<and> written K mem m n s') s"
proof -
  let ?off = "width * i"
  have pre: "access_pre s h m (of_nat ?off) (of_nat width)"
    using assms(5) by (intro at_region_access [OF assms(2) width(1)]) simp
  obtain bs w where l: "os_load K (mm_start m + of_nat ?off) width (wld s) = (bs, w)" by (metis surj_pair)
  have bs: "bs = enc K (of_nat ?off)" "mem w = mem (wld s)"
    using ramD(1,2) [OF assms(1), of "mm_start m + of_nat ?off" width "wld s"] l assms(3,4)
    by (simp_all add: written_def base_at_def)
  show ?thesis
    by (rule wp_mono [OF reading [OF pre l [unfolded bs(1)]]])
      (use assms(2,3) bs(2) in \<open>auto simp: accessed_def at_region_def written_def\<close>)
qed

lemma write_loop_passes:
  assumes "ram K mem" "at_region a h m s" "written K mem m i s" "width * n \<le> GLOBAL_MMIO_SIZE" "i \<le> n" "fst z \<noteq> []"
    and "\<And>s'. at_region a h m s' \<Longrightarrow> written K mem m n s' \<Longrightarrow> wp (k (counted (int (n - i)) z)) Q s'"
  shows "wp (write_loop p (wr K (Some h)) (map (\<lambda>i. of_nat (width * i)) [i..<n]) z k) Q s"
  using assms(2,3,5-7)
proof (induction "n - i" arbitrary: i z s)
  case 0
  then show ?case by (cases z) simp
next
  case (Suc d)
  then have i: "i < n" by simp
  then have le: "width * Suc i \<le> GLOBAL_MMIO_SIZE"
    using assms(4) mult_le_mono2 [of "Suc i" n width] by linarith
  have "wp (write_loop p (wr K (Some h)) (map (\<lambda>i. of_nat (width * i)) [Suc i..<n]) (counted 1 z) k) Q s1"
    if "at_region a h m s1" "written K mem m (Suc i) s1" for s1
  proof (rule Suc.hyps(1))
    show "d = n - Suc i" using Suc.hyps(2) by simp
    show "wp (k (counted (int (n - Suc i)) (counted 1 z))) Q s'"
      if "at_region a h m s'" "written K mem m n s'" for s'
      using Suc.prems(5) [OF that] i by (simp add: of_nat_diff)
  qed (use that i in simp_all)
  then show ?case
    unfolding upt_conv_Cons [OF i] list.map write_loop.simps wp_bind
    by (intro wp_mono [OF write_step [OF assms(1) Suc.prems(1,2) le]]) (simp add: ASSERT_holds)
qed

lemma read_loop_passes:
  assumes "ram K mem" "at_region a h m s" "written K mem m n s" "width * n \<le> GLOBAL_MMIO_SIZE" "i \<le> n" "fst z \<noteq> []"
    and "\<And>s'. at_region a h m s' \<Longrightarrow> written K mem m n s' \<Longrightarrow> wp (k True (counted (int (n - i)) z)) Q s'"
  shows "wp (read_loop p (rd K (Some h)) ex (map (\<lambda>i. of_nat (width * i)) [i..<n]) z k) Q s"
  using assms(2,3,5-7)
proof (induction "n - i" arbitrary: i z s)
  case 0
  then show ?case by (cases z) simp
next
  case (Suc d)
  then have i: "i < n" by simp
  then have le: "width * Suc i \<le> GLOBAL_MMIO_SIZE"
    using assms(4) mult_le_mono2 [of "Suc i" n width] by linarith
  have "wp (read_loop p (rd K (Some h)) ex (map (\<lambda>i. of_nat (width * i)) [Suc i..<n]) (counted 1 z) k) Q s1"
    if "at_region a h m s1" "written K mem m n s1" for s1
  proof (rule Suc.hyps(1))
    show "d = n - Suc i" using Suc.hyps(2) by simp
    show "wp (k True (counted (int (n - Suc i)) (counted 1 z))) Q s'"
      if "at_region a h m s'" "written K mem m n s'" for s'
      using Suc.prems(5) [OF that] i by (simp add: of_nat_diff)
  qed (use that i in simp_all)
  then show ?case
    unfolding upt_conv_Cons [OF i] list.map read_loop.simps wp_bind
    by (intro wp_mono [OF read_step [OF assms(1) Suc.prems(1,2) i le]]) (simp add: ASSERT_holds)
qed

text \<open>All registers are written and read back; the memory still holds their codes.\<close>

lemma round_passes:
  assumes "ram K mem" "at_region a h m s" "fst z \<noteq> []"
    and "\<And>s'. at_region a h m s' \<Longrightarrow> written K mem m (GLOBAL_MMIO_SIZE div width) s' \<Longrightarrow>
      wp (k True (counted (2 * int (GLOBAL_MMIO_SIZE div width)) z)) Q s'"
  shows "wp (write_loop p1 (wr K (Some h)) (offsets width) z
    (\<lambda>z. read_loop p2 (rd K (Some h)) ex (offsets width) z k)) Q s"
proof -
  let ?n = "GLOBAL_MMIO_SIZE div width"
  have n: "width * ?n \<le> GLOBAL_MMIO_SIZE" by simp
  have "wp (read_loop p2 (rd K (Some h)) ex (offsets width) (counted (int ?n) z) k) Q s1"
    if "at_region a h m s1" "written K mem m ?n s1" for s1
    unfolding offsets_def by (rule read_loop_passes [OF assms(1) that n]) (use assms(4) in simp_all)
  then show ?thesis
    unfolding offsets_def [of width] using assms(3)
    by (intro write_loop_passes [OF assms(1,2) _ n]) (simp_all add: written_def offsets_def)
qed

end

section \<open>The accessors of the tests\<close>

lemma native_write_wp:
  "access_pre s h m offset 4 \<Longrightarrow> wp (mmio_write32_native K (Some h) offset v) (\<lambda>r s'. r = OCXL_OK \<and>
     accessed s (os_store K (mm_start m + offset) (native_bytes K 4 v) (wld s)) (CStore (mm_start m + offset) (native_bytes K 4 v)) s') s"
  "access_pre s h m offset 8 \<Longrightarrow> wp (mmio_write64_native K (Some h) offset v') (\<lambda>r s'. r = OCXL_OK \<and>
     accessed s (os_store K (mm_start m + offset) (native_bytes K 8 v') (wld s)) (CStore (mm_start m + offset) (native_bytes K 8 v')) s') s"
  by (auto simp: mmio_write32_native_def mmio_write64_native_def access_pre_def accessed_def wp_simps wp_call
      wp_mmio_check_ok wp_region_ptr)

lemma native_read_wp:
  "access_pre s h m offset 4 \<Longrightarrow> os_load K (mm_start m + offset) 4 (wld s) = (bs, w) \<Longrightarrow>
   wp (mmio_read32_native K (Some h) offset) (\<lambda>r s'. r = (OCXL_OK, native_word K bs) \<and> accessed s w (CLoad (mm_start m + offset) 4) s') s"
  "access_pre s h m offset 8 \<Longrightarrow> os_load K (mm_start m + offset) 8 (wld s) = (bs, w) \<Longrightarrow>
   wp (mmio_read64_native K (Some h) offset) (\<lambda>r s'. r = (OCXL_OK, native_word K bs) \<and> accessed s w (CLoad (mm_start m + offset) 8) s') s"
  by (auto simp: mmio_read32_native_def mmio_read64_native_def access_pre_def accessed_def wp_simps wp_call
      wp_mmio_check_ok wp_region_ptr Let_def)

lemma native_roundtrip:
  "native_word K (native_bytes K 4 (v :: u32)) = v" "native_word K (native_bytes K 8 (v' :: u64)) = v'"
  "length (native_bytes K n x) = n"
  by (simp_all add: native_word_def native_bytes_def word_of_le_bytes_le)

interpretation native32: register_code "\<lambda>K h offset. mmio_write32_native K h offset (ucast offset)"
  mmio_read32_native ucast 4 "\<lambda>K offset. native_bytes K 4 (ucast offset :: u32)"
  by unfold_locales (use native_read_wp(1) in \<open>fastforce simp: native_roundtrip intro: native_write_wp\<close>)+

interpretation native64: register_code "\<lambda>K h offset. mmio_write64_native K h offset offset"
  mmio_read64_native "\<lambda>offset. offset" 8 "\<lambda>K offset. native_bytes K 8 offset"
  by unfold_locales (use native_read_wp(2) in \<open>fastforce simp: native_roundtrip intro: native_write_wp\<close>)+

lemma order_read_wp:
  "access_pre s h m offset 4 \<Longrightarrow> os_load K (mm_start m + offset) 4 (wld s) = (encode32 K e v, w) \<Longrightarrow>
   wp (ocxl_mmio_read32 K (Some h) offset e) (\<lambda>r s'. r = (OCXL_OK, Some v) \<and> accessed s w (CLoad (mm_start m + offset) 4) s') s"
  "access_pre s h m offset 8 \<Longrightarrow> os_load K (mm_start m + offset) 8 (wld s) = (encode64 K e v', w) \<Longrightarrow>
   wp (ocxl_mmio_read64 K (Some h) offset e) (\<lambda>r s'. r = (OCXL_OK, Some v') \<and> accessed s w (CLoad (mm_start m + offset) 8) s') s"
  using read32_wp [of s h m offset K "encode32 K e v" w e] read64_wp [of s h m offset K "encode64 K e v'" w e]
  by (simp_all add: decode_encode)

interpretation order32: register_code "\<lambda>K h offset. ocxl_mmio_write32 K h offset e (ucast offset)"
  "\<lambda>K h offset. ocxl_mmio_read32 K h offset e" "\<lambda>offset. Some (ucast offset)" 4 "\<lambda>K offset. encode32 K e (ucast offset)" for e
  by unfold_locales (simp_all add: order_read_wp write32_wp)

interpretation order64: register_code "\<lambda>K h offset. ocxl_mmio_write64 K h offset e offset"
  "\<lambda>K h offset. ocxl_mmio_read64 K h offset e" Some 8 "\<lambda>K offset. encode64 K e offset" for e
  by unfold_locales (simp_all add: order_read_wp write64_wp)

section \<open>Getting to the registers\<close>

text \<open>The platform has memory, and the device of the tests can be opened and has the size they gave it.\<close>

definition memory_available :: "'w platform \<Rightarrow> bool" where
  "memory_available K \<longleftrightarrow> (\<forall>b n w. fst (os_realloc K b n w) \<noteq> None) \<and>
     (\<forall>len prot d off w. fst (os_mmap K len prot d off w) \<noteq> MAP_FAILED)"

definition device_opens :: "'w platform \<Rightarrow> globals \<Rightarrow> 'w \<Rightarrow> bool" where
  "device_opens K g w \<longleftrightarrow> (\<forall>s. glb s = g \<and> wld s = w \<longrightarrow> wp (ocxl_afu_open_from_dev K dummy_dev)
     (\<lambda>(rc, h) s'. rc = OCXL_OK \<and> mm_length (global_mmio (cur_afu s')) = of_nat GLOBAL_MMIO_SIZE) s)"

lemma memory_availableD:
  assumes "memory_available K"
  shows "os_realloc K b n w = (r, w') \<Longrightarrow> \<exists>x. r = Some x" "os_mmap K len prot d off w \<noteq> (MAP_FAILED, w'')"
  using assms unfolding memory_available_def by (metis fst_conv not_None_eq)+

lemma slot_available: "memory_available K \<Longrightarrow> wp (mmio_slot K) (\<lambda>r s'. \<exists>i. r = Inr i) s"
  unfolding mmio_slot_def
  by (intro wp_after)
    (auto simp: grow_buffer_def wp_simps wp_call Let_def wp_iff [of "find_available _"]
      split: option.split prod.splits dest: memory_availableD(1))

lemma register_available: "memory_available K \<Longrightarrow> wp (register_mmio K addr sz ty) (\<lambda>r s'. fst r = OCXL_OK) s"
  unfolding register_mmio_def wp_bind
  by (rule wp_mono [OF slot_available]) (auto simp: wp_simps wp_call wp_iff [of "mmios_put _ _"])

lemma map_available:
  assumes "memory_available K" "mm_length (global_mmio (cur_afu s)) \<noteq> 0"
  shows "wp (ocxl_mmio_map K OCXL_GLOBAL_MMIO) (\<lambda>r s'. fst r = OCXL_OK) s"
  using assms memory_availableD(2) [OF assms(1)]
  by (auto simp: ocxl_mmio_map_def ocxl_mmio_map_advanced_def global_mmio_map_def mmio_length_def
      wp_simps wp_call Let_def split: prod.splits intro!: wp_mono [OF register_available [OF assms(1)]])

lemma map_reaches_region:
  assumes "memory_available K" "mmap_nonnull K" "mmio_pre (cur_afu s)"
    and "mm_length (global_mmio (cur_afu s)) = of_nat GLOBAL_MMIO_SIZE"
  shows "wp (ocxl_mmio_map K OCXL_GLOBAL_MMIO)
    (\<lambda>(rc, region) s'. rc = OCXL_OK \<and> (\<exists>h m. region = Some h \<and> at_region (cur_afu s') h m s')) s"
proof -
  have nz: "mm_length (global_mmio (cur_afu s)) \<noteq> 0" by (simp add: assms(4) GLOBAL_MMIO_SIZE_def)
  have len: "map_size (cur_afu s) OCXL_GLOBAL_MMIO 0 0 = of_nat GLOBAL_MMIO_SIZE"
    by (simp add: map_size_def mmio_length_def assms(4))
  have "wp (ocxl_mmio_map K OCXL_GLOBAL_MMIO) (\<lambda>r s'. fst r = OCXL_OK \<and> map_post (of_nat GLOBAL_MMIO_SIZE) OCXL_GLOBAL_MMIO s r s') s"
    using map_available [OF assms(1) nz] map_advanced_spec [OF assms(3,2), of OCXL_GLOBAL_MMIO 0 "PROT_READ + PROT_WRITE" 0 0]
    unfolding wp_conj len by (simp add: ocxl_mmio_map_def)
  then show ?thesis
    by (rule wp_mono)
      (auto simp: map_post_def Let_def at_region_def new_area_def split: option.splits)
qed

lemma opening_reaches_afu:
  assumes "device_opens K g w" "glb s = g" "wld s = w"
  shows "wp (ocxl_afu_open_from_dev K dummy_dev) (\<lambda>(rc, h) s'. rc = OCXL_OK \<and> mmio_pre (cur_afu s') \<and>
    mm_length (global_mmio (cur_afu s')) = of_nat GLOBAL_MMIO_SIZE) s"
proof -
  obtain rc h s' where o: "run_state (ocxl_afu_open_from_dev K dummy_dev) s = ((rc, h), s')" by (metis surj_pair)
  have ok: "rc = OCXL_OK" "mm_length (global_mmio (cur_afu s')) = of_nat GLOBAL_MMIO_SIZE"
    using assms o by (auto simp: device_opens_def wp_def)
  from open_from_dev_fresh [OF o [unfolded ok(1)]] have "mmio_pre (cur_afu s')"
    by (auto simp: afu_inv_def within_def mmio_pre_def mmio_room_def)
  with ok o show ?thesis by (simp add: wp_def)
qed

section \<open>Tests that pass\<close>

definition passed :: "harness \<Rightarrow> int \<Rightarrow> harness \<Rightarrow> bool" where
  "passed T n T' \<longleftrightarrow> (\<exists>t. T' = T @ [t] \<and> t_state t = SUCCESS \<and> t_count t = n)"

lemma test_ok_passes:
  "wp (test_ok (counted n (T @ [fresh_test suite nm], x))) (\<lambda>z' s'. passed T n (fst z')) s"
  unfolding test_ok_def wp_bind
  by (rule wp_mono [OF wp_test_stop]) (auto simp: wp_return passed_def counted_snoc fresh_test_def)

lemma run_test_passes:
  assumes "length T < MAX_TESTS"
    and "\<And>s1. glb s1 = glb s \<Longrightarrow> wld s1 = wld s \<Longrightarrow>
      wp (body (T @ [fresh_test suite nm], x)) (\<lambda>z' s'. passed T n (fst z')) s1"
  shows "wp (run_test suite nm x body label_end T) (\<lambda>r s'. \<exists>T'. r = Inr T' \<and> passed T n T') s"
proof -
  have body: "wp (body (T @ [fresh_test suite nm], x)) (\<lambda>z'. wp (case z' of (T, x) \<Rightarrow> do { label_end x; State_Monad.return (Inr T) })
      (\<lambda>r s'. \<exists>T'. r = Inr T' \<and> passed T n T')) s1" if "glb s1 = glb s" "wld s1 = wld s" for s1
    by (rule wp_mono [OF assms(2) [OF that]]) (auto simp: wp_return intro!: wp_after)
  show ?thesis
    unfolding run_test_def wp_bind [of "test_start suite nm T"]
    by (rule wp_mono [OF wp_test_start]) (use assms(1) body in \<open>auto simp: wp_bind [of "body _"]\<close>)
qed

lemma open_step:
  assumes "device_opens K (glb s) (wld s)"
    and "\<And>afu s'. mmio_pre (cur_afu s') \<Longrightarrow> mm_length (global_mmio (cur_afu s')) = of_nat GLOBAL_MMIO_SIZE \<Longrightarrow>
      wp (k (counted 1 (T, afu))) Q s'"
  shows "wp (do { (rc, afu) \<leftarrow> ocxl_afu_open_from_dev K dummy_dev; ASSERT p (rc = OCXL_OK) (T, afu) k }) Q s"
  unfolding wp_bind
  by (rule wp_mono [OF opening_reaches_afu [OF assms(1) refl refl]])
    (use assms(2) in \<open>auto simp: ASSERT_holds\<close>)

lemma messages_step:
  assumes "mmio_pre (cur_afu s)" "mm_length (global_mmio (cur_afu s)) = of_nat GLOBAL_MMIO_SIZE"
    and "\<And>s'. mmio_pre (cur_afu s') \<Longrightarrow> mm_length (global_mmio (cur_afu s')) = of_nat GLOBAL_MMIO_SIZE \<Longrightarrow> wp m Q s'"
  shows "wp (do { ocxl_afu_enable_messages sources; m }) Q s"
  using assms
  by (simp add: ocxl_afu_enable_messages_def wp_simps mmio_pre_def mmio_ok_def mmio_room_def free_slot_def live_regions_def)

lemma map_step:
  assumes "memory_available K" "mmap_nonnull K" "mmio_pre (cur_afu s)"
    and "mm_length (global_mmio (cur_afu s)) = of_nat GLOBAL_MMIO_SIZE"
    and "\<And>a h m s'. at_region a h m s' \<Longrightarrow> wp (k (Some h) (counted 1 z)) Q s'"
  shows "wp (do { (rc, region) \<leftarrow> ocxl_mmio_map K OCXL_GLOBAL_MMIO; ASSERT p (rc = OCXL_OK) z (k region) }) Q s"
  unfolding wp_bind
  by (rule wp_mono [OF map_reaches_region [OF assms(1-4)]]) (use assms(5) in \<open>auto simp: ASSERT_holds\<close>)

lemma size_words: "GLOBAL_MMIO_SIZE div 4 = 8388608" "GLOBAL_MMIO_SIZE div 8 = 4194304"
  by (simp_all add: GLOBAL_MMIO_SIZE_def)

lemma last_step:
  assumes "n = n'"
  shows "wp (do { ocxl_mmio_unmap K h; test_ok (counted n (T @ [fresh_test suite nm], x)) }) (\<lambda>z' s'. passed T n' (fst z')) s"
  unfolding assms by (rule wp_after, rule test_ok_passes)

text \<open>The platform the register tests need.\<close>

definition register_platform :: "'w platform \<Rightarrow> ('w \<Rightarrow> u64 \<Rightarrow> u8) \<Rightarrow> 'w st \<Rightarrow> bool" where
  "register_platform K mem s \<longleftrightarrow> ram K mem \<and> memory_available K \<and> mmap_nonnull K \<and> device_opens K (glb s) (wld s)"

lemma read32_native_passes:
  assumes "register_platform K mem s" "length T < MAX_TESTS"
  shows "wp (test_ocxl_mmio_read32_native K T) (\<lambda>r s'. \<exists>T'. r = Inr T' \<and> passed T 16777219 T') s"
  unfolding test_ocxl_mmio_read32_native_def
proof (rule run_test_passes [OF assms(2)], goal_cases)
  case (1 s1)
  then have p: "ram K mem" "memory_available K" "mmap_nonnull K" "device_opens K (glb s1) (wld s1)"
    using assms(1) by (simp_all add: register_platform_def)
  let ?T = "T @ [fresh_test ''MMIO'' ''ocxl_mmio_read32/write32_native'']"
  have round: "wp (write_loop p1 (\<lambda>offset. mmio_write32_native K (Some h) offset (ucast offset)) (offsets 4) (counted 2 (?T, x))
      (\<lambda>z. read_loop p2 (mmio_read32_native K (Some h)) ucast (offsets 4) z (\<lambda>good z. ASSERT p3 good z
        (\<lambda>z. do { ocxl_mmio_unmap K (the (Some h)); test_ok z })))) (\<lambda>z' s'. passed T 16777219 (fst z')) s2"
    if "at_region a h m s2" for a h m s2 x p1 p2 p3
    by (rule native32.round_passes [OF p(1) that]) (simp_all add: ASSERT_holds last_step size_words)
  show ?case
    by (simp only: fst_conv, rule open_step [OF p(4)], rule messages_step, assumption+,
        rule map_step [OF p(2,3)], assumption+, simp only: counted_counted one_add_one, rule round)
qed

lemma read64_native_passes:
  assumes "register_platform K mem s" "length T < MAX_TESTS"
  shows "wp (test_ocxl_mmio_read64_native K T) (\<lambda>r s'. \<exists>T'. r = Inr T' \<and> passed T 8388611 T') s"
  unfolding test_ocxl_mmio_read64_native_def
proof (rule run_test_passes [OF assms(2)], goal_cases)
  case (1 s1)
  then have p: "ram K mem" "memory_available K" "mmap_nonnull K" "device_opens K (glb s1) (wld s1)"
    using assms(1) by (simp_all add: register_platform_def)
  let ?T = "T @ [fresh_test ''MMIO'' ''ocxl_mmio_read64/write64_native'']"
  have round: "wp (write_loop p1 (\<lambda>offset. mmio_write64_native K (Some h) offset offset) (offsets 8) (counted 2 (?T, x))
      (\<lambda>z. read_loop p2 (mmio_read64_native K (Some h)) (\<lambda>offset. offset) (offsets 8) z (\<lambda>good z. ASSERT p3 good z
        (\<lambda>z. do { ocxl_mmio_unmap K (the (Some h)); test_ok z })))) (\<lambda>z' s'. passed T 8388611 (fst z')) s2"
    if "at_region a h m s2" for a h m s2 x p1 p2 p3
    by (rule native64.round_passes [OF p(1) that]) (simp_all add: ASSERT_holds last_step size_words)
  show ?case
    by (simp only: fst_conv, rule open_step [OF p(4)], rule messages_step, assumption+,
        rule map_step [OF p(2,3)], assumption+, simp only: counted_counted one_add_one, rule round)
qed

lemma round32_passes:
  assumes "ram K mem" "at_region a h m s" "fst z \<noteq> []"
    and "\<And>s'. at_region a h m s' \<Longrightarrow> wp (k (native_word K (encode32 K e 4)) (counted 16777217 z)) Q s'"
  shows "wp (round32 K (Some h) e ps z k) Q s"
proof -
  obtain p1 p2 p3 where ps: "ps = (p1, p2, p3)" by (cases ps)
  have load: "wp (do { mmio \<leftarrow> region_ptr (Some h); bs \<leftarrow> do_load K (mm_start mmio + 4) 4; k (native_word K bs) z' }) Q s'"
    if s': "at_region a h m s'" "order32.written e K mem m (GLOBAL_MMIO_SIZE div 4) s'" and z': "z' = counted 16777217 z" for s' z'
  proof -
    have "peek (mem (wld s')) (mm_start m + 4) 4 = encode32 K e 4"
      using s'(2) [unfolded order32.written_def, rule_format, of 1] by (simp add: size_words base_at_def)
    with ramD(1) [OF assms(1)] have l: "fst (os_load K (mm_start m + 4) 4 (wld s')) = encode32 K e 4" by simp
    have "at_region a h m (s'\<lparr>wld := w, calls := cs\<rparr>)" for w cs using s'(1) by (simp add: at_region_def)
    with assms(4) l s'(1) show ?thesis
      by (auto simp: z' wp_simps wp_call at_region_def wp_region_ptr split: prod.split)
  qed
  show ?thesis
    unfolding round32_def ps prod.case
    by (rule order32.round_passes [OF assms(1-3)])
      (simp add: ASSERT_holds load size_words)
qed

lemma codes32:
  "4 = be32toh K (native_word K (encode32 K OCXL_MMIO_BIG_ENDIAN 4))"
  "4 = le32toh K (native_word K (encode32 K OCXL_MMIO_LITTLE_ENDIAN 4))"
  "native_word K (encode32 K OCXL_MMIO_BIG_ENDIAN 4) \<noteq> (native_word K (encode32 K OCXL_MMIO_LITTLE_ENDIAN 4) :: u32)"
proof -
  have "word_of_le (bytes_le 4 (4 :: u32)) \<noteq> (word_of_le (rev (bytes_le 4 (4 :: u32))) :: u32)"
    by (simp add: bytes_le_def upt_rec)
  then show "native_word K (encode32 K OCXL_MMIO_BIG_ENDIAN 4) \<noteq> (native_word K (encode32 K OCXL_MMIO_LITTLE_ENDIAN 4) :: u32)"
    by (auto simp: native_word_def encode32_def)
qed (simp_all add: encode32_def endian_simps)

lemma round64_passes:
  assumes "ram K mem" "at_region a h m s" "fst z \<noteq> []"
    and "\<And>s'. at_region a h m s' \<Longrightarrow> wp (k (native_word K (encode64 K e 8)) (counted 8388609 z)) Q s'"
  shows "wp (round64 K (Some h) e ps z k) Q s"
proof -
  obtain p1 p2 p3 where ps: "ps = (p1, p2, p3)" by (cases ps)
  have load: "wp (do { mmio \<leftarrow> region_ptr (Some h); bs \<leftarrow> do_load K (mm_start mmio + 8) 8; k (native_word K bs) z' }) Q s'"
    if s': "at_region a h m s'" "order64.written e K mem m (GLOBAL_MMIO_SIZE div 8) s'" and z': "z' = counted 8388609 z" for s' z'
  proof -
    have "peek (mem (wld s')) (mm_start m + 8) 8 = encode64 K e 8"
      using s'(2) [unfolded order64.written_def, rule_format, of 1] by (simp add: size_words base_at_def)
    with ramD(1) [OF assms(1)] have l: "fst (os_load K (mm_start m + 8) 8 (wld s')) = encode64 K e 8" by simp
    have "at_region a h m (s'\<lparr>wld := w, calls := cs\<rparr>)" for w cs using s'(1) by (simp add: at_region_def)
    with assms(4) l s'(1) show ?thesis
      by (auto simp: z' wp_simps wp_call at_region_def wp_region_ptr split: prod.split)
  qed
  show ?thesis
    unfolding round64_def ps prod.case
    by (rule order64.round_passes [OF assms(1-3)])
      (simp add: ASSERT_holds load size_words)
qed

lemma codes64:
  "8 = be64toh K (native_word K (encode64 K OCXL_MMIO_BIG_ENDIAN 8))"
  "8 = le64toh K (native_word K (encode64 K OCXL_MMIO_LITTLE_ENDIAN 8))"
  "native_word K (encode64 K OCXL_MMIO_BIG_ENDIAN 8) \<noteq> (native_word K (encode64 K OCXL_MMIO_LITTLE_ENDIAN 8) :: u64)"
proof -
  have "word_of_le (bytes_le 8 (8 :: u64)) \<noteq> (word_of_le (rev (bytes_le 8 (8 :: u64))) :: u64)"
    by (simp add: bytes_le_def upt_rec)
  then show "native_word K (encode64 K OCXL_MMIO_BIG_ENDIAN 8) \<noteq> (native_word K (encode64 K OCXL_MMIO_LITTLE_ENDIAN 8) :: u64)"
    by (auto simp: native_word_def encode64_def)
qed (simp_all add: encode64_def endian_simps)

lemma read32_passes:
  assumes "register_platform K mem s" "length T < MAX_TESTS"
  shows "wp (test_ocxl_mmio_read32 K T) (\<lambda>r s'. \<exists>T'. r = Inr T' \<and> passed T 33554439 T') s"
  unfolding test_ocxl_mmio_read32_def
proof (rule run_test_passes [OF assms(2)], goal_cases)
  case (1 s1)
  then have p: "ram K mem" "memory_available K" "mmap_nonnull K" "device_opens K (glb s1) (wld s1)"
    using assms(1) by (simp_all add: register_platform_def)
  let ?T = "T @ [fresh_test ''MMIO'' ''ocxl_mmio_read32/write32'']"
  have rounds: "wp (round32 K (Some h) OCXL_MMIO_BIG_ENDIAN ps (counted 2 (?T, x)) (\<lambda>big z.
      ASSERT p1 (4 = be32toh K big) z (\<lambda>z. round32 K (Some h) OCXL_MMIO_LITTLE_ENDIAN qs z (\<lambda>little z.
      ASSERTS [(p2, 4 = le32toh K little), (p3, big \<noteq> little)] z (\<lambda>z. do {
        ocxl_mmio_unmap K (the (Some h));
        test_ok z
      }))))) (\<lambda>z' s'. passed T 33554439 (fst z')) s2"
    if "at_region a h m s2" for a h m s2 x ps qs p1 p2 p3
    by (intro round32_passes [OF p(1) that] fst_counted_nonempty, unfold ASSERT_holds [OF codes32(1)],
        intro round32_passes [OF p(1)] fst_counted_nonempty, assumption)
      (simp add: ASSERT_holds codes32(3) codes32(2) [symmetric] last_step)
  show ?case
    by (simp only: fst_conv, rule open_step [OF p(4)], rule map_step [OF p(2,3)], assumption+,
        simp only: counted_counted one_add_one, rule rounds)
qed

lemma read64_passes:
  assumes "register_platform K mem s" "length T < MAX_TESTS"
  shows "wp (test_ocxl_mmio_read64 K T) (\<lambda>r s'. \<exists>T'. r = Inr T' \<and> passed T 16777223 T') s"
  unfolding test_ocxl_mmio_read64_def
proof (rule run_test_passes [OF assms(2)], goal_cases)
  case (1 s1)
  then have p: "ram K mem" "memory_available K" "mmap_nonnull K" "device_opens K (glb s1) (wld s1)"
    using assms(1) by (simp_all add: register_platform_def)
  let ?T = "T @ [fresh_test ''MMIO'' ''ocxl_mmio_read64/write64'']"
  have rounds: "wp (round64 K (Some h) OCXL_MMIO_BIG_ENDIAN ps (counted 2 (?T, x)) (\<lambda>big z.
      ASSERT p1 (8 = be64toh K big) z (\<lambda>z. round64 K (Some h) OCXL_MMIO_LITTLE_ENDIAN qs z (\<lambda>little z.
      ASSERTS [(p2, 8 = le64toh K little), (p3, big \<noteq> little)] z (\<lambda>z. do {
        ocxl_mmio_unmap K (the (Some h));
        test_ok z
      }))))) (\<lambda>z' s'. passed T 16777223 (fst z')) s2"
    if "at_region a h m s2" for a h m s2 x ps qs p1 p2 p3
    by (intro round64_passes [OF p(1) that] fst_counted_nonempty, unfold ASSERT_holds [OF codes64(1)],
        intro round64_passes [OF p(1)] fst_counted_nonempty, assumption)
      (simp add: ASSERT_holds codes64(3) codes64(2) [symmetric] last_step)
  show ?case
    by (simp only: fst_conv, rule open_step [OF p(4)], rule messages_step, assumption+, rule map_step [OF p(2,3)], assumption+,
        simp only: counted_counted one_add_one, rule rounds)
qed

section \<open>Properties\<close>

text \<open>C18: the library passes its register tests on memory. On a platform whose mapped memory keeps
  what is stored, that has memory to give, and on which the device of the tests opens with its 32 MB of
  registers, each of the four tests writes all registers and reads them back in the byte orders it is
  about, ends with success, and has made exactly this number of checks.\<close>

theorem register_tests_pass:
  assumes "register_platform K mem s" "length T < MAX_TESTS"
  shows "wp (test_ocxl_mmio_read32_native K T) (\<lambda>r s'. \<exists>T'. r = Inr T' \<and> passed T 16777219 T') s \<and>
    wp (test_ocxl_mmio_read64_native K T) (\<lambda>r s'. \<exists>T'. r = Inr T' \<and> passed T 8388611 T') s \<and>
    wp (test_ocxl_mmio_read32 K T) (\<lambda>r s'. \<exists>T'. r = Inr T' \<and> passed T 33554439 T') s \<and>
    wp (test_ocxl_mmio_read64 K T) (\<lambda>r s'. \<exists>T'. r = Inr T' \<and> passed T 16777223 T') s"
  using read32_native_passes [OF assms] read64_native_passes [OF assms] read32_passes [OF assms]
    read64_passes [OF assms] by blast

text \<open>The device of the tests on the example platform.\<close>

definition demo_unit :: "demo_w platform" where
  "demo_unit = demo\<lparr>os_stat := (\<lambda>p w. ((0, of_nat (length p) - 15), w)),
     os_realloc := (\<lambda>b n w. (Some 51, w)), os_mmap := (\<lambda>len prot d off w. (0x10000000, w)),
     os_ioctl_get_metadata := (\<lambda>d w. ((0, \<lparr>md_version_major = 5, md_version_minor = 10,
        md_pp_mmio_size = 16384, md_global_mmio_size = 33554432, md_pasid = 1234\<rparr>), w))\<rparr>"

definition demo_unit_globals :: globals where
  "demo_unit_globals = demo_globals\<lparr>sys_path := Some ocxl_sysfs_path, dev_path := Some ocxl_dev_path\<rparr>"

definition demo_unit_world :: demo_w where
  "demo_unit_world = demo_world\<lparr>dw_devices := [''IBM,Dummy.0001:00:00.1.0'']\<rparr>"

lemma dummy_name:
  "strchr ''IBM,Dummy.0001:00:00.1.0'' CHR ''.'' = Some 9"
  "scan_items pci_format ''0001:00:00.1.0'' = [1, 0, 0, 1, 0]" "sscanf_count pci_format ''0001:00:00.1.0'' = 5"
proof -
  show "strchr ''IBM,Dummy.0001:00:00.1.0'' CHR ''.'' = Some 9" by code_simp
  show sc: "scan_items pci_format ''0001:00:00.1.0'' = [1, 0, 0, 1, 0]"
    by (simp add: pci_format_def scan_unsigned_def is_digit_def digit_val_def value_of_def c_isspace_def ULONG_MAX_def)
  then show "sscanf_count pci_format ''0001:00:00.1.0'' = 5" by (simp add: sscanf_count_def)
qed

lemma demo_unit_opens: "device_opens demo_unit demo_unit_globals demo_unit_world"
  unfolding device_opens_def
proof (intro allI impI)
  fix s :: "demo_w st"
  assume "glb s = demo_unit_globals \<and> wld s = demo_unit_world"
  then show "wp (ocxl_afu_open_from_dev demo_unit dummy_dev)
      (\<lambda>(rc, h) s'. rc = OCXL_OK \<and> mm_length (global_mmio (cur_afu s')) = of_nat GLOBAL_MMIO_SIZE) s"
    by (simp add: open_defs demo_opening demo_unit_def demo_unit_globals_def demo_unit_world_def dummy_dev_def
        ocxl_sysfs_path_def ocxl_dev_path_def GLOBAL_MMIO_SIZE_def dummy_name wp_simps wp_call Let_def)
qed

lemma demo_unit_platform:
  "glb s = demo_unit_globals \<Longrightarrow> wld s = demo_unit_world \<Longrightarrow> register_platform demo_unit dw_mem s"
  using ram_demo demo_unit_opens
  by (simp add: register_platform_def memory_available_def mmap_nonnull_def MAP_FAILED_def ram_def demo_unit_def)

definition demo_unit_state :: "demo_w st" where
  "demo_unit_state = demo_state\<lparr>glb := demo_unit_globals, wld := demo_unit_world\<rparr>"

theorem register_tests_pass_witness:
  "wp (test_ocxl_mmio_read64 demo_unit []) (\<lambda>r s'. \<exists>T'. r = Inr T' \<and> passed [] 16777223 T') demo_unit_state"
  using register_tests_pass [OF demo_unit_platform, of demo_unit_state "[]"]
  by (simp add: demo_unit_state_def MAX_TESTS_def)

end
