(* ===== verification/Unit_Events.thy ===== *)
theory Unit_Events
  imports Unit_Mmio
begin

text \<open>
  The tests of events and of messages pass: the one that forces translation faults on the virtual
  device, from the laws of the device file, and the one that installs an error handler, on every
  platform.
\<close>

section \<open>Faults\<close>

text \<open>Reads of the device file go to the virtual device, whose globals the test sets; the device opens
  and attaches, with no fault pending.\<close>

definition event_platform :: "'w platform \<Rightarrow> 'w unit_host \<Rightarrow> event_layout \<Rightarrow> 'w st \<Rightarrow> bool" where
  "event_platform K U L s \<longleftrightarrow> layout_fits K L \<and> (\<forall>fd. device_file K L fd (u_device U)) \<and>
     (\<forall>d w. u_device U (u_set_device U d w) = d) \<and>
     (\<forall>s1. glb s1 = glb s \<and> wld s1 = wld s \<longrightarrow>
        wp (do { (rc, afu) \<leftarrow> ocxl_afu_open_from_dev K dummy_dev; ocxl_afu_enable_messages OCXL_ERRORS;
             rc' \<leftarrow> ocxl_afu_attach K OCXL_ATTACH_FLAGS_NONE; State_Monad.return (rc, rc') })
          (\<lambda>(rc, rc') s'. rc = OCXL_OK \<and> rc' = OCXL_OK \<and> fault_addr (u_device U (wld s')) = 0) s1)"

lemma nothing_step:
  assumes "event_platform K U L s0" "fault_addr (u_device U (wld s)) = 0" "fst z \<noteq> []"
    and "\<And>s'. fault_addr (u_device U (wld s')) = 0 \<Longrightarrow> wp (k (counted 2 z)) Q s'"
  shows "wp (expect_nothing K ps z k) Q s"
proof -
  have f: "device_file K L (afu_fd (cur_afu s)) (u_device U)" using assms(1) by (simp add: event_platform_def)
  show ?thesis
    unfolding expect_nothing_def wp_bind
    by (rule wp_mono [OF read_none [where dev = "u_device U", OF f assms(2)]])
      (use assms(2-4) in \<open>auto simp: ASSERT_holds\<close>)
qed

lemma fault_step:
  assumes "event_platform K U L s0" "fst z \<noteq> []"
    and "\<And>s'. fault_addr (u_device U (wld s')) = 0 \<Longrightarrow> wp (k (counted (if arch_ppc64 K then 6 else 5) z)) Q s'"
  shows "wp (expect_fault K U ps z k) Q s"
proof -
  let ?d = "force_translation_fault K 0xfeeddeadbeeff00d 0x123456789abcdef0 16 (u_device U (wld s))"
  let ?s = "s\<lparr>wld := u_set_device U ?d (wld s)\<rparr>"
  have p: "layout_fits K L" "device_file K L (afu_fd (cur_afu ?s)) (u_device U)" "u_device U (wld ?s) = ?d"
    using assms(1) by (simp_all add: event_platform_def)
  have addr: "fault_addr ?d \<noteq> 0" by (simp add: force_translation_fault_def)
  have "wp (do { (act, ev, last_event) \<leftarrow> read_afu_event K 0;
     let f = fault_of ev;
     ASSERTS ([(ps ! 0, act = OCXL_EVENT_ACTION_SUCCESS), (ps ! 1, last_event), (ps ! 2, f \<noteq> None),
         (ps ! 3, tf_addr (the f) = 0xfeeddeadbeeff00d)] @
         (if arch_ppc64 K then [(ps ! 4, tf_dsisr (the f) = 0x123456789abcdef0)] else []) @ [
         (ps ! 5, tf_count (the f) = 16)]) z k }) Q ?s"
    unfolding wp_bind
    by (rule wp_mono [OF read_fault [where dev = "u_device U", OF p addr]])
      (use assms(2,3) in \<open>auto simp: ASSERT_holds Let_def fault_of_def force_translation_fault_def split: if_splits\<close>)
  then show ?thesis
    by (simp add: expect_fault_def force_fault_def wp_bind wp_modify)
qed

lemma attach_step:
  assumes "event_platform K U L s" "glb s1 = glb s" "wld s1 = wld s"
    and "\<And>afu s'. fault_addr (u_device U (wld s')) = 0 \<Longrightarrow> wp (k (counted 2 (T, afu))) Q s'"
  shows "wp (do { (rc, afu) \<leftarrow> ocxl_afu_open_from_dev K dummy_dev; ASSERT p (rc = OCXL_OK) (T, afu) (\<lambda>z. do {
      ocxl_afu_enable_messages OCXL_ERRORS;
      rc \<leftarrow> ocxl_afu_attach K OCXL_ATTACH_FLAGS_NONE;
      ASSERT q (rc = OCXL_OK) z k }) }) Q s1"
proof -
  have "wp (do { (rc, afu) \<leftarrow> ocxl_afu_open_from_dev K dummy_dev; ocxl_afu_enable_messages OCXL_ERRORS;
      rc' \<leftarrow> ocxl_afu_attach K OCXL_ATTACH_FLAGS_NONE; State_Monad.return (rc, rc') })
    (\<lambda>(rc, rc') s'. rc = OCXL_OK \<and> rc' = OCXL_OK \<and> fault_addr (u_device U (wld s')) = 0) s1"
    using assms(1-3) by (simp add: event_platform_def)
  then show ?thesis
    unfolding wp_bind [of "ocxl_afu_open_from_dev K dummy_dev"]
    by (rule wp_mono)
      (use assms(4) in \<open>auto simp: wp_bind wp_return ASSERT_holds wp_iff [of "ocxl_afu_enable_messages _"]
        wp_iff [of "ocxl_afu_attach _ _"]\<close>)
qed

section \<open>Messages\<close>

lemma plain_message: "c_format ''%s'' [FStr ''error message test''] = Some ''error message test''"
  by code_simp

lemma handler_test_passes:
  assumes "length T < MAX_TESTS"
  shows "wp (test_ocxl_set_error_message_handler T) (\<lambda>r s'. \<exists>T'. r = Inr T' \<and> passed T 1 T') s"
  unfolding test_ocxl_set_error_message_handler_def
  by (rule run_test_passes [OF assms])
    (simp add: ocxl_set_error_message_handler_def ocxl_enable_messages_def OCXL_ERRORS_def OCXL_TRACING_def wp_simps wp_call errmsg_state_def
      errmsg_on_def errmsg_event_def plain_message err_buf_after_def copy_to_err_buf_def MAX_MESSAGE_LENGTH_def
      ASSERT_holds test_ok_passes)

section \<open>Properties\<close>

text \<open>C19: the library passes its event test and its message test on the virtual device, whose file
  reaches the handlers of the device. The event test finds no event, then twice exactly the fault it has forced, then none again;
  it makes 16 checks, 18 on PPC64, which has a register more to compare.\<close>

theorem event_tests_pass:
  assumes "event_platform K U L s" "length T < MAX_TESTS"
  shows "wp (test_read_afu_event K U T) (\<lambda>r s'. \<exists>T'. r = Inr T' \<and> passed T (if arch_ppc64 K then 18 else 16) T') s \<and>
    wp (test_ocxl_set_error_message_handler T) (\<lambda>r s'. \<exists>T'. r = Inr T' \<and> passed T 1 T') s"
proof
  show "wp (test_read_afu_event K U T) (\<lambda>r s'. \<exists>T'. r = Inr T' \<and> passed T (if arch_ppc64 K then 18 else 16) T') s"
    unfolding test_read_afu_event_def
  proof (rule run_test_passes [OF assms(2)], goal_cases)
    case (1 s1)
    show ?case
      by (simp only: fst_conv, rule attach_step [OF assms(1) 1], rule nothing_step [OF assms(1)], assumption, simp,
          rule fault_step [OF assms(1)], simp, rule fault_step [OF assms(1)], simp,
          rule nothing_step [OF assms(1)], assumption, simp, simp only: counted_counted)
        (rule wp_mono [OF test_ok_passes], simp split: if_splits)
  qed
qed (rule handler_test_passes [OF assms(2)])

text \<open>The virtual device of the example, with the globals of the tests.\<close>

definition demo_virt_host :: "(demo_w \<times> virt_device) unit_host" where
  "demo_virt_host = \<lparr>u_device = snd, u_set_device = (\<lambda>d w. (fst w, d)), u_symlink = (\<lambda>p q w. (0, w)),
     u_unlink = (\<lambda>p w. ((), w)), u_closedir = (\<lambda>p w. ((), w)), u_sigaction = (\<lambda>w. ((), w)),
     u_sleep = (\<lambda>n w. ((), w)), u_kill_and_join = (\<lambda>t w. ((), w))\<rparr>"

definition demo_virt_start :: "(demo_w \<times> virt_device) st" where
  "demo_virt_start = \<lparr>glb = demo_unit_globals, outs = [], calls = [], ub = [], fmt_ub = [],
     wld = (demo_unit_world, initial_device), cur_afu = demo_afu\<rparr>"

lemma demo_virt_calls:
  "arch_ppc64 demo_virt" "sizeof_ocxl_afu demo_virt = 288" "os_getenv demo_virt v w = map_of (dw_env (fst w)) v"
  "os_sysconf_pagesize demo_virt w = 65536" "os_malloc demo_virt n w = beside demo_alloc w"
  "os_opendir demo_virt p w = (Some (dw_devices (fst w)), w)"
  "os_fstatat demo_virt dir f w = ((0, True, of_nat (length f)), w)" "os_stat demo_virt p w = ((0, of_nat (length p) - 15), w)"
  "os_open demo_virt p fl w = beside (\<lambda>w. if p \<in> set (dw_open_fails w) then (- 1, w) else demo_new_fd w) w"
  "os_epoll_create demo_virt w = beside demo_new_fd w" "os_epoll_add demo_virt ep d q w = (0, w)"
  "os_ioctl_get_metadata demo_virt d w = ((0, \<lparr>md_version_major = 1, md_version_minor = 2,
     md_pp_mmio_size = 4096, md_global_mmio_size = 8192, md_pasid = 7\<rparr>), w)"
  "os_ioctl_attach demo_virt d amr w = (0, w)"
  by (simp_all add: demo_virt_def beside_def split: prod.split)

lemma demo_virt_opens:
  assumes "glb s = demo_unit_globals" "wld s = (demo_unit_world, initial_device)"
  shows "wp (ocxl_afu_open_from_dev demo_virt dummy_dev) (\<lambda>(rc, h) s'. rc = OCXL_OK \<and> afu_fd (cur_afu s') = 10 \<and>
    snd (wld s') = initial_device) s"
  using assms
  by (simp add: open_defs demo_opening demo_virt_calls beside_def demo_unit_globals_def demo_unit_world_def dummy_dev_def
      ocxl_sysfs_path_def ocxl_dev_path_def dummy_name wp_simps wp_call Let_def)

lemma demo_virt_attaches:
  assumes "glb s = demo_unit_globals" "wld s = (demo_unit_world, initial_device)"
  shows "wp (do { (rc, afu) \<leftarrow> ocxl_afu_open_from_dev demo_virt dummy_dev; ocxl_afu_enable_messages OCXL_ERRORS;
      rc' \<leftarrow> ocxl_afu_attach demo_virt OCXL_ATTACH_FLAGS_NONE; State_Monad.return (rc, rc') })
    (\<lambda>(rc, rc') s'. rc = OCXL_OK \<and> rc' = OCXL_OK \<and> fault_addr (snd (wld s')) = 0) s"
  unfolding wp_bind [of "ocxl_afu_open_from_dev demo_virt dummy_dev"]
  by (rule wp_mono [OF demo_virt_opens [OF assms]])
    (auto simp: ocxl_afu_attach_def ocxl_afu_enable_messages_def demo_virt_calls initial_device_def wp_simps wp_call)

theorem event_tests_pass_witness:
  "wp (test_read_afu_event demo_virt demo_virt_host []) (\<lambda>r s'. \<exists>T'. r = Inr T' \<and> passed [] 18 T') demo_virt_start"
proof -
  have "event_platform demo_virt demo_virt_host demo_layout demo_virt_start"
    using demo_layout_fits demo_device_file demo_virt_attaches
    by (simp add: event_platform_def demo_virt_host_def demo_virt_start_def)
  from event_tests_pass [OF this, of "[]"] show ?thesis by (simp add: MAX_TESTS_def demo_virt_def)
qed

end
