(* ===== verification/Spec2Isabelle.thy ===== *)
theory Spec2Isabelle
  imports Ocxl_Contract Ocxl_Threads Memcpy_Sample Memcpy_Go Memcpy_Processes Afp_Latency Unit_Events
begin

text \<open>
  A verification of libocxl, the user space library for OpenCAPI accelerators, of four programs that
  drive accelerators through it, and of its unit tests.

  \<^bold>\<open>The program.\<close> An accelerator function unit (AFU) is a device file below \<open>/dev/ocxl\<close>.
  A process opens it (\<open>src/src/afu.c\<close>), attaches its address space to it, maps its registers and
  accesses them in a byte order (\<open>src/src/mmio.c\<close>), allocates interrupts and collects their
  events and the translation faults (\<open>src/src/irq.c\<close>), and closes it. \<open>src/src/internal.c\<close>
  and \<open>src/src/setup.c\<close> hold the initialisation, the messages and the growable arrays the other
  files share. \<open>src/samples/memcpy/memcpy.c\<close> and \<open>src/afutests/memcpy/ocxl_memcpy.c\<close> queue
  work for the memcpy accelerator in a ring in memory, tell it through its registers, and wait.
  \<open>src/afutests/afp/ocxl_afp3.c\<close> and \<open>src/afutests/afp/ocxl_afp3_latency.c\<close> start the AFP
  accelerator through its registers and measure the bandwidth by its counters, and the latency by
  writing a register and spinning on memory until it has answered. \<open>src/unittests/unittests.c\<close>
  calls the functions of the library and checks what they do, on a device that
  \<open>src/unittests/virtocxl.c\<close> makes in user space.

  \<^bold>\<open>The model.\<close> A function of the source is a definition of its name in the state monad, over the
  record \<open>st\<close>: the globals of the library, the AFU in use, the output, and the calls made to the
  platform. \<open>goto\<close> cleanup, early returns and error codes are branches of the definition. Heap
  blocks are numbers, arrays are lists of cells that know whether they were written, so that reading
  an indeterminate element, following a pointer into a block that has moved, or passing a null
  pointer shows in the list \<open>ub\<close> of undefined behaviours and a format without its arguments in
  \<open>fmt_ub\<close>. The widths of the C types are kept: counts are 16 bit words, offsets and addresses 64
  bit words, and they wrap.

  What is not in the repository is a parameter: the record \<open>platform\<close> for the C library and the
  kernel as the library uses them, the records \<open>host\<close>, \<open>bench\<close>, \<open>virt_host\<close> and
  \<open>unit_host\<close> for what the programs use beyond that. They act on a world of type \<open>'w\<close>
  about which nothing is assumed, so that every call may fail and memory shared with the accelerator may change at every load. Properties that need more say so:
  \<open>irq_laws\<close> (mappings and trigger pages are not at address 0, interrupt offsets are not 0),
  \<open>time_passes\<close> (calls of the host take time, however little),
  \<open>answers_within\<close> (the accelerator answers within a number of reads), \<open>ram\<close> (loads see what was
  stored), \<open>device_file\<close> (reads of the device file reach the handler of the virtual device),
  \<open>register_platform\<close> and \<open>event_platform\<close> (the device of the unit tests opens). \<open>Ocxl_Demo\<close>
  is one concrete platform, for the witnesses.

  \<^bold>\<open>The theories.\<close>
  \<^item> \<open>Ocxl_Prelude\<close>: weakest preconditions \<open>wp\<close> in the state monad, and their rules.
  \<^item> \<open>Ocxl_Types\<close> (\<open>libocxl.h\<close>, \<open>libocxl_internal.h\<close>), \<open>Ocxl_Platform\<close>, \<open>Ocxl_Demo\<close>:
    the data, the calls into the platform, the example.
  \<^item> \<open>Ocxl_CString\<close>, \<open>Ocxl_Getopt\<close>, \<open>Ocxl_Getopt_Long\<close>, \<open>Ocxl_Endian\<close>: the string, format, option and byte
    order functions of the C library the source uses; the encodings are an interpretation of a
    locale of byte codes.
  \<^item> \<open>Ocxl_Ledger\<close>: the balance of acquired and released resources of a list of calls.
    \<open>Ocxl_Table\<close>: the growable table as a locale, interpreted for regions and for interrupts.
  \<^item> \<open>Ocxl_Internal\<close>, \<open>Ocxl_Setup\<close>, \<open>Ocxl_Mmio\<close>, \<open>Ocxl_Irq\<close>, \<open>Ocxl_Afu\<close>: the files
    of the library, each with its operations, its invariant and its contracts on every branch.
  \<^item> \<open>Ocxl_Lifecycle\<close>: sequences of library calls on one AFU as a step relation; its invariant,
    and the resources from opening to closing.
  \<^item> \<open>Ocxl_Contract\<close>: the view an application has of an open AFU, as an abstract machine whose
    steps depend on what a call returns, and the refinement of it by the library.
  \<^item> \<open>Ocxl_Steps\<close>: step relations as locales: a forward simulation, and a system that moves on until it
    is final. \<open>Ocxl_Threads\<close>: the statements of the functions that take a mutex, run by threads in
    every interleaving, simulated by the same calls in one piece. Both locales are interpreted there.
  \<^item> \<open>Ocxl_Client\<close>: what programs use: the host, messages, shared memory, and the calculus
    \<open>uses a b\<close> of programs that keep the books of an open AFU and add at most \<open>a\<close> regions and
    \<open>b\<close> interrupts.
  \<^item> \<open>Ocxl_Memory\<close>: the bytes that stores leave in memory.
  \<^item> \<open>Ocxl_Ring\<close>, \<open>Memcpy_Queue\<close>: a ring written by one side as a locale, and the work queue as
    its interpretation.
  \<^item> \<open>Memcpy_Sample\<close>, \<open>Memcpy_Test\<close>: the two programs of the memcpy accelerator, and
    \<open>Memcpy_Go\<close>: the order of the stores with which the test hands over its work.
    \<open>Memcpy_Processes\<close>: its processes, forked, ending and waited for in any order.
  \<^item> \<open>Afp_Common\<close>, \<open>Afp_Bandwidth\<close>, \<open>Afp_Latency\<close>: the registers of the AFP accelerator with
    what its two programs share (steps that end with an exit status, registers written in order),
    and the programs.
  \<^item> \<open>Virt_Device\<close>: the handlers of the virtual device and how it is made. \<open>Unit_Framework\<close>: the
    harness of the tests, with a check that takes the rest of the test. \<open>Unit_Tests\<close>: the tests and
    their \<open>main\<close>. \<open>Unit_Verdict\<close>: every test is counted. \<open>Unit_Mmio\<close>, \<open>Unit_Events\<close>: tests that
    pass; the rounds over the registers are a locale, interpreted for each pair of accessors.

  \<^bold>\<open>What is shown.\<close> For the library: the contract of each operation on success and on every
  failure, that accesses to registers stay inside their region and decode what was written, that
  handles stay distinct, that the event check returns and reports what was ready, that any sequence
  of calls keeps the tables well formed and the resources equal to what the AFU records, and that
  closing releases them but for one block; that a session refines what an application sees of the AFU;
  that threads get whole messages, a library initialised once and before any of them returns from the
  initialisation, and no deadlock. For the programs: that the ring of work elements in
  memory is the sequence of elements added, published in an order the accelerator can rely on; that
  waiting for completion ends; that options are checked; that the AFP accelerator is set up before it
  is enabled and its descriptor encodes what was asked for; that the latency test makes the rounds
  asked for, one after the other, and ends when the accelerator answers; that the memcpy test waits for
  every process, in whatever order they end, counts the failed ones, and comes to an end unless a
  child does not; that all four give back what they acquired, but for the block of the region array, when
  they end well. For the unit tests: that the library passes the tests of its registers,
  of its events and of its messages, which joins the accessors, the mapping, the opening and the virtual
  device, and that the exit status is 0 exactly when every test has passed. The theorems named
  after a flaw (an array that moves under its users, a count that wraps, a check that is off by one) show where the code does not do what it means to.

  \<^bold>\<open>Fuel.\<close> Loops over data are structural. The loops that wait for the outside world take fuel
  and give \<open>None\<close> when it runs out: the events the kernel has queued
  (\<open>event_check_terminates\<close> shows that any number above them is enough) and the loops that poll
  memory until a time (\<open>wait_for_status_ends\<close>: some number of rounds is enough where time passes) or until
  the accelerator has answered (\<open>ping_completes\<close>: the rounds and the reads it takes to answer). The
  loop that writes the file of the virtual device ends within the number of its buffers and one
  (\<open>write_zeros_ends\<close>). The
  safety properties hold for every fuel, that is, after every number of rounds.

  \<^bold>\<open>Not modelled.\<close> Memory barriers (as before the go button in \<open>press_go\<close>): stores are seen in program order, so that a barrier
  left out would not show. What the C library keeps for itself: the list \<open>glob\<close> allocates, which
  \<open>ocxl_afu_open_specific\<close> frees on every path, and the directory \<open>populate_metadata\<close> opens and closes
  again are not among the resources that are counted. Threads that use one AFU
  at the same time: the library has no mutex for it, and leaves that to the application. The globals
  that \<open>ocxl_enable_messages\<close> and the error handler setters assign without a mutex are taken to be set
  before there are threads. The processes of the memcpy test share the accelerator and memory: what a
  child sees of the others is part of its own world, about which nothing is assumed. After undefined behaviour, such as
  the report of the unit tests printing a name that is not terminated, the model goes on and only
  records it. Floating point arithmetic is kept as the expression that is computed, and its text is a
  function of the host. Signals are looked for once in every round of the latency test. The code of
  \<open>ping_OVER_8B\<close> behind its \<open>return\<close> is never reached and left out. Of the options of the C
  library, \<open>POSIXLY_CORRECT\<close> is taken to be unset. FUSE: the thread of the virtual device is the
  function it runs, and its handlers answer one request at a time. Of the unit tests,
  \<open>test_ocxl_afu_event_check_versioned\<close> is excluded by the preprocessor, and the handler for
  \<open>SIGINT\<close> is installed and not run. The reset script, the build files and the documentation hold
  no logic of the library.
\<close>

section \<open>The memcpy programs\<close>

text \<open>C40: what the memcpy programs copy from. The test fills its source buffer, whose size is not negative, by its
  mode: with zeros for the atomic test, which then counts in the shared counter; with the process id less one,
  in little endian, in the first four bytes for the increment test; and otherwise with the low byte of the process
  id in every byte of the buffer. The sample fills its buffer with 0, 1, ... modulo 256. Nothing else in memory is
  written.\<close>

theorem source_buffers_filled:
  assumes "0 \<le> buf_size (tr_args r)" "buf_size (tr_args r) < 2 ^ 31" "n \<le> 2 ^ 64"
  shows "wp (test_source K pid r) (\<lambda>r' s'. \<exists>cs. calls s' = calls s @ cs \<and>
      (\<forall>m. mem_image cs m = poke (tr_src r)
        (if atomic_cas (tr_args r) then replicate (nat (buf_size (tr_args r))) 0
         else if increment (tr_args r) then bytes_le 4 (of_int (pid - 1) :: u32)
         else replicate (nat (buf_size (tr_args r))) (of_int pid)) m) \<and>
      r' = (if atomic_cas (tr_args r) then r\<lparr>tr_increment_we := (tr_increment_we r)\<lparr>
          we_src := htole64 K (counter (tr_args r)), we_dst := htole64 K (counter (tr_args r))\<rparr>\<rparr> else r)) s \<and>
    wp (fill_buffer K buf n) (\<lambda>_ s'. \<exists>cs. calls s' = calls s @ cs \<and>
      (\<forall>m. mem_image cs m = poke buf (map of_nat [0..<n]) m)) s"
proof
  have size: "size_arg (buf_size (tr_args r)) = nat (buf_size (tr_args r))"
    using assms(1,2) by (simp add: size_arg_def unat_eq_nat_uint uint_word_of_int)
  have low: "(of_int (pid AND 0xff) :: u8) = of_int pid"
  proof -
    have "pid AND 0xff = pid mod 2 ^ 8" using take_bit_eq_mask [of 8 pid] by (simp add: take_bit_eq_mod mask_eq_exp_minus_1)
    then show ?thesis by (simp add: word_of_int_eq_iff take_bit_eq_mod)
  qed
  have each: "wp (store_each K (tr_src r) v [0..<nat (buf_size (tr_args r))]) (\<lambda>_ s'. \<exists>cs. calls s' = calls s @ cs \<and>
      (\<forall>m. mem_image cs m = poke (tr_src r) (replicate (nat (buf_size (tr_args r))) v) m)) s" for v
    using assms(2) byte_stores_image [of "nat (buf_size (tr_args r))" "tr_src r" "\<lambda>_. v"]
    by (intro wp_mono [OF store_each_calls]) (auto simp: map_replicate_const)
  show "wp (test_source K pid r) (\<lambda>r' s'. \<exists>cs. calls s' = calls s @ cs \<and>
      (\<forall>m. mem_image cs m = poke (tr_src r)
        (if atomic_cas (tr_args r) then replicate (nat (buf_size (tr_args r))) 0
         else if increment (tr_args r) then bytes_le 4 (of_int (pid - 1) :: u32)
         else replicate (nat (buf_size (tr_args r))) (of_int pid)) m) \<and>
      r' = (if atomic_cas (tr_args r) then r\<lparr>tr_increment_we := (tr_increment_we r)\<lparr>
          we_src := htole64 K (counter (tr_args r)), we_dst := htole64 K (counter (tr_args r))\<rparr>\<rparr> else r)) s"
  proof (cases "atomic_cas (tr_args r) \<or> increment (tr_args r)")
    case True
    then show ?thesis
      by (auto simp: test_source_def Let_def size wp_simps wp_call c_memset_def store32_def native_bytes_hto32
          simp del: of_int_diff)
  next
    case False
    then have "test_source K pid r = do {
        store_each K (tr_src r) (of_int pid) [0..<nat (buf_size (tr_args r))]; State_Monad.return r }"
      by (simp add: test_source_def fill_source_def low)
    with False show ?thesis by (simp add: wp_bind wp_return) (rule wp_mono [OF each], auto)
  qed
  show "wp (fill_buffer K buf n) (\<lambda>_ s'. \<exists>cs. calls s' = calls s @ cs \<and>
      (\<forall>m. mem_image cs m = poke buf (map of_nat [0..<n]) m)) s"
    unfolding fill_buffer_def by (rule wp_mono [OF fill_bytes_calls]) (use byte_stores_image [OF assms(3)] in auto)
qed

theorem source_buffers_filled_witness:
  "wp (fill_buffer demo 0x200000 MEMCPY_SIZE) (\<lambda>_ s'. \<exists>cs. calls s' = cs \<and>
      (\<forall>m. mem_image cs m = poke 0x200000 (map of_nat [0..<2048]) m)) demo_state \<and>
   wp (test_source demo 0x1234 (demo_run\<lparr>tr_args := default_args\<lparr>buf_size := 2048\<rparr>\<rparr>)) (\<lambda>_ s'. \<exists>cs. calls s' = cs \<and>
      (\<forall>m. mem_image cs m = poke 0x200000 (replicate 2048 0x34) m)) demo_state"
proof -
  have r: "0 \<le> buf_size (tr_args (demo_run\<lparr>tr_args := default_args\<lparr>buf_size := 2048\<rparr>\<rparr>))"
    "buf_size (tr_args (demo_run\<lparr>tr_args := default_args\<lparr>buf_size := 2048\<rparr>\<rparr>)) < 2 ^ 31"
    "MEMCPY_SIZE \<le> 2 ^ 64"
    by (simp_all add: demo_run_def default_args_def MEMCPY_SIZE_def)
  have low: "(0x1234 :: u8) = 0x34" by simp
  note filled = source_buffers_filled [OF r, of demo "0x1234" demo_state "0x200000"]
  show ?thesis
  proof
    show "wp (fill_buffer demo 0x200000 MEMCPY_SIZE) (\<lambda>_ s'. \<exists>cs. calls s' = cs \<and>
      (\<forall>m. mem_image cs m = poke 0x200000 (map of_nat [0..<2048]) m)) demo_state"
      using filled [THEN conjunct2] by (simp add: MEMCPY_SIZE_def demo_state_def)
    show "wp (test_source demo 0x1234 (demo_run\<lparr>tr_args := default_args\<lparr>buf_size := 2048\<rparr>\<rparr>)) (\<lambda>_ s'. \<exists>cs. calls s' = cs \<and>
      (\<forall>m. mem_image cs m = poke 0x200000 (replicate 2048 0x34) m)) demo_state"
      by (rule wp_mono [OF filled [THEN conjunct1]])
        (auto simp: demo_run_def default_args_def demo_state_def low)
  qed
qed

end
